(* ===== verification/Prelude.thy ===== *)
theory Prelude
  imports Main "HOL-Library.Multiset"
begin

text \<open>
  Shared ground of the development: Go values that may be a panic, the sequencing of
  stateful calls, events appended to a trace, and the generic list facts the components
  use. Components collect their rewrite rules in the named collections declared here:
  \<open>go_simps\<close> for sequencing, \<open>op_frame\<close> for what an adapter operation leaves alone,
  \<open>const_defs\<close> for the string constants of the source.
\<close>

named_theorems go_simps \<open>sequencing of calls that may panic\<close>
named_theorems const_defs \<open>string constants of the source\<close>
named_theorems op_frame \<open>fields an operation leaves unchanged\<close>

section \<open>Panics\<close>

text \<open>
  A Go function either returns or panics (a nil dereference, an explicit panic). State
  changes made before a panic stay visible, so a stateful call returns the outcome next
  to the state it left behind.
\<close>

datatype 'a go = Ret 'a | Panic string

definition andThen :: "'a go \<times> 's \<Rightarrow> ('a \<Rightarrow> 's \<Rightarrow> 'b go \<times> 's) \<Rightarrow> 'b go \<times> 's" where
  "andThen p f = (case p of (Ret x, s) \<Rightarrow> f x s | (Panic e, s) \<Rightarrow> (Panic e, s))"

lemma andThen_simps [simp, go_simps]:
  "andThen (Ret x, s) f = f x s"
  "andThen (Panic e, s) f = (Panic e, s)"
  by (simp_all add: andThen_def)

lemma andThen_assoc: "andThen (andThen p f) g = andThen p (\<lambda>x s. andThen (f x s) g)"
  by (cases p; cases "fst p") (auto simp: andThen_def)

definition panics :: "'a go \<Rightarrow> bool" where
  "panics r \<longleftrightarrow> (case r of Ret _ \<Rightarrow> False | Panic _ \<Rightarrow> True)"

lemma panics_simps [simp]: "\<not> panics (Ret x)" "panics (Panic e)"
  by (simp_all add: panics_def)

lemma not_panics_iff: "\<not> panics r \<longleftrightarrow> (\<exists>x. r = Ret x)"
  by (cases r) auto

section \<open>Lists\<close>

lemma takeWhile_append_stop:
  "\<forall>x\<in>set xs. P x \<Longrightarrow> \<not> P y \<Longrightarrow> takeWhile P (xs @ y # ys) = xs"
  by (induction xs) auto

lemma dropWhile_append_stop:
  "\<forall>x\<in>set xs. P x \<Longrightarrow> \<not> P y \<Longrightarrow> dropWhile P (xs @ y # ys) = y # ys"
  by (induction xs) auto

lemma dropWhile_all: "\<forall>x\<in>set xs. P x \<Longrightarrow> dropWhile P xs = []"
  by (simp add: dropWhile_eq_Nil_conv)

lemma find_Some_mem: "find P xs = Some x \<Longrightarrow> x \<in> set xs \<and> P x"
  by (auto simp: find_Some_iff)

end
