(* ===== verification/Go_Strings.thy ===== *)
theory Go_Strings
  imports Prelude
begin

text \<open>
  The parts of Go's standard library the program uses on strings: \<open>strings.SplitN\<close>,
  \<open>strings.Join\<close>, \<open>strings.Contains\<close>, \<open>strings.TrimSuffix\<close>, \<open>strings.ToLower\<close>,
  \<open>filepath.Base\<close>, \<open>filepath.Ext\<close>, \<open>strconv.FormatBool\<close> and the \<open>%v\<close> form of a
  string slice. A Go string is a sequence of bytes, which is HOL's \<open>string\<close>.
\<close>

section \<open>strings\<close>

text \<open>\<open>strings.SplitN(s, sep, 2)\<close> for a separator of one byte.\<close>

definition SplitN2 :: "string \<Rightarrow> char \<Rightarrow> string list" where
  "SplitN2 s c =
     (case dropWhile (\<lambda>x. x \<noteq> c) s of
        [] \<Rightarrow> [s]
      | _ # rest \<Rightarrow> [takeWhile (\<lambda>x. x \<noteq> c) s, rest])"

lemma SplitN2_sep:
  "c \<notin> set a \<Longrightarrow> SplitN2 (a @ c # b) c = [a, b]"
proof -
  assume "c \<notin> set a"
  then have "\<forall>x\<in>set a. x \<noteq> c" by auto
  then show ?thesis
    by (simp add: SplitN2_def takeWhile_append_stop dropWhile_append_stop)
qed

lemma SplitN2_no_sep: "c \<notin> set s \<Longrightarrow> SplitN2 s c = [s]"
proof -
  assume "c \<notin> set s"
  then have d: "dropWhile (\<lambda>x. x \<noteq> c) s = []" by (intro dropWhile_all) auto
  show ?thesis unfolding SplitN2_def d by simp
qed

fun Join :: "string list \<Rightarrow> string \<Rightarrow> string" where
  "Join [] sep = []"
| "Join [s] sep = s"
| "Join (s # t # ts) sep = s @ sep @ Join (t # ts) sep"

fun hasPrefix :: "string \<Rightarrow> string \<Rightarrow> bool" where
  "hasPrefix s [] = True"
| "hasPrefix [] (p # ps) = False"
| "hasPrefix (c # s) (p # ps) = (c = p \<and> hasPrefix s ps)"

fun Contains :: "string \<Rightarrow> string \<Rightarrow> bool" where
  "Contains [] sub = (sub = [])"
| "Contains (c # s) sub = (hasPrefix (c # s) sub \<or> Contains s sub)"

lemma hasPrefix_iff: "hasPrefix s p \<longleftrightarrow> (\<exists>r. s = p @ r)"
  by (induction s p rule: hasPrefix.induct) auto

lemma Contains_iff: "Contains s sub \<longleftrightarrow> (\<exists>a b. s = a @ sub @ b)"
proof (induction s sub rule: Contains.induct)
  case (1 sub)
  then show ?case by auto
next
  case (2 c s sub)
  show ?case
  proof
    assume "Contains (c # s) sub"
    then consider (pre) "hasPrefix (c # s) sub" | (rest) "Contains s sub" by auto
    then show "\<exists>a b. c # s = a @ sub @ b"
    proof cases
      case pre
      then obtain r where "c # s = sub @ r" by (auto simp: hasPrefix_iff)
      then have "c # s = [] @ sub @ r" by simp
      then show ?thesis by blast
    next
      case rest
      with 2 obtain a b where "s = a @ sub @ b" by blast
      then have "c # s = (c # a) @ sub @ b" by simp
      then show ?thesis by blast
    qed
  next
    assume "\<exists>a b. c # s = a @ sub @ b"
    then obtain a b where ab: "c # s = a @ sub @ b" by blast
    show "Contains (c # s) sub"
    proof (cases a)
      case Nil
      with ab have "hasPrefix (c # s) sub" unfolding hasPrefix_iff by simp
      then show ?thesis by simp
    next
      case (Cons x a')
      with ab have "s = a' @ sub @ b" by simp
      with 2 show ?thesis by auto
    qed
  qed
qed

lemma Contains_prefix [simp]: "Contains (s @ r) s"
  unfolding Contains_iff by (intro exI[of _ "[]"] exI[of _ r]) simp

definition HasSuffix :: "string \<Rightarrow> string \<Rightarrow> bool" where
  "HasSuffix s suf \<longleftrightarrow> length suf \<le> length s \<and> drop (length s - length suf) s = suf"

definition TrimSuffix :: "string \<Rightarrow> string \<Rightarrow> string" where
  "TrimSuffix s suf = (if HasSuffix s suf then take (length s - length suf) s else s)"

lemma TrimSuffix_append [simp]: "TrimSuffix (s @ suf) suf = s"
  by (simp add: TrimSuffix_def HasSuffix_def)

text \<open>The ASCII path of \<open>strings.ToLower\<close>; the program lowers one ASCII constant.\<close>

definition lower_byte :: "char \<Rightarrow> char" where
  "lower_byte c = (let n = of_char c in if (65::nat) \<le> n \<and> n \<le> 90 then char_of (n + 32) else c)"

definition ToLower :: "string \<Rightarrow> string" where
  "ToLower s = map lower_byte s"

section \<open>path/filepath on Unix\<close>

definition filepath_Base :: "string \<Rightarrow> string" where
  "filepath_Base p =
     (if p = [] then ''.''
      else let q = rev (dropWhile (\<lambda>c. c = CHR ''/'') (rev p));
               b = rev (takeWhile (\<lambda>c. c \<noteq> CHR ''/'') (rev q))
           in if b = [] then ''/'' else b)"

definition filepath_Ext :: "string \<Rightarrow> string" where
  "filepath_Ext p =
     (let plain = (\<lambda>c. c \<noteq> CHR ''.'' \<and> c \<noteq> CHR ''/'') in
      case dropWhile plain (rev p) of
        [] \<Rightarrow> []
      | c # _ \<Rightarrow> if c = CHR ''.'' then c # rev (takeWhile plain (rev p)) else [])"

lemma filepath_Base_slash:
  assumes "f \<noteq> []" and "CHR ''/'' \<notin> set f"
  shows "filepath_Base (d @ CHR ''/'' # f) = f"
proof -
  from assms have hd: "rev f \<noteq> []" "hd (rev f) \<noteq> CHR ''/''"
    by (auto simp: hd_rev dest: last_in_set)
  then have "dropWhile (\<lambda>c. c = CHR ''/'') (rev f @ CHR ''/'' # rev d) = rev f @ CHR ''/'' # rev d"
    by (cases "rev f") auto
  moreover have "takeWhile (\<lambda>c. c \<noteq> CHR ''/'') (rev f @ CHR ''/'' # rev d) = rev f"
    using assms by (intro takeWhile_append_stop) auto
  ultimately show ?thesis using assms by (simp add: filepath_Base_def)
qed

lemma filepath_Base_plain:
  assumes "f \<noteq> []" and "CHR ''/'' \<notin> set f"
  shows "filepath_Base f = f"
proof -
  from assms have d: "dropWhile (\<lambda>c. c = CHR ''/'') (rev f) = rev f"
    by (cases "rev f") auto
  have t: "takeWhile (\<lambda>c. c \<noteq> CHR ''/'') (rev f) = rev f"
    using assms(2) by (simp only: takeWhile_eq_all_conv set_rev) auto
  show ?thesis unfolding filepath_Base_def Let_def d rev_rev_ident t using assms by simp
qed

lemma filepath_Base_no_slash:
  "filepath_Base p = ''/'' \<or> CHR ''/'' \<notin> set (filepath_Base p)"
  by (auto simp: filepath_Base_def Let_def dest: set_takeWhileD)

lemma filepath_Ext_dot:
  assumes "CHR ''.'' \<notin> set e" and "CHR ''/'' \<notin> set e"
  shows "filepath_Ext (n @ CHR ''.'' # e) = CHR ''.'' # e"
proof -
  let ?plain = "\<lambda>c. c \<noteq> CHR ''.'' \<and> c \<noteq> CHR ''/''"
  have all: "\<forall>c\<in>set (rev e). ?plain c" using assms by auto
  have "dropWhile ?plain (rev e @ CHR ''.'' # rev n) = CHR ''.'' # rev n"
    using all by (rule dropWhile_append_stop) simp
  moreover have "takeWhile ?plain (rev e @ CHR ''.'' # rev n) = rev e"
    using all by (rule takeWhile_append_stop) simp
  ultimately show ?thesis by (simp add: filepath_Ext_def)
qed

section \<open>fmt and strconv\<close>

definition FormatBool :: "bool \<Rightarrow> string" where
  "FormatBool b = (if b then ''true'' else ''false'')"

text \<open>\<open>fmt.Sprintf("%v", s)\<close> for \<open>s\<close> of type \<open>[]string\<close>.\<close>

definition format_slice :: "string list \<Rightarrow> string" where
  "format_slice xs = ''['' @ Join xs '' '' @ '']''"

end
