(* ===== verification/Api_Objects.thy ===== *)
theory Api_Objects
  imports Go_Strings "HOL-Library.Finite_Map"
begin

text \<open>
  The data types of the Kubernetes and Tekton APIs, with the fields this program reads or
  writes. A Go map is a finite map, a pointer that may be nil an option, an instant
  (\<open>metav1.Time\<close>) its number of nanoseconds. Struct types are records whose fields carry
  a short prefix, because Isabelle's field names are global.
\<close>

type_synonym time = int

type_synonym smap = "(string, string) fmap"

text \<open>An error value is opaque; what the code asks of it is \<open>errors.IsNotFound\<close>.\<close>

datatype go_error = Error string

section \<open>apimachinery\<close>

record TypeMeta =
  tm_Kind :: string
  tm_APIVersion :: string

record ObjectMeta =
  om_Name :: string
  om_GenerateName :: string
  om_Namespace :: string
  om_Labels :: smap
  om_Annotations :: smap
  om_Finalizers :: "string list"
  om_Generation :: int
  om_CreationTimestamp :: time
  om_DeletionTimestamp :: "time option"

definition zero_ObjectMeta :: ObjectMeta where
  "zero_ObjectMeta =
     \<lparr>om_Name = [], om_GenerateName = [], om_Namespace = [], om_Labels = fmempty,
      om_Annotations = fmempty, om_Finalizers = [], om_Generation = 0,
      om_CreationTimestamp = 0, om_DeletionTimestamp = None\<rparr>"

text \<open>\<open>metav1.Condition\<close> and its three status values.\<close>

record Condition =
  c_Type :: string
  c_Status :: string
  c_Reason :: string
  c_Message :: string

definition ConditionTrue :: string where [const_defs]: "ConditionTrue = ''True''"
definition ConditionFalse :: string where [const_defs]: "ConditionFalse = ''False''"
definition ConditionUnknown :: string where [const_defs]: "ConditionUnknown = ''Unknown''"

lemma ConditionStatus_distinct [simp]:
  "ConditionTrue \<noteq> ConditionFalse" "ConditionFalse \<noteq> ConditionTrue"
  "ConditionTrue \<noteq> ConditionUnknown" "ConditionUnknown \<noteq> ConditionTrue"
  "ConditionFalse \<noteq> ConditionUnknown" "ConditionUnknown \<noteq> ConditionFalse"
  by (simp_all add: const_defs)

text \<open>\<open>types.Separator\<close>, between the parts of a namespaced name.\<close>

definition Separator :: char where [const_defs]: "Separator = CHR ''/''"

section \<open>Tekton and core\<close>

text \<open>\<open>apis.Condition\<close> of knative, the conditions of PipelineRuns and TaskRuns.\<close>

record ApisCondition =
  ac_Type :: string
  ac_Status :: string
  ac_Reason :: string
  ac_Message :: string

definition ConditionSucceeded :: string where [const_defs]: "ConditionSucceeded = ''Succeeded''"

definition ParamTypeString :: string where [const_defs]: "ParamTypeString = ''string''"

definition PipelineRunSpecStatusCancelled :: string where
  [const_defs]: "PipelineRunSpecStatusCancelled = ''Cancelled''"

record ParamValue =
  pv_Type :: string
  pv_StringVal :: string
  pv_ArrayVal :: "string list"
  pv_ObjectVal :: smap

text \<open>The composite literal \<open>ParamValue{Type: ParamTypeString, StringVal: v}\<close>.\<close>

definition string_value :: "string \<Rightarrow> ParamValue" where
  "string_value v = \<lparr>pv_Type = ParamTypeString, pv_StringVal = v, pv_ArrayVal = [], pv_ObjectVal = fmempty\<rparr>"

lemma string_value_sel [simp]:
  "pv_Type (string_value v) = ParamTypeString" "pv_StringVal (string_value v) = v"
  by (simp_all add: string_value_def)

lemma string_value_inject [simp]: "string_value v = string_value w \<longleftrightarrow> v = w"
  by (auto simp: string_value_def)

record TektonParam =
  tp_Name :: string
  tp_Value :: ParamValue

record TektonPipelineRef =
  tpr_Name :: string
  tpr_Resolver :: string
  tpr_Params :: "TektonParam list"

record TimeoutFields =
  tf_Pipeline :: "int option"
  tf_Tasks :: "int option"
  tf_Finally :: "int option"

definition zero_TimeoutFields :: TimeoutFields where
  "zero_TimeoutFields = \<lparr>tf_Pipeline = None, tf_Tasks = None, tf_Finally = None\<rparr>"

text \<open>\<open>resource.Quantity\<close>: an exact amount.\<close>

datatype quantity = Quantity int

record PersistentVolumeClaim =
  pvc_AccessModes :: "string list"
  pvc_Requests :: "(string, quantity) fmap"

record WorkspaceBinding =
  wb_Name :: string
  wb_VolumeClaimTemplate :: "PersistentVolumeClaim option"

definition ReadWriteOnce :: string where [const_defs]: "ReadWriteOnce = ''ReadWriteOnce''"
definition ResourceStorage :: string where [const_defs]: "ResourceStorage = ''storage''"

record PipelineRunSpec =
  prs_PipelineRef :: "TektonPipelineRef option"
  prs_Params :: "TektonParam list"
  prs_Workspaces :: "WorkspaceBinding list"
  prs_Timeouts :: "TimeoutFields option"
  prs_ServiceAccountName :: string
  prs_Status :: string

definition zero_PipelineRunSpec :: PipelineRunSpec where
  "zero_PipelineRunSpec =
     \<lparr>prs_PipelineRef = None, prs_Params = [], prs_Workspaces = [], prs_Timeouts = None,
      prs_ServiceAccountName = [], prs_Status = []\<rparr>"

record PipelineRunResult =
  prr_Name :: string
  prr_Value :: ParamValue

record PipelineRunStatus =
  pst_Conditions :: "ApisCondition list"
  pst_Results :: "PipelineRunResult list"

record PipelineRun =
  plr_ObjectMeta :: ObjectMeta
  plr_Spec :: PipelineRunSpec
  plr_Status :: PipelineRunStatus

definition zero_PipelineRun :: PipelineRun where
  "zero_PipelineRun =
     \<lparr>plr_ObjectMeta = zero_ObjectMeta, plr_Spec = zero_PipelineRunSpec,
      plr_Status = \<lparr>pst_Conditions = [], pst_Results = []\<rparr>\<rparr>"

record TaskRun =
  tr_ObjectMeta :: ObjectMeta
  tr_Conditions :: "ApisCondition list"

text \<open>A Tekton Pipeline; of its spec the program reads the names of the workspaces.\<close>

record TektonPipeline =
  tpl_ObjectMeta :: ObjectMeta
  tpl_Workspaces :: "string list"

abbreviation plr_Name :: "PipelineRun \<Rightarrow> string" where
  "plr_Name p \<equiv> om_Name (plr_ObjectMeta p)"

abbreviation plr_Namespace :: "PipelineRun \<Rightarrow> string" where
  "plr_Namespace p \<equiv> om_Namespace (plr_ObjectMeta p)"

abbreviation plr_Labels :: "PipelineRun \<Rightarrow> smap" where
  "plr_Labels p \<equiv> om_Labels (plr_ObjectMeta p)"

abbreviation plr_Conditions :: "PipelineRun \<Rightarrow> ApisCondition list" where
  "plr_Conditions p \<equiv> pst_Conditions (plr_Status p)"

section \<open>operator-toolkit\<close>

text \<open>\<open>controller.OperationResult\<close> and the part of \<open>ctrl.Result\<close> the handler fills in.\<close>

record OperationResult =
  CancelRequest :: bool
  RequeueRequest :: bool

record CtrlResult =
  Requeue :: bool

definition zero_CtrlResult :: CtrlResult where
  "zero_CtrlResult = \<lparr>Requeue = False\<rparr>"

type_synonym op_outcome = "OperationResult \<times> go_error option"

end
