(* ===== verification/Externals.thy ===== *)
theory Externals
  imports Api_Objects
begin

text \<open>
  The functions of third-party packages the program calls are parameters of the model: one
  record \<open>ext\<close>, passed to every definition that uses one of them. What the program relies
  on is stated per package as a locale over that record; each law is the documented
  behaviour of the function it names. Theory \<open>Reference\<close> shows that the laws
  can be met together.
\<close>

record ext =
  \<comment> \<open>apimachinery \<open>meta\<close> and operator-toolkit \<open>conditions\<close>\<close>
  FindStatusCondition :: "Condition list \<Rightarrow> string \<Rightarrow> Condition option"
  IsStatusConditionTrue :: "Condition list \<Rightarrow> string \<Rightarrow> bool"
  SetCondition :: "Condition list \<Rightarrow> string \<Rightarrow> string \<Rightarrow> string \<Rightarrow> Condition list"
  SetConditionWithMessage ::
    "Condition list \<Rightarrow> string \<Rightarrow> string \<Rightarrow> string \<Rightarrow> string \<Rightarrow> Condition list"
  \<comment> \<open>apimachinery \<open>api/errors\<close>\<close>
  IsNotFound :: "go_error \<Rightarrow> bool"
  \<comment> \<open>controller-runtime \<open>controllerutil\<close>, on the list of finalizers of an object\<close>
  ContainsFinalizer :: "string list \<Rightarrow> string \<Rightarrow> bool"
  AddFinalizer :: "string list \<Rightarrow> string \<Rightarrow> string list"
  RemoveFinalizer :: "string list \<Rightarrow> string \<Rightarrow> string list"
  \<comment> \<open>Tekton and knative conditions\<close>
  IsDone :: "PipelineRun \<Rightarrow> bool"
  GetCondition :: "ApisCondition list \<Rightarrow> string \<Rightarrow> ApisCondition option"
  IsTrue :: "ApisCondition option \<Rightarrow> bool"
  IsFalse :: "ApisCondition option \<Rightarrow> bool"
  \<comment> \<open>operator-lib \<open>handler\<close>: kind and metadata of the owner, metadata of the object\<close>
  SetOwnerAnnotations :: "TypeMeta \<Rightarrow> ObjectMeta \<Rightarrow> ObjectMeta \<Rightarrow> ObjectMeta \<times> go_error option"
  TypeAnnotation :: string
  \<comment> \<open>apimachinery \<open>resource.MustParse\<close>; \<open>None\<close> is its panic\<close>
  MustParse :: "string \<Rightarrow> quantity option"
  \<comment> \<open>operator-toolkit \<open>controller\<close>, the results an operation returns\<close>
  ContinueProcessing :: op_outcome
  StopProcessing :: op_outcome
  RequeueNow :: op_outcome
  RequeueWithError :: "go_error \<Rightarrow> op_outcome"
  RequeueOnErrorOrContinue :: "go_error option \<Rightarrow> op_outcome"
  RequeueOnErrorOrStop :: "go_error option \<Rightarrow> op_outcome"
  \<comment> \<open>the order in which Go's \<open>range\<close> visits a map, which the language leaves open\<close>
  RangeOrder :: "smap \<Rightarrow> (string \<times> string) list"

section \<open>Status conditions\<close>

text \<open>
  A condition set for a type is the one found for it, other types are left alone, and
  \<open>IsStatusConditionTrue\<close> asks for presence with status \<open>True\<close>.
\<close>

locale conditions_api =
  fixes X :: ext
  assumes find_set_message:
    "FindStatusCondition X (SetConditionWithMessage X cs t s r m) t
       = Some \<lparr>c_Type = t, c_Status = s, c_Reason = r, c_Message = m\<rparr>"
    and find_set_message_other:
    "t' \<noteq> t \<Longrightarrow> FindStatusCondition X (SetConditionWithMessage X cs t s r m) t'
       = FindStatusCondition X cs t'"
    and find_set:
    "\<exists>m. FindStatusCondition X (SetCondition X cs t s r) t
       = Some \<lparr>c_Type = t, c_Status = s, c_Reason = r, c_Message = m\<rparr>"
    and find_set_other:
    "t' \<noteq> t \<Longrightarrow> FindStatusCondition X (SetCondition X cs t s r) t' = FindStatusCondition X cs t'"
    and is_true_iff:
    "IsStatusConditionTrue X cs t \<longleftrightarrow>
       (\<exists>c. FindStatusCondition X cs t = Some c \<and> c_Status c = ConditionTrue)"

section \<open>Finalizers\<close>

locale finalizer_api =
  fixes X :: ext
  assumes contains_iff: "ContainsFinalizer X fs f \<longleftrightarrow> f \<in> set fs"
    and set_add: "set (AddFinalizer X fs f) = insert f (set fs)"
    and set_remove: "set (RemoveFinalizer X fs f) = set fs - {f}"

section \<open>Results of operations\<close>

text \<open>
  The flags a result carries: continue has neither, stop cancels, requeue asks for another
  reconcile; an error always comes with a requeue.
\<close>

definition continues :: "op_outcome \<Rightarrow> bool" where
  "continues r \<longleftrightarrow> snd r = None \<and> \<not> CancelRequest (fst r) \<and> \<not> RequeueRequest (fst r)"

definition stops :: "op_outcome \<Rightarrow> bool" where
  "stops r \<longleftrightarrow> snd r = None \<and> CancelRequest (fst r) \<and> \<not> RequeueRequest (fst r)"

definition requeues :: "op_outcome \<Rightarrow> bool" where
  "requeues r \<longleftrightarrow> snd r = None \<and> RequeueRequest (fst r)"

definition fails_with :: "go_error \<Rightarrow> op_outcome \<Rightarrow> bool" where
  "fails_with e r \<longleftrightarrow> snd r = Some e"

lemmas outcome_defs = continues_def stops_def requeues_def fails_with_def

locale results_api =
  fixes X :: ext
  assumes continue_continues: "continues (ContinueProcessing X)"
    and stop_stops: "stops (StopProcessing X)"
    and requeue_requeues: "requeues (RequeueNow X)"
    and error_fails: "fails_with e (RequeueWithError X e)"
    and or_continue_None: "continues (RequeueOnErrorOrContinue X None)"
    and or_continue_Some: "fails_with e (RequeueOnErrorOrContinue X (Some e))"
    and or_stop_None: "stops (RequeueOnErrorOrStop X None)"
    and or_stop_Some: "fails_with e (RequeueOnErrorOrStop X (Some e))"
begin

lemma continues_or_continue_iff: "continues (RequeueOnErrorOrContinue X err) \<longleftrightarrow> err = None"
  using or_continue_None or_continue_Some by (cases err) (auto simp: outcome_defs)

lemma not_continues_or_stop: "\<not> continues (RequeueOnErrorOrStop X err)"
  using or_stop_None or_stop_Some by (cases err) (auto simp: outcome_defs)

lemma stops_or_stop_iff: "stops (RequeueOnErrorOrStop X err) \<longleftrightarrow> err = None"
  using or_stop_None or_stop_Some by (cases err) (auto simp: outcome_defs)

lemma not_continues_simps:
  "\<not> continues (StopProcessing X)" "\<not> continues (RequeueNow X)"
  "\<not> continues (RequeueWithError X e)"
  using stop_stops requeue_requeues error_fails by (auto simp: outcome_defs)

lemma snd_simps:
  "snd (RequeueOnErrorOrContinue X err) = err" "snd (RequeueOnErrorOrStop X err) = err"
  "snd (RequeueWithError X e) = Some e" "snd (ContinueProcessing X) = None"
  "snd (StopProcessing X) = None" "snd (RequeueNow X) = None"
  using or_continue_None or_continue_Some or_stop_None or_stop_Some
    error_fails continue_continues stop_stops requeue_requeues
  by (cases err; auto simp: outcome_defs)+

lemmas continues_iffs =
  continue_continues continues_or_continue_iff not_continues_or_stop not_continues_simps

end

section \<open>Tekton\<close>

text \<open>
  A PipelineRun is done when its \<open>Succeeded\<close> condition is present and not \<open>Unknown\<close>;
  \<open>IsTrue\<close> and \<open>IsFalse\<close> may be called on a nil condition.
\<close>

locale tekton_api =
  fixes X :: ext
  assumes done_iff:
    "IsDone X p \<longleftrightarrow> (\<exists>c. GetCondition X (plr_Conditions p) ConditionSucceeded = Some c
       \<and> ac_Status c \<noteq> ConditionUnknown)"
    and true_iff: "IsTrue X oc \<longleftrightarrow> (\<exists>c. oc = Some c \<and> ac_Status c = ConditionTrue)"
    and false_iff: "IsFalse X oc \<longleftrightarrow> (\<exists>c. oc = Some c \<and> ac_Status c = ConditionFalse)"
    and get_condition_mem: "GetCondition X cs t = Some c \<Longrightarrow> c \<in> set cs \<and> ac_Type c = t"

section \<open>Owner annotations\<close>

text \<open>
  Only annotations of the object change; for an owner with a kind and a name the type
  annotation holds the owner's kind, followed by its group if it has one.
\<close>

locale owner_api =
  fixes X :: ext
  assumes only_annotations:
    "\<exists>an. fst (SetOwnerAnnotations X tm owner obj) = obj\<lparr>om_Annotations := an\<rparr>"
    and type_annotation:
    "tm_Kind tm \<noteq> [] \<Longrightarrow> om_Name owner \<noteq> [] \<Longrightarrow>
       \<exists>g. fmlookup (om_Annotations (fst (SetOwnerAnnotations X tm owner obj))) (TypeAnnotation X)
             = Some (tm_Kind tm @ g)"

section \<open>Go's range over a map\<close>

text \<open>Every entry is visited exactly once, in an order the language leaves open.\<close>

locale range_api =
  fixes X :: ext
  assumes range_distinct: "distinct (map fst (RangeOrder X m))"
    and range_entries: "fmap_of_list (RangeOrder X m) = m"

end
