(* ===== verification/Tekton_Utils.thy ===== *)
theory Tekton_Utils
  imports Externals
begin

text \<open>
  \<open>tekton/utils/pipeline.go\<close>: the reference to a Pipeline that an InternalRequest carries,
  its conversion to Tekton's own types, and the pipeline name derived from a git path. The
  embedding of \<open>Pipeline\<close> in \<open>ParameterizedPipeline\<close> is a record extension.
\<close>

record Param =
  p_Name :: string
  p_Value :: string

record PipelineRef =
  pr_Resolver :: string
  pr_Params :: "Param list"

record Pipeline =
  pl_PipelineRef :: PipelineRef
  pl_ServiceAccountName :: string
  pl_Timeouts :: TimeoutFields

record ParameterizedPipeline = Pipeline +
  pp_Params :: "Param list"

section \<open>Operations\<close>

definition toTektonParam :: "Param \<Rightarrow> TektonParam" where
  "toTektonParam p = \<lparr>tp_Name = p_Name p, tp_Value = string_value (p_Value p)\<rparr>"

definition ToTektonPipelineRef :: "PipelineRef \<Rightarrow> TektonPipelineRef" where
  "ToTektonPipelineRef pr =
     \<lparr>tpr_Name = [], tpr_Resolver = pr_Resolver pr, tpr_Params = map toTektonParam (pr_Params pr)\<rparr>"

text \<open>One iteration of the loop over the parameters, and the loop.\<close>

definition nameStep :: "string \<Rightarrow> Param \<Rightarrow> string" where
  "nameStep name param =
     (if p_Name param = ''pathInRepo''
      then let filename = filepath_Base (p_Value param) in TrimSuffix filename (filepath_Ext filename)
      else name)"

definition GetPipelineNameFromGitResolver :: "ParameterizedPipeline \<Rightarrow> string" where
  "GetPipelineNameFromGitResolver prp = foldl nameStep '''' (pp_Params prp)"

definition GetTektonParams :: "ParameterizedPipeline \<Rightarrow> TektonParam list" where
  "GetTektonParams prp = map toTektonParam (pp_Params prp)"

definition IsClusterScoped :: "PipelineRef \<Rightarrow> bool" where
  "IsClusterScoped pr \<longleftrightarrow> pr_Resolver pr = ''cluster''"

section \<open>Properties\<close>

lemma toTektonParam_sel [simp]:
  "tp_Name (toTektonParam p) = p_Name p" "tp_Value (toTektonParam p) = string_value (p_Value p)"
  by (simp_all add: toTektonParam_def)

lemma inj_toTektonParam: "inj toTektonParam"
  by (rule injI) (simp add: toTektonParam_def)

lemma ToTektonPipelineRef_sel [simp]:
  "tpr_Name (ToTektonPipelineRef pr) = []"
  "tpr_Resolver (ToTektonPipelineRef pr) = pr_Resolver pr"
  "tpr_Params (ToTektonPipelineRef pr) = map toTektonParam (pr_Params pr)"
  by (simp_all add: ToTektonPipelineRef_def)

lemma nameStep_other [simp]: "p_Name q \<noteq> ''pathInRepo'' \<Longrightarrow> nameStep n q = n"
  by (simp add: nameStep_def)

lemma nameStep_path: "p_Name q = ''pathInRepo'' \<Longrightarrow> nameStep n q = nameStep [] q"
  by (simp add: nameStep_def)

lemma foldl_nameStep_others:
  "\<forall>q\<in>set qs. p_Name q \<noteq> ''pathInRepo'' \<Longrightarrow> foldl nameStep n qs = n"
  by (induction qs) auto

lemma nameStep_file:
  assumes "p_Name q = ''pathInRepo''"
    and "p_Value q = d @ CHR ''/'' # stem @ CHR ''.'' # e"
    and "CHR ''/'' \<notin> set stem" and "CHR ''.'' \<notin> set e" and "CHR ''/'' \<notin> set e"
  shows "nameStep n q = stem"
proof -
  have base: "filepath_Base (p_Value q) = stem @ CHR ''.'' # e"
    unfolding assms(2) by (rule filepath_Base_slash) (use assms in auto)
  then show ?thesis
    using assms(1) filepath_Ext_dot[OF assms(4,5), of stem] by (simp add: nameStep_def)
qed


end
