(* ===== verification/Metrics.thy ===== *)
theory Metrics
  imports Complex_Main Externals
begin

text \<open>
  \<open>metrics/internalrequest.go\<close>: the three Prometheus collectors and the functions that
  register InternalRequests in them. A function is modelled by the calls it makes on the
  collectors, in order, and whether it panics; Prometheus itself is the interface
  \<open>prometheus_api\<close>. The functions run as goroutines, so the calls of several of them may
  interleave.
\<close>

section \<open>Collectors and the calls on them\<close>

record Labels =
  l_request :: string
  l_namespace :: string
  l_reason :: string
  l_succeeded :: string

text \<open>
  \<open>InternalRequestAttemptConcurrentTotal\<close> is the gauge,
  \<open>InternalRequestAttemptDurationSeconds\<close> the histogram, \<open>InternalRequestAttemptTotal\<close>
  the counter vector.
\<close>

datatype prom_op = GaugeInc | GaugeDec | HistogramObserve Labels real | CounterInc Labels

definition duration_buckets :: "int list" where
  "duration_buckets = [10, 20, 40, 60, 150, 300, 450, 900, 1800, 3600]"

text \<open>\<open>time.Time.Sub\<close> saturates at the bounds of a 64-bit duration; \<open>Seconds\<close> divides.\<close>

definition time_Sub :: "time \<Rightarrow> time \<Rightarrow> int" where
  "time_Sub a b = max (- (2 ^ 63)) (min (2 ^ 63 - 1) (a - b))"

definition Seconds :: "int \<Rightarrow> real" where
  "Seconds d = real_of_int d / 1000000000"

section \<open>Registering InternalRequests\<close>

text \<open>
  The dereference of a nil time pointer panics; the gauge has been decremented by then.
\<close>

definition observe_elapsed ::
  "Labels \<Rightarrow> time option \<Rightarrow> time option \<Rightarrow> prom_op list \<Rightarrow> unit go \<times> prom_op list" where
  "observe_elapsed labels endTime startTime ops =
     (case endTime of
        None \<Rightarrow> (Panic ''nil pointer dereference'', ops)
      | Some e \<Rightarrow>
          (case startTime of
             None \<Rightarrow> (Panic ''nil pointer dereference'', ops)
           | Some s \<Rightarrow> (Ret (), ops @ [HistogramObserve labels (Seconds (time_Sub e s))])))"

definition RegisterCompletedInternalRequest ::
  "string \<Rightarrow> string \<Rightarrow> string \<Rightarrow> time option \<Rightarrow> time option \<Rightarrow> bool \<Rightarrow> unit go \<times> prom_op list" where
  "RegisterCompletedInternalRequest request namespace reason startTime completionTime succeeded =
     (let labels = \<lparr>l_request = request, l_namespace = namespace, l_reason = reason,
                    l_succeeded = FormatBool succeeded\<rparr>
      in andThen (observe_elapsed labels completionTime startTime [GaugeDec])
           (\<lambda>_ ops. (Ret (), ops @ [CounterInc labels])))"

definition RegisterNewInternalRequest :: "time \<Rightarrow> time option \<Rightarrow> unit go \<times> prom_op list" where
  "RegisterNewInternalRequest creationTime startTime = (Ret (), [GaugeInc])"

definition RegisterDeletedInternalRequest ::
  "string \<Rightarrow> string \<Rightarrow> string \<Rightarrow> time option \<Rightarrow> time option \<Rightarrow> unit go \<times> prom_op list" where
  "RegisterDeletedInternalRequest request namespace reason startTime deletionTime =
     (let labels = \<lparr>l_request = request, l_namespace = namespace, l_reason = reason,
                    l_succeeded = FormatBool False\<rparr>
      in andThen
           (if startTime \<noteq> None then observe_elapsed labels deletionTime startTime [GaugeDec]
            else (Ret (), []))
           (\<lambda>_ ops. (Ret (), ops @ [CounterInc labels])))"

definition RegisterRejectedInternalRequest :: "string \<Rightarrow> string \<Rightarrow> string \<Rightarrow> unit go \<times> prom_op list" where
  "RegisterRejectedInternalRequest request namespace reason =
     (Ret (), [CounterInc \<lparr>l_request = request, l_namespace = namespace, l_reason = reason,
                           l_succeeded = FormatBool False\<rparr>])"

text \<open>
  A \<open>go\<close> statement evaluates the arguments and starts the call: the started goroutine is
  the call as data.
\<close>

datatype metric_call =
    Completed string string string "time option" "time option" bool
  | New time "time option"
  | Deleted string string string "time option" "time option"
  | Rejected string string string

fun run_metric_call :: "metric_call \<Rightarrow> unit go \<times> prom_op list" where
  "run_metric_call (Completed request namespace reason startTime completionTime succeeded) =
     RegisterCompletedInternalRequest request namespace reason startTime completionTime succeeded"
| "run_metric_call (New creationTime startTime) = RegisterNewInternalRequest creationTime startTime"
| "run_metric_call (Deleted request namespace reason startTime deletionTime) =
     RegisterDeletedInternalRequest request namespace reason startTime deletionTime"
| "run_metric_call (Rejected request namespace reason) =
     RegisterRejectedInternalRequest request namespace reason"

lemmas register_defs =
  RegisterCompletedInternalRequest_def RegisterNewInternalRequest_def
  RegisterDeletedInternalRequest_def RegisterRejectedInternalRequest_def observe_elapsed_def

definition metric_ops :: "metric_call \<Rightarrow> prom_op list" where
  "metric_ops c = snd (run_metric_call c)"

definition metric_panics :: "metric_call \<Rightarrow> bool" where
  "metric_panics c = panics (fst (run_metric_call c))"

section \<open>What a call contributes\<close>

text \<open>The specification of each goroutine, independent of how it is written.\<close>

fun gauge_effect :: "metric_call \<Rightarrow> int" where
  "gauge_effect (Completed _ _ _ _ _ _) = - 1"
| "gauge_effect (New _ _) = 1"
| "gauge_effect (Deleted _ _ _ st _) = (if st = None then 0 else - 1)"
| "gauge_effect (Rejected _ _ _) = 0"

fun attempt_labels :: "metric_call \<Rightarrow> Labels option" where
  "attempt_labels (Completed rq ns rs _ _ b) =
     Some \<lparr>l_request = rq, l_namespace = ns, l_reason = rs, l_succeeded = FormatBool b\<rparr>"
| "attempt_labels (New _ _) = None"
| "attempt_labels (Deleted rq ns rs _ _) =
     Some \<lparr>l_request = rq, l_namespace = ns, l_reason = rs, l_succeeded = FormatBool False\<rparr>"
| "attempt_labels (Rejected rq ns rs) =
     Some \<lparr>l_request = rq, l_namespace = ns, l_reason = rs, l_succeeded = FormatBool False\<rparr>"

fun elapsed :: "metric_call \<Rightarrow> real option" where
  "elapsed (Completed _ _ _ (Some s) (Some e) _) = Some (Seconds (time_Sub e s))"
| "elapsed (Deleted _ _ _ (Some s) (Some e)) = Some (Seconds (time_Sub e s))"
| "elapsed _ = None"

fun op_gauge :: "prom_op \<Rightarrow> int" where
  "op_gauge GaugeInc = 1"
| "op_gauge GaugeDec = - 1"
| "op_gauge _ = 0"

fun op_count :: "Labels \<Rightarrow> prom_op \<Rightarrow> nat" where
  "op_count l (CounterInc l') = (if l = l' then 1 else 0)"
| "op_count l _ = 0"

fun op_observed :: "Labels \<Rightarrow> prom_op \<Rightarrow> real multiset" where
  "op_observed l (HistogramObserve l' d) = (if l = l' then {#d#} else {#})"
| "op_observed l _ = {#}"

lemma metric_ops_gauge: "(\<Sum>x\<leftarrow>metric_ops c. op_gauge x) = gauge_effect c"
  by (cases c) (auto simp: metric_ops_def register_defs Let_def split: option.splits)

lemma metric_ops_count:
  "\<not> metric_panics c \<Longrightarrow>
     (\<Sum>x\<leftarrow>metric_ops c. op_count l x) = (if attempt_labels c = Some l then 1 else 0)"
  by (cases c) (auto simp: metric_ops_def metric_panics_def register_defs Let_def split: option.splits)

lemma metric_ops_observed:
  "(\<Sum>x\<leftarrow>metric_ops c. op_observed l x) =
     (if attempt_labels c = Some l then (case elapsed c of None \<Rightarrow> {#} | Some d \<Rightarrow> {#d#}) else {#})"
  by (cases c) (auto simp: metric_ops_def register_defs Let_def split: option.splits)

lemma metric_panics_simps [simp]:
  "metric_panics (Completed rq ns rs st ct b) \<longleftrightarrow> st = None \<or> ct = None"
  "\<not> metric_panics (New c s)" "\<not> metric_panics (Rejected rq ns rs)"
  "metric_panics (Deleted rq ns rs st dt) \<longleftrightarrow> st \<noteq> None \<and> dt = None"
  by (auto simp: metric_panics_def register_defs Let_def split: option.splits)

section \<open>Prometheus\<close>

text \<open>
  The documented effect of each call on what can be read from the collectors: the gauge
  and the counters as numbers, a histogram as the multiset of its observations.
\<close>

locale prometheus_api =
  fixes apply_op :: "prom_op \<Rightarrow> 'm \<Rightarrow> 'm"
    and gauge :: "'m \<Rightarrow> int"
    and counter :: "'m \<Rightarrow> Labels \<Rightarrow> nat"
    and observed :: "'m \<Rightarrow> Labels \<Rightarrow> real multiset"
  assumes gauge_apply: "gauge (apply_op x m) = gauge m + op_gauge x"
    and counter_apply: "counter (apply_op x m) l = counter m l + op_count l x"
    and observed_apply: "observed (apply_op x m) l = observed m l + op_observed l x"
begin

lemma gauge_fold: "gauge (fold apply_op xs m) = gauge m + (\<Sum>x\<leftarrow>xs. op_gauge x)"
  by (induction xs arbitrary: m) (auto simp: gauge_apply)

lemma counter_fold: "counter (fold apply_op xs m) l = counter m l + (\<Sum>x\<leftarrow>xs. op_count l x)"
  by (induction xs arbitrary: m) (auto simp: counter_apply)

lemma observed_fold: "observed (fold apply_op xs m) l = observed m l + (\<Sum>x\<leftarrow>xs. op_observed l x)"
  by (induction xs arbitrary: m) (auto simp: observed_apply add.assoc)

end

section \<open>Properties\<close>

lemma sum_list_mset_eq:
  fixes f :: "'a \<Rightarrow> 'b::comm_monoid_add"
  shows "mset xs = mset ys \<Longrightarrow> (\<Sum>x\<leftarrow>xs. f x) = (\<Sum>x\<leftarrow>ys. f x)"
  by (metis mset_map sum_mset_sum_list)

lemma sum_list_concat_map:
  fixes f :: "'b \<Rightarrow> 'c::comm_monoid_add"
  shows "(\<Sum>x\<leftarrow>concat (map g cs). f x) = (\<Sum>c\<leftarrow>cs. \<Sum>x\<leftarrow>g c. f x)"
  by (induction cs) auto

lemma sum_list_count_filter:
  "(\<Sum>c\<leftarrow>cs. if P c then 1 else (0::nat)) = length (filter P cs)"
  by (induction cs) auto

text \<open>
  C20: whatever the scheduling of the goroutines, that is for every interleaving of their
  collector calls, the gauge moves by the number of started minus finished requests, each
  finished request counts once under its labels, and the histogram gains exactly the
  elapsed times.
\<close>

theorem metrics_any_interleaving:
  assumes prom: "prometheus_api apply_op gauge counter observed"
    and sched: "mset sched = mset (concat (map metric_ops calls))"
    and safe: "\<forall>c\<in>set calls. \<not> metric_panics c"
  shows "gauge (fold apply_op sched m) = gauge m + (\<Sum>c\<leftarrow>calls. gauge_effect c) \<and>
    counter (fold apply_op sched m) l =
      counter m l + length (filter (\<lambda>c. attempt_labels c = Some l) calls) \<and>
    observed (fold apply_op sched m) l = observed m l +
      (\<Sum>c\<leftarrow>calls. if attempt_labels c = Some l
         then (case elapsed c of None \<Rightarrow> {#} | Some d \<Rightarrow> {#d#}) else {#})"
proof (intro conjI)
  note eqs = sum_list_mset_eq[OF sched] sum_list_concat_map
  show "gauge (fold apply_op sched m) = gauge m + (\<Sum>c\<leftarrow>calls. gauge_effect c)"
    by (simp add: prometheus_api.gauge_fold[OF prom] eqs metric_ops_gauge)
  have "(\<Sum>x\<leftarrow>sched. op_count l x) = (\<Sum>c\<leftarrow>calls. if attempt_labels c = Some l then 1 else 0)"
    using safe by (simp add: eqs metric_ops_count cong: map_cong)
  then show "counter (fold apply_op sched m) l =
      counter m l + length (filter (\<lambda>c. attempt_labels c = Some l) calls)"
    by (simp add: prometheus_api.counter_fold[OF prom] sum_list_count_filter)
  show "observed (fold apply_op sched m) l = observed m l +
      (\<Sum>c\<leftarrow>calls. if attempt_labels c = Some l
         then (case elapsed c of None \<Rightarrow> {#} | Some d \<Rightarrow> {#d#}) else {#})"
    by (simp add: prometheus_api.observed_fold[OF prom] eqs metric_ops_observed)
qed

text \<open>
  A registering goroutine panics exactly when it reads a nil time: a completion without
  a start or completion time, or a deletion of a started request without a deletion time.
\<close>

lemma metric_panics_iff:
  "metric_panics c \<longleftrightarrow>
     (\<exists>rq ns rs st ct b. c = Completed rq ns rs st ct b \<and> (st = None \<or> ct = None)) \<or>
     (\<exists>rq ns rs st. c = Deleted rq ns rs (Some st) None)"
  by (cases c) auto

end
