(* ===== verification/Internal_Request.thy ===== *)
theory Internal_Request
  imports Tekton_Utils Metrics
begin

text \<open>
  \<open>api/v1alpha1/internalrequest_types.go\<close> and \<open>internalrequest_conditions.go\<close>: the
  InternalRequest resource, the queries on its \<open>Succeeded\<close> condition and the methods that
  move it through its life. A method that mutates the request returns the new request and
  the metric goroutines it started; \<open>now\<close> is the value \<open>time.Now()\<close> has in the call.
\<close>

section \<open>Reasons and the condition type\<close>

definition SucceededConditionType :: string where [const_defs]: "SucceededConditionType = ''Succeeded''"
definition DeletedReason :: string where [const_defs]: "DeletedReason = ''Deleted''"
definition FailedReason :: string where [const_defs]: "FailedReason = ''Failed''"
definition RejectedReason :: string where [const_defs]: "RejectedReason = ''Rejected''"
definition RunningReason :: string where [const_defs]: "RunningReason = ''Running''"
definition SucceededReason :: string where [const_defs]: "SucceededReason = ''Succeeded''"

lemma reasons_not_running [simp]:
  "FailedReason \<noteq> RunningReason" "RejectedReason \<noteq> RunningReason"
  "SucceededReason \<noteq> RunningReason" "DeletedReason \<noteq> RunningReason"
  by (simp_all add: const_defs)

section \<open>The resource\<close>

record InternalRequestSpec =
  s_Pipeline :: "ParameterizedPipeline option"
  s_Params :: smap
  s_Timeouts :: TimeoutFields
  s_ServiceAccount :: string

record InternalRequestStatus =
  StartTime :: "time option"
  CompletionTime :: "time option"
  PipelineRunRef :: string
  Conditions :: "Condition list"
  Results :: smap

record InternalRequest =
  ir_TypeMeta :: TypeMeta
  ir_ObjectMeta :: ObjectMeta
  ir_Spec :: InternalRequestSpec
  ir_Status :: InternalRequestStatus

abbreviation ir_Name :: "InternalRequest \<Rightarrow> string" where
  "ir_Name ir \<equiv> om_Name (ir_ObjectMeta ir)"

abbreviation ir_Namespace :: "InternalRequest \<Rightarrow> string" where
  "ir_Namespace ir \<equiv> om_Namespace (ir_ObjectMeta ir)"

abbreviation ir_StartTime :: "InternalRequest \<Rightarrow> time option" where
  "ir_StartTime ir \<equiv> StartTime (ir_Status ir)"

abbreviation ir_CompletionTime :: "InternalRequest \<Rightarrow> time option" where
  "ir_CompletionTime ir \<equiv> CompletionTime (ir_Status ir)"

section \<open>Queries\<close>

definition succeededCondition :: "ext \<Rightarrow> InternalRequest \<Rightarrow> Condition option" where
  "succeededCondition X ir = FindStatusCondition X (Conditions (ir_Status ir)) SucceededConditionType"

definition HasCompleted :: "ext \<Rightarrow> InternalRequest \<Rightarrow> bool" where
  "HasCompleted X ir =
     (case succeededCondition X ir of
        None \<Rightarrow> False
      | Some condition \<Rightarrow>
          if c_Status condition = ConditionTrue then True
          else c_Status condition = ConditionFalse \<and> c_Reason condition \<noteq> RunningReason)"

definition HasFailed :: "ext \<Rightarrow> InternalRequest \<Rightarrow> bool" where
  "HasFailed X ir =
     (case succeededCondition X ir of
        None \<Rightarrow> False
      | Some condition \<Rightarrow>
          if c_Status condition = ConditionTrue then False
          else c_Status condition = ConditionFalse \<and> c_Reason condition \<noteq> RunningReason)"

definition HasSucceeded :: "ext \<Rightarrow> InternalRequest \<Rightarrow> bool" where
  "HasSucceeded X ir = IsStatusConditionTrue X (Conditions (ir_Status ir)) SucceededConditionType"

definition IsRunning :: "ext \<Rightarrow> InternalRequest \<Rightarrow> bool" where
  "IsRunning X ir =
     (case succeededCondition X ir of
        None \<Rightarrow> False
      | Some condition \<Rightarrow> c_Status condition \<noteq> ConditionTrue \<and> c_Reason condition = RunningReason)"

lemmas query_defs = HasCompleted_def HasFailed_def IsRunning_def

section \<open>Transitions\<close>

definition getPipelineName :: "InternalRequest \<Rightarrow> string" where
  "getPipelineName ir =
     (case s_Pipeline (ir_Spec ir) of
        None \<Rightarrow> []
      | Some p \<Rightarrow> GetPipelineNameFromGitResolver p)"

definition MarkFailed :: "ext \<Rightarrow> time \<Rightarrow> string \<Rightarrow> InternalRequest \<Rightarrow> InternalRequest \<times> metric_call list" where
  "MarkFailed X now message ir =
     (if HasCompleted X ir then (ir, [])
      else
        let st = (ir_Status ir)\<lparr>CompletionTime := Some now\<rparr>;
            st = st\<lparr>Conditions := SetConditionWithMessage X (Conditions st)
                       SucceededConditionType ConditionFalse FailedReason message\<rparr>;
            ir' = ir\<lparr>ir_Status := st\<rparr>
        in (ir', [Completed (getPipelineName ir') (ir_Namespace ir') FailedReason
                    (ir_StartTime ir') (ir_CompletionTime ir') False]))"

definition MarkRejected :: "ext \<Rightarrow> string \<Rightarrow> InternalRequest \<Rightarrow> InternalRequest \<times> metric_call list" where
  "MarkRejected X message ir =
     (if HasCompleted X ir then (ir, [])
      else
        let st = (ir_Status ir)\<lparr>Conditions := SetConditionWithMessage X (Conditions (ir_Status ir))
                       SucceededConditionType ConditionFalse RejectedReason message\<rparr>;
            ir' = ir\<lparr>ir_Status := st\<rparr>
        in (ir', [Rejected (getPipelineName ir') (ir_Namespace ir') RejectedReason]))"

definition MarkRunning :: "ext \<Rightarrow> time \<Rightarrow> InternalRequest \<Rightarrow> InternalRequest \<times> metric_call list" where
  "MarkRunning X now ir =
     (if HasCompleted X ir then (ir, [])
      else
        let (st, calls) =
              (if \<not> IsRunning X ir
               then ((ir_Status ir)\<lparr>StartTime := Some now\<rparr>,
                     [New (om_CreationTimestamp (ir_ObjectMeta ir)) (Some now)])
               else (ir_Status ir, []));
            st = st\<lparr>Conditions := SetCondition X (Conditions st)
                       SucceededConditionType ConditionFalse RunningReason\<rparr>
        in (ir\<lparr>ir_Status := st\<rparr>, calls))"

definition MarkSucceeded :: "ext \<Rightarrow> time \<Rightarrow> InternalRequest \<Rightarrow> InternalRequest \<times> metric_call list" where
  "MarkSucceeded X now ir =
     (if HasCompleted X ir then (ir, [])
      else
        let st = (ir_Status ir)\<lparr>CompletionTime := Some now\<rparr>;
            st = st\<lparr>Conditions := SetCondition X (Conditions st)
                       SucceededConditionType ConditionTrue SucceededReason\<rparr>;
            ir' = ir\<lparr>ir_Status := st\<rparr>
        in (ir', [Completed (getPipelineName ir') (ir_Namespace ir') SucceededReason
                    (ir_StartTime ir') (ir_CompletionTime ir') True]))"

definition RegisterDeletion :: "ext \<Rightarrow> time \<Rightarrow> InternalRequest \<Rightarrow> metric_call list" where
  "RegisterDeletion X now ir =
     (if HasCompleted X ir then []
      else
        let deletionTime = (case om_DeletionTimestamp (ir_ObjectMeta ir) of
                              None \<Rightarrow> Some now | Some t \<Rightarrow> Some t)
        in [Deleted (getPipelineName ir) (ir_Namespace ir) DeletedReason (ir_StartTime ir) deletionTime])"

lemmas mark_defs = MarkFailed_def MarkRejected_def MarkRunning_def MarkSucceeded_def

section \<open>Queries after a transition\<close>

lemma getPipelineName_status [simp]: "getPipelineName (ir\<lparr>ir_Status := s\<rparr>) = getPipelineName ir"
  by (simp add: getPipelineName_def)

text \<open>
  The pipeline name does not depend on the parameters of the resolver, although that is where
  the path of a git pipeline is given.
\<close>

lemma pipeline_name_ignores_resolver:
  "s_Pipeline (ir_Spec ir) = Some p \<Longrightarrow>
     getPipelineName (ir\<lparr>ir_Spec := (ir_Spec ir)\<lparr>s_Pipeline := Some (p\<lparr>pl_PipelineRef := ref\<rparr>)\<rparr>\<rparr>) = getPipelineName ir"
  by (simp add: getPipelineName_def GetPipelineNameFromGitResolver_def)

text \<open>No transition touches anything but the status.\<close>

lemma mark_frame [simp, op_frame]:
  "ir_ObjectMeta (fst (MarkFailed X now msg ir)) = ir_ObjectMeta ir"
  "ir_Spec (fst (MarkFailed X now msg ir)) = ir_Spec ir"
  "ir_TypeMeta (fst (MarkFailed X now msg ir)) = ir_TypeMeta ir"
  "ir_ObjectMeta (fst (MarkRejected X msg ir)) = ir_ObjectMeta ir"
  "ir_Spec (fst (MarkRejected X msg ir)) = ir_Spec ir"
  "ir_TypeMeta (fst (MarkRejected X msg ir)) = ir_TypeMeta ir"
  "ir_ObjectMeta (fst (MarkRunning X now ir)) = ir_ObjectMeta ir"
  "ir_Spec (fst (MarkRunning X now ir)) = ir_Spec ir"
  "ir_TypeMeta (fst (MarkRunning X now ir)) = ir_TypeMeta ir"
  "ir_ObjectMeta (fst (MarkSucceeded X now ir)) = ir_ObjectMeta ir"
  "ir_Spec (fst (MarkSucceeded X now ir)) = ir_Spec ir"
  "ir_TypeMeta (fst (MarkSucceeded X now ir)) = ir_TypeMeta ir"
  by (simp_all add: mark_defs Let_def)

lemma mark_completed [simp]:
  assumes "HasCompleted X ir"
  shows "MarkFailed X now msg ir = (ir, [])" "MarkRejected X msg ir = (ir, [])"
    "MarkRunning X now ir = (ir, [])" "MarkSucceeded X now ir = (ir, [])"
    "RegisterDeletion X now ir = []"
  using assms by (simp_all add: mark_defs RegisterDeletion_def)

context conditions_api
begin

lemma condition_after:
  "succeededCondition X (ir\<lparr>ir_Status := st\<lparr>Conditions := SetConditionWithMessage X cs
      SucceededConditionType s r m\<rparr>\<rparr>)
     = Some \<lparr>c_Type = SucceededConditionType, c_Status = s, c_Reason = r, c_Message = m\<rparr>"
  "\<exists>m. succeededCondition X (ir\<lparr>ir_Status := st\<lparr>Conditions := SetCondition X cs
      SucceededConditionType s r\<rparr>\<rparr>)
     = Some \<lparr>c_Type = SucceededConditionType, c_Status = s, c_Reason = r, c_Message = m\<rparr>"
  by (simp_all add: succeededCondition_def find_set_message find_set)

lemma after_failed:
  assumes "\<not> HasCompleted X ir"
  shows "HasFailed X (fst (MarkFailed X now msg ir))"
    and "succeededCondition X (fst (MarkFailed X now msg ir)) =
      Some \<lparr>c_Type = SucceededConditionType, c_Status = ConditionFalse, c_Reason = FailedReason,
            c_Message = msg\<rparr>"
    and "ir_CompletionTime (fst (MarkFailed X now msg ir)) = Some now"
    and "ir_StartTime (fst (MarkFailed X now msg ir)) = ir_StartTime ir"
  using assms by (simp_all add: MarkFailed_def Let_def HasFailed_def condition_after)

lemma after_rejected:
  assumes "\<not> HasCompleted X ir"
  shows "HasFailed X (fst (MarkRejected X msg ir))"
    and "succeededCondition X (fst (MarkRejected X msg ir)) =
      Some \<lparr>c_Type = SucceededConditionType, c_Status = ConditionFalse, c_Reason = RejectedReason,
            c_Message = msg\<rparr>"
    and "ir_CompletionTime (fst (MarkRejected X msg ir)) = ir_CompletionTime ir"
    and "ir_StartTime (fst (MarkRejected X msg ir)) = ir_StartTime ir"
  using assms by (simp_all add: MarkRejected_def Let_def HasFailed_def condition_after)

lemma after_succeeded:
  assumes "\<not> HasCompleted X ir"
  shows "HasSucceeded X (fst (MarkSucceeded X now ir))"
    and "HasCompleted X (fst (MarkSucceeded X now ir))"
    and "ir_CompletionTime (fst (MarkSucceeded X now ir)) = Some now"
    and "ir_StartTime (fst (MarkSucceeded X now ir)) = ir_StartTime ir"
proof -
  obtain m where m: "FindStatusCondition X (SetCondition X (Conditions (ir_Status ir))
      SucceededConditionType ConditionTrue SucceededReason) SucceededConditionType = Some
      \<lparr>c_Type = SucceededConditionType, c_Status = ConditionTrue, c_Reason = SucceededReason,
       c_Message = m\<rparr>"
    using find_set by blast
  show "HasSucceeded X (fst (MarkSucceeded X now ir))"
    "HasCompleted X (fst (MarkSucceeded X now ir))"
    "ir_CompletionTime (fst (MarkSucceeded X now ir)) = Some now"
    "ir_StartTime (fst (MarkSucceeded X now ir)) = ir_StartTime ir"
    using assms m
    by (simp_all add: MarkSucceeded_def Let_def HasSucceeded_def HasCompleted_def
        succeededCondition_def is_true_iff)
qed

lemma after_running:
  assumes "\<not> HasCompleted X ir"
  shows "IsRunning X (fst (MarkRunning X now ir))"
    and "\<not> HasCompleted X (fst (MarkRunning X now ir))"
    and "ir_StartTime (fst (MarkRunning X now ir)) =
      (if IsRunning X ir then ir_StartTime ir else Some now)"
    and "ir_CompletionTime (fst (MarkRunning X now ir)) = ir_CompletionTime ir"
proof -
  obtain m where m: "FindStatusCondition X (SetCondition X (Conditions (ir_Status ir))
      SucceededConditionType ConditionFalse RunningReason) SucceededConditionType = Some
      \<lparr>c_Type = SucceededConditionType, c_Status = ConditionFalse, c_Reason = RunningReason,
       c_Message = m\<rparr>"
    using find_set by blast
  show "IsRunning X (fst (MarkRunning X now ir))" "\<not> HasCompleted X (fst (MarkRunning X now ir))"
    "ir_StartTime (fst (MarkRunning X now ir)) =
      (if IsRunning X ir then ir_StartTime ir else Some now)"
    "ir_CompletionTime (fst (MarkRunning X now ir)) = ir_CompletionTime ir"
    using assms m
    by (simp_all add: MarkRunning_def Let_def query_defs succeededCondition_def)
qed

lemma completed_iff: "HasCompleted X ir \<longleftrightarrow> HasSucceeded X ir \<or> HasFailed X ir"
  by (auto simp: query_defs HasSucceeded_def is_true_iff succeededCondition_def
      split: option.splits)

lemma completed_after_failed:
  "\<not> HasCompleted X ir \<Longrightarrow> HasCompleted X (fst (MarkFailed X now msg ir))"
  "\<not> HasCompleted X ir \<Longrightarrow> HasCompleted X (fst (MarkRejected X msg ir))"
  by (simp_all add: completed_iff after_failed after_rejected)

lemma not_both: "\<not> (HasSucceeded X ir \<and> HasFailed X ir)"
  by (auto simp: query_defs HasSucceeded_def is_true_iff succeededCondition_def
      split: option.splits)

lemma running_not_completed: "IsRunning X ir \<Longrightarrow> \<not> HasCompleted X ir"
  by (auto simp: query_defs split: option.splits)

end

end
