(* ===== verification/Internal_Services_Config.thy ===== *)
theory Internal_Services_Config
  imports Externals
begin

text \<open>
  \<open>api/v1alpha1/internalservicesconfig_types.go\<close>: the configuration of the operator, and
  the patterns the API server validates its fields and those of an InternalRequest with.
\<close>

definition InternalServicesConfigResourceName :: string where
  [const_defs]: "InternalServicesConfigResourceName = ''config''"

record VolumeClaim =
  vc_Name :: string
  vc_Size :: string

record InternalServicesConfigSpec =
  AllowList :: "string list"
  AllowedGitResolverURLs :: "string list"
  AllowedServiceAccounts :: "string list"
  Debug :: bool
  Volume :: VolumeClaim

record InternalServicesConfig =
  cfg_ObjectMeta :: ObjectMeta
  cfg_Spec :: InternalServicesConfigSpec

definition zero_InternalServicesConfigSpec :: InternalServicesConfigSpec where
  "zero_InternalServicesConfigSpec =
     \<lparr>AllowList = [], AllowedGitResolverURLs = [], AllowedServiceAccounts = [], Debug = False,
      Volume = \<lparr>vc_Name = [], vc_Size = []\<rparr>\<rparr>"

section \<open>Validation patterns\<close>

definition is_digit :: "char \<Rightarrow> bool" where
  "is_digit c \<longleftrightarrow> 48 \<le> (of_char c :: nat) \<and> (of_char c :: nat) \<le> 57"

definition is_alnum :: "char \<Rightarrow> bool" where
  "is_alnum c \<longleftrightarrow> is_digit c \<or> (97 \<le> (of_char c :: nat) \<and> (of_char c :: nat) \<le> 122)"

text \<open>\<open>^[a-z0-9]([-a-z0-9]*[a-z0-9])?$\<close>\<close>

definition matches_name :: "string \<Rightarrow> bool" where
  "matches_name s \<longleftrightarrow>
     s \<noteq> [] \<and> is_alnum (hd s) \<and> is_alnum (last s) \<and> (\<forall>c\<in>set s. is_alnum c \<or> c = CHR ''-'')"

text \<open>\<open>^[1-9][0-9]*(K|M|G)i$\<close>\<close>

definition matches_size :: "string \<Rightarrow> bool" where
  "matches_size s \<longleftrightarrow>
     3 \<le> length s \<and> drop (length s - 2) s \<in> {''Ki'', ''Mi'', ''Gi''} \<and>
     hd s \<noteq> CHR ''0'' \<and> (\<forall>c\<in>set (take (length s - 2) s). is_digit c)"

lemma slash_not_name: "matches_name s \<Longrightarrow> CHR ''/'' \<notin> set s"
  by (auto simp: matches_name_def is_alnum_def is_digit_def)

text \<open>
  \<open>resource.MustParse\<close> accepts every size the pattern admits; this is all the operator
  relies on.
\<close>

locale quantity_api =
  fixes X :: ext
  assumes parse_size: "matches_size s \<Longrightarrow> MustParse X s \<noteq> None"

end
