(* ===== verification/Pipeline_Run.thy ===== *)
theory Pipeline_Run
  imports Internal_Request Internal_Services_Config
begin

text \<open>
  \<open>tekton/pipeline_run.go\<close>, \<open>tekton/utils.go\<close>, \<open>tekton/predicates.go\<close> and
  \<open>metadata/labels.go\<close>: building the PipelineRun of a request, reading its results back,
  and the filter on PipelineRun events. The wrapper struct \<open>InternalRequestPipelineRun\<close>
  embeds a PipelineRun and nothing else, so the builder works on the PipelineRun itself.
\<close>

section \<open>Labels and names\<close>

definition rhtapDomain :: string where [const_defs]: "rhtapDomain = ''appstudio.openshift.io''"

definition pipelinesLabelPrefix :: string where
  [const_defs]: "pipelinesLabelPrefix = ''pipelines.'' @ rhtapDomain"

definition PipelinesTypeLabel :: string where
  [const_defs]: "PipelinesTypeLabel = pipelinesLabelPrefix @ ''/'' @ ''type''"

definition internalRequestLabelPrefix :: string where
  [const_defs]: "internalRequestLabelPrefix = ''internal-services.appstudio.openshift.io''"

definition InternalRequestFinalizer :: string where
  [const_defs]: "InternalRequestFinalizer = internalRequestLabelPrefix @ ''/pipelinerun-cleanup''"

definition PipelineTypeRelease :: string where [const_defs]: "PipelineTypeRelease = ''release''"

definition InternalRequestNameLabel :: string where
  [const_defs]: "InternalRequestNameLabel = internalRequestLabelPrefix @ ''/'' @ ''name''"

definition InternalRequestNamespaceLabel :: string where
  [const_defs]: "InternalRequestNamespaceLabel = internalRequestLabelPrefix @ ''/'' @ ''namespace''"

text \<open>\<open>reflect.TypeOf(v1alpha1.InternalRequest{}).Name()\<close>\<close>

definition internalRequestKind :: string where [const_defs]: "internalRequestKind = ''InternalRequest''"

lemma labels_distinct [simp]:
  "InternalRequestNameLabel \<noteq> InternalRequestNamespaceLabel"
  "InternalRequestNamespaceLabel \<noteq> InternalRequestNameLabel"
  "InternalRequestNameLabel \<noteq> PipelinesTypeLabel" "PipelinesTypeLabel \<noteq> InternalRequestNameLabel"
  "InternalRequestNamespaceLabel \<noteq> PipelinesTypeLabel" "PipelinesTypeLabel \<noteq> InternalRequestNamespaceLabel"
  by (simp_all add: const_defs)

section \<open>The builder\<close>

definition NewInternalRequestPipelineRun :: "InternalServicesConfig \<Rightarrow> PipelineRun" where
  "NewInternalRequestPipelineRun cfg =
     zero_PipelineRun\<lparr>plr_ObjectMeta := zero_ObjectMeta
        \<lparr>om_GenerateName := ToLower internalRequestKind @ ''-'',
         om_Namespace := om_Namespace (cfg_ObjectMeta cfg)\<rparr>\<rparr>"

definition AsPipelineRun :: "PipelineRun \<Rightarrow> PipelineRun" where
  "AsPipelineRun i = i"

definition requestParam :: "string \<times> string \<Rightarrow> TektonParam" where
  "requestParam kv = \<lparr>tp_Name = fst kv, tp_Value = string_value (snd kv)\<rparr>"

definition requestLabels :: "InternalRequest \<Rightarrow> smap" where
  "requestLabels ir =
     fmupd PipelinesTypeLabel PipelineTypeRelease
       (fmupd InternalRequestNamespaceLabel (ir_Namespace ir)
         (fmupd InternalRequestNameLabel (ir_Name ir)
           (fmempty ++\<^sub>f om_Labels (ir_ObjectMeta ir))))"

definition WithInternalRequest :: "ext \<Rightarrow> InternalRequest \<Rightarrow> PipelineRun \<Rightarrow> PipelineRun" where
  "WithInternalRequest X ir i =
     (let spec = plr_Spec i;
          spec = spec\<lparr>prs_Params := prs_Params spec @ map requestParam (RangeOrder X (s_Params (ir_Spec ir)))\<rparr>;
          spec = (if s_Timeouts (ir_Spec ir) \<noteq> zero_TimeoutFields
                  then spec\<lparr>prs_Timeouts := Some (s_Timeouts (ir_Spec ir))\<rparr> else spec);
          spec = spec\<lparr>prs_ServiceAccountName := s_ServiceAccount (ir_Spec ir)\<rparr>
      in i\<lparr>plr_ObjectMeta := (plr_ObjectMeta i)\<lparr>om_Labels := requestLabels ir\<rparr>, plr_Spec := spec\<rparr>)"

text \<open>The error of \<open>SetOwnerAnnotations\<close> is discarded, as in the source.\<close>

definition WithOwner :: "ext \<Rightarrow> InternalRequest \<Rightarrow> PipelineRun \<Rightarrow> PipelineRun" where
  "WithOwner X ir i =
     i\<lparr>plr_ObjectMeta :=
         fst (SetOwnerAnnotations X (ir_TypeMeta ir) (ir_ObjectMeta ir) (plr_ObjectMeta i))\<rparr>"

text \<open>The workspace literal both \<open>WithPipeline\<close> and \<open>WithPipelineRef\<close> build.\<close>

definition claimWorkspace :: "ext \<Rightarrow> InternalServicesConfig \<Rightarrow> WorkspaceBinding go" where
  "claimWorkspace X cfg =
     (case MustParse X (vc_Size (Volume (cfg_Spec cfg))) of
        None \<Rightarrow> Panic ''cannot parse quantity''
      | Some q \<Rightarrow> Ret \<lparr>wb_Name = vc_Name (Volume (cfg_Spec cfg)),
                       wb_VolumeClaimTemplate = Some
                         \<lparr>pvc_AccessModes = [ReadWriteOnce],
                          pvc_Requests = fmupd ResourceStorage q fmempty\<rparr>\<rparr>)"

fun bindWorkspace ::
  "ext \<Rightarrow> InternalServicesConfig \<Rightarrow> string list \<Rightarrow> PipelineRun \<Rightarrow> PipelineRun go" where
  "bindWorkspace X cfg [] i = Ret i"
| "bindWorkspace X cfg (w # ws) i =
     (if w = vc_Name (Volume (cfg_Spec cfg))
      then (case claimWorkspace X cfg of
              Panic e \<Rightarrow> Panic e
            | Ret b \<Rightarrow> Ret (i\<lparr>plr_Spec := (plr_Spec i)\<lparr>prs_Workspaces := [b]\<rparr>\<rparr>))
      else bindWorkspace X cfg ws i)"

definition WithPipeline ::
  "ext \<Rightarrow> TektonPipeline \<Rightarrow> InternalServicesConfig \<Rightarrow> PipelineRun \<Rightarrow> PipelineRun go" where
  "WithPipeline X pipeline cfg i =
     bindWorkspace X cfg (tpl_Workspaces pipeline)
       (i\<lparr>plr_Spec := (plr_Spec i)\<lparr>prs_PipelineRef :=
            Some \<lparr>tpr_Name = om_Name (tpl_ObjectMeta pipeline), tpr_Resolver = [], tpr_Params = []\<rparr>\<rparr>\<rparr>)"

definition clusterParams :: "InternalRequest \<Rightarrow> TektonParam list" where
  "clusterParams ir =
     [\<lparr>tp_Name = ''namespace'', tp_Value = string_value (ir_Namespace ir)\<rparr>,
      \<lparr>tp_Name = ''kind'', tp_Value = string_value ''pipeline''\<rparr>]"

definition WithPipelineRef ::
  "ext \<Rightarrow> InternalRequest \<Rightarrow> InternalServicesConfig \<Rightarrow> PipelineRun \<Rightarrow> PipelineRun go" where
  "WithPipelineRef X ir cfg i =
     (case s_Pipeline (ir_Spec ir) of
        None \<Rightarrow> Panic ''nil pointer dereference''
      | Some p \<Rightarrow>
          let ref = ToTektonPipelineRef (pl_PipelineRef p);
              ref = (if tpr_Resolver ref = ''cluster''
                     then ref\<lparr>tpr_Params := tpr_Params ref @ clusterParams ir\<rparr> else ref)
          in (case claimWorkspace X cfg of
                Panic e \<Rightarrow> Panic e
              | Ret b \<Rightarrow> Ret (i\<lparr>plr_Spec := (plr_Spec i)\<lparr>prs_PipelineRef := Some ref,
                                                      prs_Workspaces := [b]\<rparr>\<rparr>)))"

text \<open>The chain of builder calls in \<open>createInternalRequestPipelineRun\<close>.\<close>

definition requestPipelineRun :: "ext \<Rightarrow> InternalServicesConfig \<Rightarrow> InternalRequest \<Rightarrow> PipelineRun go" where
  "requestPipelineRun X cfg ir =
     (case WithPipelineRef X ir cfg
             (WithOwner X ir (WithInternalRequest X ir (NewInternalRequestPipelineRun cfg))) of
        Panic e \<Rightarrow> Panic e
      | Ret i \<Rightarrow> Ret (AsPipelineRun i))"

section \<open>Results and event filters\<close>

definition resultStep :: "smap \<Rightarrow> PipelineRunResult \<Rightarrow> smap" where
  "resultStep results r =
     (if pv_Type (prr_Value r) = ParamTypeString
      then fmupd (prr_Name r) (pv_StringVal (prr_Value r)) results else results)"

definition GetResultsFromPipelineRun :: "PipelineRun \<Rightarrow> smap" where
  "GetResultsFromPipelineRun p = foldl resultStep fmempty (pst_Results (plr_Status p))"

text \<open>A \<open>client.Object\<close> is a PipelineRun or something else with metadata.\<close>

datatype Object = PipelineRunObject PipelineRun | OtherObject ObjectMeta

definition isInternalRequestsPipelineRun :: "ext \<Rightarrow> Object \<Rightarrow> bool" where
  "isInternalRequestsPipelineRun X obj =
     (case obj of
        OtherObject _ \<Rightarrow> False
      | PipelineRunObject p \<Rightarrow>
          (case fmlookup (om_Annotations (plr_ObjectMeta p)) (TypeAnnotation X) of
             Some ownerType \<Rightarrow> Contains ownerType internalRequestKind
           | None \<Rightarrow> False))"

definition hasPipelineSucceeded :: "ext \<Rightarrow> Object \<Rightarrow> Object \<Rightarrow> bool" where
  "hasPipelineSucceeded X objectOld objectNew =
     (case objectOld of
        PipelineRunObject oldPipelineRun \<Rightarrow>
          (case objectNew of
             PipelineRunObject newPipelineRun \<Rightarrow> \<not> IsDone X oldPipelineRun \<and> IsDone X newPipelineRun
           | OtherObject _ \<Rightarrow> False)
      | OtherObject _ \<Rightarrow> False)"

datatype 'o watch_event =
    CreateEvent 'o
  | UpdateEvent 'o 'o
  | DeleteEvent 'o
  | GenericEvent 'o

fun InternalRequestPipelineRunSucceededPredicate :: "ext \<Rightarrow> Object watch_event \<Rightarrow> bool" where
  "InternalRequestPipelineRunSucceededPredicate X (CreateEvent _) = False"
| "InternalRequestPipelineRunSucceededPredicate X (DeleteEvent _) = False"
| "InternalRequestPipelineRunSucceededPredicate X (GenericEvent _) = False"
| "InternalRequestPipelineRunSucceededPredicate X (UpdateEvent old new) =
     (isInternalRequestsPipelineRun X new \<and> hasPipelineSucceeded X old new)"

section \<open>Facts about the builder\<close>

lemma requestParam_sel [simp]:
  "tp_Name (requestParam kv) = fst kv" "tp_Value (requestParam kv) = string_value (snd kv)"
  by (simp_all add: requestParam_def)

lemma fmlookup_requestLabels:
  "fmlookup (requestLabels ir) k =
     (if k = PipelinesTypeLabel then Some PipelineTypeRelease
      else if k = InternalRequestNamespaceLabel then Some (ir_Namespace ir)
      else if k = InternalRequestNameLabel then Some (ir_Name ir)
      else fmlookup (om_Labels (ir_ObjectMeta ir)) k)"
  by (simp add: requestLabels_def)

lemma claimWorkspace_Ret:
  "claimWorkspace X cfg = Ret b \<Longrightarrow> wb_Name b = vc_Name (Volume (cfg_Spec cfg))"
  by (auto simp: claimWorkspace_def split: option.splits)

lemma panics_claimWorkspace:
  "panics (claimWorkspace X cfg) \<longleftrightarrow> MustParse X (vc_Size (Volume (cfg_Spec cfg))) = None"
  by (simp add: claimWorkspace_def split: option.splits)

lemma panics_requestPipelineRun:
  "panics (requestPipelineRun X cfg ir) \<longleftrightarrow>
     s_Pipeline (ir_Spec ir) = None \<or> MustParse X (vc_Size (Volume (cfg_Spec cfg))) = None"
  using panics_claimWorkspace[of X cfg]
  by (auto simp: requestPipelineRun_def WithPipelineRef_def Let_def split: option.splits go.splits)

text \<open>What a request's PipelineRun looks like, field by field.\<close>

lemma requestPipelineRun_spec:
  assumes "requestPipelineRun X cfg ir = Ret plr"
  obtains p b where "s_Pipeline (ir_Spec ir) = Some p"
    and "prs_PipelineRef (plr_Spec plr) = Some (let ref = ToTektonPipelineRef (pl_PipelineRef p) in
           if tpr_Resolver ref = ''cluster''
           then ref\<lparr>tpr_Params := tpr_Params ref @ clusterParams ir\<rparr> else ref)"
    and "prs_Params (plr_Spec plr) = map requestParam (RangeOrder X (s_Params (ir_Spec ir)))"
    and "prs_ServiceAccountName (plr_Spec plr) = s_ServiceAccount (ir_Spec ir)"
    and "prs_Status (plr_Spec plr) = []"
    and "prs_Timeouts (plr_Spec plr) =
           (if s_Timeouts (ir_Spec ir) = zero_TimeoutFields then None else Some (s_Timeouts (ir_Spec ir)))"
    and "prs_Workspaces (plr_Spec plr) = [b]" and "claimWorkspace X cfg = Ret b"
    and "plr_Status plr = plr_Status zero_PipelineRun"
    and "plr_ObjectMeta plr = fst (SetOwnerAnnotations X (ir_TypeMeta ir) (ir_ObjectMeta ir)
           (zero_ObjectMeta\<lparr>om_GenerateName := ToLower internalRequestKind @ ''-'',
              om_Namespace := om_Namespace (cfg_ObjectMeta cfg), om_Labels := requestLabels ir\<rparr>))"
  using assms
  by (auto simp: requestPipelineRun_def WithPipelineRef_def WithOwner_def WithInternalRequest_def
      NewInternalRequestPipelineRun_def AsPipelineRun_def zero_PipelineRun_def
      zero_PipelineRunSpec_def Let_def split: option.splits go.splits)

context owner_api
begin

lemma owner_meta [simp]:
  "om_Labels (fst (SetOwnerAnnotations X tm owner obj)) = om_Labels obj"
  "om_Namespace (fst (SetOwnerAnnotations X tm owner obj)) = om_Namespace obj"
  "om_GenerateName (fst (SetOwnerAnnotations X tm owner obj)) = om_GenerateName obj"
  "om_Name (fst (SetOwnerAnnotations X tm owner obj)) = om_Name obj"
  using only_annotations[of tm owner obj] by auto

lemma requestPipelineRun_meta:
  assumes "requestPipelineRun X cfg ir = Ret plr"
  shows "plr_Labels plr = requestLabels ir"
    and "plr_Namespace plr = om_Namespace (cfg_ObjectMeta cfg)"
    and "om_GenerateName (plr_ObjectMeta plr) = ToLower internalRequestKind @ ''-''"
  using assms by (auto elim!: requestPipelineRun_spec)

end

end
