(* ===== verification/Cluster.thy ===== *)
theory Cluster
  imports Pipeline_Run
begin

text \<open>
  The two API servers the operator talks to, seen through controller-runtime clients. The
  servers are a parameter of the model: a record of answer functions, each of which may
  depend on everything that was asked before, so that any behaviour of the servers, of
  other actors and of the network is some value of the parameter. Every call is recorded
  in the trace with its answer. A call that takes a pointer returns what the pointer holds
  after it, next to the error.
\<close>

section \<open>Calls and the trace\<close>

text \<open>The client of the remote cluster (\<open>a.client\<close>) and of the local one (\<open>a.internalClient\<close>).\<close>

datatype client = RemoteClient | LocalClient

datatype event =
    GetIR client string string "InternalRequest \<times> go_error option"
  | PatchIR client InternalRequest InternalRequest "InternalRequest \<times> go_error option"
  | PatchIRStatus client InternalRequest InternalRequest "InternalRequest \<times> go_error option"
  | GetConfig client string string "InternalServicesConfig \<times> go_error option"
  | GetTektonPipeline client string string "TektonPipeline \<times> go_error option"
  | GetPLR client string string "PipelineRun \<times> go_error option"
  | ListPLR client nat smap "PipelineRun list \<times> go_error option"
  | ListTR client string smap "TaskRun list \<times> go_error option"
  | CreatePLR client PipelineRun "PipelineRun \<times> go_error option"
  | PatchPLR client PipelineRun PipelineRun "PipelineRun \<times> go_error option"
  | DeletePLR client "PipelineRun option" "go_error option"

type_synonym trace = "event list"

text \<open>
  The answers, the clock read by \<open>time.Now()\<close> and the process environment. The two objects
  of a patch are the base given to \<open>client.MergeFrom\<close> and the modified object.
\<close>

record env =
  srv_GetIR :: "trace \<Rightarrow> client \<Rightarrow> string \<Rightarrow> string \<Rightarrow> InternalRequest \<times> go_error option"
  srv_PatchIR ::
    "trace \<Rightarrow> client \<Rightarrow> InternalRequest \<Rightarrow> InternalRequest \<Rightarrow> InternalRequest \<times> go_error option"
  srv_PatchIRStatus ::
    "trace \<Rightarrow> client \<Rightarrow> InternalRequest \<Rightarrow> InternalRequest \<Rightarrow> InternalRequest \<times> go_error option"
  srv_GetConfig :: "trace \<Rightarrow> client \<Rightarrow> string \<Rightarrow> string \<Rightarrow> InternalServicesConfig \<times> go_error option"
  srv_GetTektonPipeline :: "trace \<Rightarrow> client \<Rightarrow> string \<Rightarrow> string \<Rightarrow> TektonPipeline \<times> go_error option"
  srv_GetPLR :: "trace \<Rightarrow> client \<Rightarrow> string \<Rightarrow> string \<Rightarrow> PipelineRun \<times> go_error option"
  srv_ListPLR :: "trace \<Rightarrow> client \<Rightarrow> nat \<Rightarrow> smap \<Rightarrow> PipelineRun list \<times> go_error option"
  srv_ListTR :: "trace \<Rightarrow> client \<Rightarrow> string \<Rightarrow> smap \<Rightarrow> TaskRun list \<times> go_error option"
  srv_CreatePLR :: "trace \<Rightarrow> client \<Rightarrow> PipelineRun \<Rightarrow> PipelineRun \<times> go_error option"
  srv_PatchPLR :: "trace \<Rightarrow> client \<Rightarrow> PipelineRun \<Rightarrow> PipelineRun \<Rightarrow> PipelineRun \<times> go_error option"
  srv_DeletePLR :: "trace \<Rightarrow> client \<Rightarrow> PipelineRun option \<Rightarrow> go_error option"
  Now :: "trace \<Rightarrow> time"
  Getenv :: "string \<Rightarrow> string"

section \<open>Classifying calls\<close>

fun event_client :: "event \<Rightarrow> client" where
  "event_client (GetIR c _ _ _) = c"
| "event_client (PatchIR c _ _ _) = c"
| "event_client (PatchIRStatus c _ _ _) = c"
| "event_client (GetConfig c _ _ _) = c"
| "event_client (GetTektonPipeline c _ _ _) = c"
| "event_client (GetPLR c _ _ _) = c"
| "event_client (ListPLR c _ _ _) = c"
| "event_client (ListTR c _ _ _) = c"
| "event_client (CreatePLR c _ _) = c"
| "event_client (PatchPLR c _ _ _) = c"
| "event_client (DeletePLR c _ _) = c"

fun is_read :: "event \<Rightarrow> bool" where
  "is_read (GetIR _ _ _ _) = True"
| "is_read (GetConfig _ _ _ _) = True"
| "is_read (GetTektonPipeline _ _ _ _) = True"
| "is_read (GetPLR _ _ _ _) = True"
| "is_read (ListPLR _ _ _ _) = True"
| "is_read (ListTR _ _ _ _) = True"
| "is_read _ = False"

text \<open>Calls on InternalRequests; all others are on objects of the local cluster.\<close>

fun on_request :: "event \<Rightarrow> bool" where
  "on_request (GetIR _ _ _ _) = True"
| "on_request (PatchIR _ _ _ _) = True"
| "on_request (PatchIRStatus _ _ _ _) = True"
| "on_request _ = False"

fun creates_run :: "event \<Rightarrow> bool" where
  "creates_run (CreatePLR _ _ _) = True"
| "creates_run _ = False"

fun is_delete :: "event \<Rightarrow> bool" where
  "is_delete (DeletePLR _ _ _) = True"
| "is_delete _ = False"

fun patches_meta :: "event \<Rightarrow> bool" where
  "patches_meta (PatchIR _ _ _ _) = True"
| "patches_meta _ = False"

fun patches_status :: "event \<Rightarrow> bool" where
  "patches_status (PatchIRStatus _ _ _ _) = True"
| "patches_status _ = False"

fun patches_run :: "event \<Rightarrow> bool" where
  "patches_run (PatchPLR _ _ _ _) = True"
| "patches_run _ = False"

lemma read_not_write [simp]:
  "is_read e \<Longrightarrow> \<not> creates_run e" "is_read e \<Longrightarrow> \<not> is_delete e" "is_read e \<Longrightarrow> \<not> patches_meta e"
  "is_read e \<Longrightarrow> \<not> patches_status e" "is_read e \<Longrightarrow> \<not> patches_run e"
  by (cases e; simp)+

text \<open>The kinds of writes exclude each other.\<close>

lemma writes_disjoint:
  "patches_status e \<Longrightarrow> \<not> creates_run e" "patches_status e \<Longrightarrow> \<not> is_delete e"
  "patches_status e \<Longrightarrow> \<not> patches_meta e" "patches_status e \<Longrightarrow> \<not> patches_run e"
  "patches_meta e \<Longrightarrow> \<not> creates_run e" "patches_meta e \<Longrightarrow> \<not> is_delete e"
  "patches_meta e \<Longrightarrow> \<not> patches_status e" "patches_meta e \<Longrightarrow> \<not> patches_run e"
  "patches_run e \<Longrightarrow> \<not> creates_run e" "patches_run e \<Longrightarrow> \<not> is_delete e"
  "creates_run e \<Longrightarrow> \<not> is_delete e" "is_delete e \<Longrightarrow> \<not> creates_run e"
  by (cases e; simp)+

end
