(* ===== verification/Loader.thy ===== *)
theory Loader
  imports Cluster
begin

text \<open>
  \<open>loader/loader.go\<close>: the interface \<open>ObjectLoader\<close>, a table of methods, and the loader that
  reads from the cluster. The contract of the interface is the locale \<open>object_loader\<close>; the
  clients of the interface rely on nothing else about reads. A method returns its result
  and the trace after it.
\<close>

type_synonym 'a call = "trace \<Rightarrow> ('a \<times> go_error option) \<times> trace"

record ObjectLoader =
  ld_GetInternalRequest :: "client \<Rightarrow> string \<Rightarrow> string \<Rightarrow> InternalRequest call"
  ld_GetInternalRequestPipeline :: "client \<Rightarrow> string \<Rightarrow> string \<Rightarrow> TektonPipeline call"
  ld_GetInternalRequestPipelineRun :: "client \<Rightarrow> InternalRequest \<Rightarrow> PipelineRun option call"
  ld_GetInternalRequestPipelineRunTaskRuns :: "client \<Rightarrow> PipelineRun \<Rightarrow> TaskRun list call"
  ld_GetInternalServicesConfig :: "client \<Rightarrow> string \<Rightarrow> string \<Rightarrow> InternalServicesConfig call"

section \<open>The loader\<close>

definition GetInternalRequest :: "env \<Rightarrow> client \<Rightarrow> string \<Rightarrow> string \<Rightarrow> InternalRequest call" where
  "GetInternalRequest E cli name namespace h =
     (let r = srv_GetIR E h cli namespace name in (r, h @ [GetIR cli namespace name r]))"

definition GetInternalRequestPipeline :: "env \<Rightarrow> client \<Rightarrow> string \<Rightarrow> string \<Rightarrow> TektonPipeline call" where
  "GetInternalRequestPipeline E cli name namespace h =
     (let r = srv_GetTektonPipeline E h cli namespace name
      in (r, h @ [GetTektonPipeline cli namespace name r]))"

text \<open>The label selector of a request's PipelineRun.\<close>

definition requestSelector :: "InternalRequest \<Rightarrow> smap" where
  "requestSelector ir =
     fmupd InternalRequestNamespaceLabel (ir_Namespace ir)
       (fmupd InternalRequestNameLabel (ir_Name ir) fmempty)"

definition GetInternalRequestPipelineRun ::
  "env \<Rightarrow> client \<Rightarrow> InternalRequest \<Rightarrow> PipelineRun option call" where
  "GetInternalRequestPipelineRun E cli ir h =
     (let (items, err) = srv_ListPLR E h cli 1 (requestSelector ir);
          h' = h @ [ListPLR cli 1 (requestSelector ir) (items, err)]
      in (case (err, items) of
            (None, p # _) \<Rightarrow> ((Some p, None), h')
          | _ \<Rightarrow> ((None, err), h')))"

definition taskRunSelector :: "PipelineRun \<Rightarrow> smap" where
  "taskRunSelector p = fmupd ''tekton.dev/pipelineRun'' (plr_Name p) fmempty"

definition GetInternalRequestPipelineRunTaskRuns ::
  "env \<Rightarrow> client \<Rightarrow> PipelineRun \<Rightarrow> TaskRun list call" where
  "GetInternalRequestPipelineRunTaskRuns E cli p h =
     (let r = srv_ListTR E h cli (plr_Namespace p) (taskRunSelector p)
      in (r, h @ [ListTR cli (plr_Namespace p) (taskRunSelector p) r]))"

definition GetInternalServicesConfig ::
  "env \<Rightarrow> client \<Rightarrow> string \<Rightarrow> string \<Rightarrow> InternalServicesConfig call" where
  "GetInternalServicesConfig E cli name namespace h =
     (let r = srv_GetConfig E h cli namespace name in (r, h @ [GetConfig cli namespace name r]))"

definition NewLoader :: "env \<Rightarrow> ObjectLoader" where
  "NewLoader E =
     \<lparr>ld_GetInternalRequest = GetInternalRequest E,
      ld_GetInternalRequestPipeline = GetInternalRequestPipeline E,
      ld_GetInternalRequestPipelineRun = GetInternalRequestPipelineRun E,
      ld_GetInternalRequestPipelineRunTaskRuns = GetInternalRequestPipelineRunTaskRuns E,
      ld_GetInternalServicesConfig = GetInternalServicesConfig E\<rparr>"

lemmas loader_defs =
  GetInternalRequest_def GetInternalRequestPipeline_def GetInternalRequestPipelineRun_def
  GetInternalRequestPipelineRunTaskRuns_def GetInternalServicesConfig_def

lemma NewLoader_sel [simp]:
  "ld_GetInternalRequest (NewLoader E) = GetInternalRequest E"
  "ld_GetInternalRequestPipeline (NewLoader E) = GetInternalRequestPipeline E"
  "ld_GetInternalRequestPipelineRun (NewLoader E) = GetInternalRequestPipelineRun E"
  "ld_GetInternalRequestPipelineRunTaskRuns (NewLoader E) = GetInternalRequestPipelineRunTaskRuns E"
  "ld_GetInternalServicesConfig (NewLoader E) = GetInternalServicesConfig E"
  by (simp_all add: NewLoader_def)

section \<open>The contract of the interface\<close>

text \<open>
  A method only reads, only through the client it was given, and only objects of the kind
  it is named after.
\<close>

definition reads_through :: "client \<Rightarrow> bool \<Rightarrow> trace \<Rightarrow> trace \<Rightarrow> bool" where
  "reads_through cli req h h' \<longleftrightarrow>
     (\<exists>es. h' = h @ es \<and> (\<forall>e\<in>set es. is_read e \<and> event_client e = cli \<and> on_request e = req))"

lemma reads_through_single:
  "is_read e \<Longrightarrow> event_client e = cli \<Longrightarrow> on_request e = req \<Longrightarrow> reads_through cli req h (h @ [e])"
  by (simp add: reads_through_def)

locale object_loader =
  fixes L :: ObjectLoader
  assumes request_reads: "reads_through c True h (snd (ld_GetInternalRequest L c n ns h))"
    and pipeline_reads: "reads_through c False h (snd (ld_GetInternalRequestPipeline L c n ns h))"
    and run_reads: "reads_through c False h (snd (ld_GetInternalRequestPipelineRun L c ir h))"
    and taskruns_reads:
    "reads_through c False h (snd (ld_GetInternalRequestPipelineRunTaskRuns L c p h))"
    and config_reads: "reads_through c False h (snd (ld_GetInternalServicesConfig L c n ns h))"

interpretation cluster_loader: object_loader "NewLoader E" for E
  by unfold_locales
    (auto simp: loader_defs Let_def split: prod.splits option.splits list.splits
      intro!: reads_through_single)

section \<open>The run found for a request\<close>

text \<open>
  The lookup returns the first listed PipelineRun, nil when there is none, and an error only
  when listing failed.
\<close>

lemma GetInternalRequestPipelineRun_cases:
  obtains (found) p items where "GetInternalRequestPipelineRun E cli ir h =
      ((Some p, None), h @ [ListPLR cli 1 (requestSelector ir) (p # items, None)])"
  | (absent) "GetInternalRequestPipelineRun E cli ir h =
      ((None, None), h @ [ListPLR cli 1 (requestSelector ir) ([], None)])"
  | (failed) e items where "GetInternalRequestPipelineRun E cli ir h =
      ((None, Some e), h @ [ListPLR cli 1 (requestSelector ir) (items, Some e)])"
proof -
  obtain items err where r: "srv_ListPLR E h cli 1 (requestSelector ir) = (items, err)"
    by (cases "srv_ListPLR E h cli 1 (requestSelector ir)")
  note eq = GetInternalRequestPipelineRun_def Let_def r prod.case
  show thesis
  proof (cases err)
    case (Some e)
    then show thesis by (intro failed[of e items]) (simp only: eq option.case)
  next
    case None
    show thesis
    proof (cases items)
      case Nil
      with None show thesis by (intro absent) (simp only: eq option.case list.case)
    next
      case (Cons p ps)
      with None show thesis by (intro found[of p ps]) (simp only: eq option.case list.case)
    qed
  qed
qed

text \<open>\<open>client.MatchingLabels\<close>: every label of the selector is on the object.\<close>

definition selects :: "smap \<Rightarrow> smap \<Rightarrow> bool" where
  "selects sel labels \<longleftrightarrow> fmpred (\<lambda>k v. fmlookup labels k = Some v) sel"

lemma requestSelector_selects_iff:
  "selects (requestSelector ir) labels \<longleftrightarrow>
     fmlookup labels InternalRequestNameLabel = Some (ir_Name ir) \<and>
     fmlookup labels InternalRequestNamespaceLabel = Some (ir_Namespace ir)"
proof -
  have "selects (requestSelector ir) labels \<longleftrightarrow> (\<forall>k v.
      (if InternalRequestNamespaceLabel = k then Some (ir_Namespace ir)
       else if InternalRequestNameLabel = k then Some (ir_Name ir) else None) = Some v
      \<longrightarrow> fmlookup labels k = Some v)" (is "_ \<longleftrightarrow> (\<forall>k v. ?sel k = Some v \<longrightarrow> _)")
    by (simp only: selects_def requestSelector_def fmpred_iff fmupd_lookup fmempty_lookup)
  also have "\<dots> \<longleftrightarrow> fmlookup labels InternalRequestNameLabel = Some (ir_Name ir) \<and>
      fmlookup labels InternalRequestNamespaceLabel = Some (ir_Namespace ir)" (is "?all \<longleftrightarrow> ?two")
  proof
    assume ?all
    from this[rule_format, of InternalRequestNameLabel] this[rule_format, of InternalRequestNamespaceLabel]
    show ?two by simp
  next
    assume ?two
    then show ?all by (simp split: if_splits)
  qed
  finally show ?thesis .
qed

lemma requestSelector_selects: "selects (requestSelector ir) (requestLabels ir)"
  by (simp add: requestSelector_selects_iff fmlookup_requestLabels)

end
