(* ===== verification/Adapter.thy ===== *)
theory Adapter
  imports Loader
begin

text \<open>
  \<open>controllers/internalrequest/adapter.go\<close>: the adapter and its operations, one definition
  per method. The adapter's state is threaded through; an operation returns its result, or
  a panic, next to the adapter it leaves behind. Besides the fields of the source the state
  holds the trace of API calls and the metric goroutines started so far. Logging is left
  out; so are the context and the field \<open>internalRequestPipeline\<close>, which no method reads.
\<close>

record Adapter =
  a_client :: client
  a_internalClient :: client
  a_config :: "InternalServicesConfig option"
  a_request :: InternalRequest
  a_loader :: ObjectLoader
  a_trace :: trace
  a_spawned :: "metric_call list"

type_synonym 'a meth = "Adapter \<Rightarrow> 'a go \<times> Adapter"
type_synonym operation = "op_outcome meth"

definition NewAdapter :: "client \<Rightarrow> client \<Rightarrow> InternalRequest \<Rightarrow> ObjectLoader \<Rightarrow> trace \<Rightarrow> Adapter" where
  "NewAdapter cl internalCl ir L h =
     \<lparr>a_client = cl, a_internalClient = internalCl, a_config = None, a_request = ir,
      a_loader = L, a_trace = h, a_spawned = []\<rparr>"

section \<open>Calls on the clusters\<close>

text \<open>
  \<open>a.client.Patch\<close> and \<open>a.client.Status().Patch\<close> on the request, from the given base; the
  answer of the server replaces the request in memory.
\<close>

definition patchRequest :: "env \<Rightarrow> InternalRequest \<Rightarrow> Adapter \<Rightarrow> go_error option \<times> Adapter" where
  "patchRequest E base a =
     (let r = srv_PatchIR E (a_trace a) (a_client a) base (a_request a)
      in (snd r, a\<lparr>a_request := fst r,
                   a_trace := a_trace a @ [PatchIR (a_client a) base (a_request a) r]\<rparr>))"

definition patchRequestStatus :: "env \<Rightarrow> InternalRequest \<Rightarrow> Adapter \<Rightarrow> go_error option \<times> Adapter" where
  "patchRequestStatus E base a =
     (let r = srv_PatchIRStatus E (a_trace a) (a_client a) base (a_request a)
      in (snd r, a\<lparr>a_request := fst r,
                   a_trace := a_trace a @ [PatchIRStatus (a_client a) base (a_request a) r]\<rparr>))"

text \<open>A transition of the request in memory, with the goroutines it starts.\<close>

definition transition :: "InternalRequest \<times> metric_call list \<Rightarrow> Adapter \<Rightarrow> Adapter" where
  "transition t a = a\<lparr>a_request := fst t, a_spawned := a_spawned a @ snd t\<rparr>"

definition loadRun :: "Adapter \<Rightarrow> (PipelineRun option \<times> go_error option) \<times> Adapter" where
  "loadRun a =
     (let r = ld_GetInternalRequestPipelineRun (a_loader a) (a_internalClient a) (a_request a) (a_trace a)
      in (fst r, a\<lparr>a_trace := snd r\<rparr>))"

section \<open>Finalizers\<close>

definition EnsureFinalizerIsAdded :: "ext \<Rightarrow> env \<Rightarrow> operation" where
  "EnsureFinalizerIsAdded X E a =
     (let ir = a_request a; fs = om_Finalizers (ir_ObjectMeta ir) in
      if \<not> ContainsFinalizer X fs InternalRequestFinalizer
      then let ir' = ir\<lparr>ir_ObjectMeta := (ir_ObjectMeta ir)
                          \<lparr>om_Finalizers := AddFinalizer X fs InternalRequestFinalizer\<rparr>\<rparr>;
               (err, a') = patchRequest E ir (a\<lparr>a_request := ir'\<rparr>)
           in (Ret (RequeueOnErrorOrContinue X err), a')
      else (Ret (ContinueProcessing X), a))"

definition cancelPipelineRun :: "ext \<Rightarrow> env \<Rightarrow> PipelineRun option \<Rightarrow> Adapter \<Rightarrow> go_error option \<times> Adapter" where
  "cancelPipelineRun X E pipelineRun a =
     (case pipelineRun of
        None \<Rightarrow> (None, a)
      | Some p \<Rightarrow>
          if IsDone X p then (None, a)
          else let p' = p\<lparr>plr_Spec := (plr_Spec p)\<lparr>prs_Status := PipelineRunSpecStatusCancelled\<rparr>\<rparr>;
                   r = srv_PatchPLR E (a_trace a) (a_internalClient a) p p'
               in (snd r, a\<lparr>a_trace := a_trace a @ [PatchPLR (a_internalClient a) p p' r]\<rparr>))"

text \<open>The label-based fallback of \<open>finalizeInternalRequest\<close>.\<close>

definition finalizeByLabels :: "ext \<Rightarrow> env \<Rightarrow> Adapter \<Rightarrow> go_error option \<times> Adapter" where
  "finalizeByLabels X E a =
     (let ((pipelineRun, err), a1) = loadRun a in
      case err of
        Some e \<Rightarrow> (Some e, a1)
      | None \<Rightarrow> cancelPipelineRun X E pipelineRun a1)"

definition finalizeByRef :: "ext \<Rightarrow> env \<Rightarrow> string \<Rightarrow> string \<Rightarrow> Adapter \<Rightarrow> go_error option \<times> Adapter" where
  "finalizeByRef X E namespace name a =
     (let r = srv_GetPLR E (a_trace a) (a_internalClient a) namespace name;
          a1 = a\<lparr>a_trace := a_trace a @ [GetPLR (a_internalClient a) namespace name r]\<rparr>
      in case snd r of
           Some e \<Rightarrow> (if IsNotFound X e then None else Some e, a1)
         | None \<Rightarrow> cancelPipelineRun X E (Some (fst r)) a1)"

definition finalizeInternalRequest :: "ext \<Rightarrow> env \<Rightarrow> Adapter \<Rightarrow> go_error option \<times> Adapter" where
  "finalizeInternalRequest X E a =
     (let ref = PipelineRunRef (ir_Status (a_request a)) in
      if ref \<noteq> []
      then (case SplitN2 ref CHR ''/'' of
              [namespace, name] \<Rightarrow> finalizeByRef X E namespace name a
            | _ \<Rightarrow> finalizeByLabels X E a)
      else finalizeByLabels X E a)"

definition removeFinalizerPatch :: "ext \<Rightarrow> env \<Rightarrow> Adapter \<Rightarrow> go_error option \<times> Adapter" where
  "removeFinalizerPatch X E a =
     (let ir = a_request a; meta = ir_ObjectMeta ir;
          ir' = ir\<lparr>ir_ObjectMeta := meta
                   \<lparr>om_Finalizers := RemoveFinalizer X (om_Finalizers meta) InternalRequestFinalizer\<rparr>\<rparr>
      in patchRequest E ir (a\<lparr>a_request := ir'\<rparr>))"

definition EnsureFinalizersAreCalled :: "ext \<Rightarrow> env \<Rightarrow> operation" where
  "EnsureFinalizersAreCalled X E a =
     (let meta = ir_ObjectMeta (a_request a) in
      if om_DeletionTimestamp meta = None then (Ret (ContinueProcessing X), a)
      else if ContainsFinalizer X (om_Finalizers meta) InternalRequestFinalizer
      then let (err, a1) = finalizeInternalRequest X E a in
           (case err of
              Some e \<Rightarrow> (Ret (RequeueWithError X e), a1)
            | None \<Rightarrow>
                let a2 = a1\<lparr>a_spawned := a_spawned a1 @
                             RegisterDeletion X (Now E (a_trace a1)) (a_request a1)\<rparr>;
                    (err', a3) = removeFinalizerPatch X E a2
                in (case err' of
                      Some e \<Rightarrow> (Ret (RequeueWithError X e), a3)
                    | None \<Rightarrow> (Ret (RequeueNow X), a3)))
      else (Ret (RequeueNow X), a))"

section \<open>Configuration and admission\<close>

definition getDefaultInternalServicesConfig :: "string \<Rightarrow> InternalServicesConfig" where
  "getDefaultInternalServicesConfig namespace =
     \<lparr>cfg_ObjectMeta = zero_ObjectMeta\<lparr>om_Name := InternalServicesConfigResourceName,
                                      om_Namespace := namespace\<rparr>,
      cfg_Spec = zero_InternalServicesConfigSpec\<rparr>"

definition serviceNamespace :: "env \<Rightarrow> string" where
  "serviceNamespace E =
     (let namespace = Getenv E ''SERVICE_NAMESPACE'' in if namespace = [] then ''default'' else namespace)"

definition EnsureConfigIsLoaded :: "ext \<Rightarrow> env \<Rightarrow> operation" where
  "EnsureConfigIsLoaded X E a =
     (let namespace = serviceNamespace E;
          ((cfg, err), h) = ld_GetInternalServicesConfig (a_loader a) (a_internalClient a)
             InternalServicesConfigResourceName namespace (a_trace a);
          a1 = a\<lparr>a_config := Some cfg, a_trace := h\<rparr>
      in case err of
           None \<Rightarrow> (Ret (ContinueProcessing X), a1)
         | Some e \<Rightarrow>
             if \<not> IsNotFound X e then (Ret (RequeueWithError X e), a1)
             else (Ret (ContinueProcessing X),
                   a1\<lparr>a_config := Some (getDefaultInternalServicesConfig namespace)\<rparr>))"

text \<open>
  The rejection that ends each of the three checks: mark the request rejected and patch its
  status.
\<close>

definition reject :: "ext \<Rightarrow> env \<Rightarrow> string \<Rightarrow> operation" where
  "reject X E message a =
     (let ir = a_request a;
          (err, a') = patchRequestStatus E ir (transition (MarkRejected X message ir) a)
      in (Ret (RequeueOnErrorOrStop X err), a'))"

definition firstURL :: "Param list \<Rightarrow> string" where
  "firstURL ps = (case find (\<lambda>p. p_Name p = ''url'') ps of None \<Rightarrow> [] | Some p \<Rightarrow> p_Value p)"

definition ensureGitResolverURLIsAllowed :: "ext \<Rightarrow> env \<Rightarrow> InternalServicesConfig \<Rightarrow> operation" where
  "ensureGitResolverURLIsAllowed X E cfg a =
     (case s_Pipeline (ir_Spec (a_request a)) of
        None \<Rightarrow> (Panic ''nil pointer dereference'', a)
      | Some p \<Rightarrow>
          let ref = pl_PipelineRef p; allowedURLs = AllowedGitResolverURLs (cfg_Spec cfg) in
          if pr_Resolver ref \<noteq> ''git'' \<or> allowedURLs = [] then (Ret (ContinueProcessing X), a)
          else let url = firstURL (pr_Params ref) in
               if url \<in> set allowedURLs then (Ret (ContinueProcessing X), a)
               else reject X E (''the pipeline git resolver URL ('' @ url @
                      '') is not in the allowed list: '' @ format_slice allowedURLs) a)"

definition ensureServiceAccountIsAllowed :: "ext \<Rightarrow> env \<Rightarrow> InternalServicesConfig \<Rightarrow> operation" where
  "ensureServiceAccountIsAllowed X E cfg a =
     (let allowed = AllowedServiceAccounts (cfg_Spec cfg); sa = s_ServiceAccount (ir_Spec (a_request a)) in
      if allowed = [] \<or> sa = [] then (Ret (ContinueProcessing X), a)
      else if sa \<in> set allowed then (Ret (ContinueProcessing X), a)
      else reject X E (''the ServiceAccount ('' @ sa @ '') is not in the allowed list: '' @
             format_slice allowed) a)"

fun allowLoop :: "ext \<Rightarrow> env \<Rightarrow> InternalServicesConfig \<Rightarrow> string list \<Rightarrow> operation" where
  "allowLoop X E cfg [] a =
     reject X E (''the internal request namespace ('' @ ir_Namespace (a_request a) @
       '') is not in the allow list'') a"
| "allowLoop X E cfg (namespace # rest) a =
     (if namespace = ir_Namespace (a_request a)
      then andThen (ensureGitResolverURLIsAllowed X E cfg a)
             (\<lambda>r a1. if snd r \<noteq> None \<or> CancelRequest (fst r) \<or> RequeueRequest (fst r)
                      then (Ret r, a1)
                      else ensureServiceAccountIsAllowed X E cfg a1)
      else allowLoop X E cfg rest a)"

definition EnsureRequestIsAllowed :: "ext \<Rightarrow> env \<Rightarrow> operation" where
  "EnsureRequestIsAllowed X E a =
     (case a_config a of
        None \<Rightarrow> (Panic ''nil pointer dereference'', a)
      | Some cfg \<Rightarrow> allowLoop X E cfg (AllowList (cfg_Spec cfg)) a)"

definition EnsureRequestINotCompleted :: "ext \<Rightarrow> operation" where
  "EnsureRequestINotCompleted X a =
     (if HasCompleted X (a_request a) then (Ret (StopProcessing X), a)
      else (Ret (ContinueProcessing X), a))"

section \<open>The PipelineRun\<close>

definition createInternalRequestPipelineRun ::
  "ext \<Rightarrow> env \<Rightarrow> (PipelineRun option \<times> go_error option) meth" where
  "createInternalRequestPipelineRun X E a =
     (case a_config a of
        None \<Rightarrow> (Panic ''nil pointer dereference'', a)
      | Some cfg \<Rightarrow>
          (case requestPipelineRun X cfg (a_request a) of
             Panic e \<Rightarrow> (Panic e, a)
           | Ret plr \<Rightarrow>
               let r = srv_CreatePLR E (a_trace a) (a_internalClient a) plr;
                   a1 = a\<lparr>a_trace := a_trace a @ [CreatePLR (a_internalClient a) plr r]\<rparr>
               in (Ret (case snd r of Some e \<Rightarrow> (None, Some e) | None \<Rightarrow> (Some (fst r), None)), a1)))"

definition registerInternalRequestStatus ::
  "ext \<Rightarrow> env \<Rightarrow> PipelineRun option \<Rightarrow> Adapter \<Rightarrow> go_error option \<times> Adapter" where
  "registerInternalRequestStatus X E pipelineRun a =
     (case pipelineRun of
        None \<Rightarrow> (None, a)
      | Some _ \<Rightarrow>
          let ir = a_request a
          in patchRequestStatus E ir (transition (MarkRunning X (Now E (a_trace a)) ir) a))"

text \<open>An error other than \<open>NotFound\<close>, the guard after a load.\<close>

definition hardError :: "ext \<Rightarrow> go_error option \<Rightarrow> go_error option" where
  "hardError X err = (case err of None \<Rightarrow> None | Some e \<Rightarrow> if IsNotFound X e then None else Some e)"

definition EnsurePipelineRunIsCreated :: "ext \<Rightarrow> env \<Rightarrow> operation" where
  "EnsurePipelineRunIsCreated X E a =
     (let ((pipelineRun, err), a1) = loadRun a in
      case hardError X err of
        Some e \<Rightarrow> (Ret (RequeueWithError X e), a1)
      | None \<Rightarrow>
          if pipelineRun = None \<or> \<not> IsRunning X (a_request a1)
          then andThen
                 (if pipelineRun = None then createInternalRequestPipelineRun X E a1
                  else (Ret (pipelineRun, None), a1))
                 (\<lambda>(pipelineRun', err') a2.
                    case err' of
                      Some e \<Rightarrow> (Ret (RequeueWithError X e), a2)
                    | None \<Rightarrow>
                        let (err'', a3) = registerInternalRequestStatus X E pipelineRun' a2
                        in (Ret (RequeueOnErrorOrContinue X err''), a3))
          else (Ret (ContinueProcessing X), a1))"

definition EnsurePipelineRunIsDeleted :: "ext \<Rightarrow> env \<Rightarrow> operation" where
  "EnsurePipelineRunIsDeleted X E a =
     (if \<not> HasCompleted X (a_request a) then (Ret (ContinueProcessing X), a)
      else case a_config a of
        None \<Rightarrow> (Panic ''nil pointer dereference'', a)
      | Some cfg \<Rightarrow>
          if Debug (cfg_Spec cfg) then (Ret (ContinueProcessing X), a)
          else let ((pipelineRun, err), a1) = loadRun a in
               (case err of
                  Some e \<Rightarrow> (Ret (RequeueWithError X e), a1)
                | None \<Rightarrow>
                    let err' = srv_DeletePLR E (a_trace a1) (a_internalClient a1) pipelineRun
                    in (Ret (RequeueOnErrorOrContinue X err'),
                        a1\<lparr>a_trace := a_trace a1 @ [DeletePLR (a_internalClient a1) pipelineRun err']\<rparr>)))"

section \<open>Tracking the status\<close>

definition taskRunMessage :: "ext \<Rightarrow> TaskRun \<Rightarrow> string option" where
  "taskRunMessage X t =
     (let oc = GetCondition X (tr_Conditions t) ConditionSucceeded in
      case oc of
        None \<Rightarrow> None
      | Some c \<Rightarrow>
          if IsFalse X oc \<and> ac_Message c \<noteq> []
          then Some (om_Name (tr_ObjectMeta t) @ '' ('' @ ac_Reason c @ ''): '' @ ac_Message c)
          else None)"

definition truncateMessage :: "string \<Rightarrow> string" where
  "truncateMessage message =
     (if length message > 4096 then take 4081 message @ ''... (truncated)'' else message)"

definition failedTaskRunMessage :: "ext \<Rightarrow> PipelineRun \<Rightarrow> Adapter \<Rightarrow> string \<times> Adapter" where
  "failedTaskRunMessage X pipelineRun a =
     (let ((taskRuns, err), h) = ld_GetInternalRequestPipelineRunTaskRuns (a_loader a)
            (a_internalClient a) pipelineRun (a_trace a);
          a1 = a\<lparr>a_trace := h\<rparr>
      in if err \<noteq> None then ([], a1)
         else (truncateMessage (Join (List.map_filter (taskRunMessage X) taskRuns) ''; ''), a1))"

definition runReference :: "PipelineRun \<Rightarrow> string" where
  "runReference p = plr_Namespace p @ [Separator] @ plr_Name p"

text \<open>The part of \<open>registerInternalRequestPipelineRunStatus\<close> for a run that is done.\<close>

definition recordOutcome :: "ext \<Rightarrow> env \<Rightarrow> PipelineRun \<Rightarrow> unit meth" where
  "recordOutcome X E p a =
     (let oc = GetCondition X (plr_Conditions p) ConditionSucceeded in
      if IsTrue X oc
      then let ir = a_request a;
               ir' = ir\<lparr>ir_Status := (ir_Status ir)\<lparr>Results := GetResultsFromPipelineRun p\<rparr>\<rparr>
           in (Ret (), transition (MarkSucceeded X (Now E (a_trace a)) ir') a)
      else let (message, a1) = failedTaskRunMessage X p a in
           andThen (if message = []
                    then (case oc of None \<Rightarrow> (Panic ''nil pointer dereference'', a1)
                                   | Some c \<Rightarrow> (Ret (ac_Message c), a1))
                    else (Ret message, a1))
             (\<lambda>msg a2. (Ret (), transition (MarkFailed X (Now E (a_trace a2)) msg (a_request a2)) a2)))"

definition registerInternalRequestPipelineRunStatus ::
  "ext \<Rightarrow> env \<Rightarrow> PipelineRun option \<Rightarrow> go_error option meth" where
  "registerInternalRequestPipelineRunStatus X E pipelineRun a =
     (case pipelineRun of
        None \<Rightarrow> (Ret None, a)
      | Some p \<Rightarrow>
          let base = a_request a;
              a1 = a\<lparr>a_request := base\<lparr>ir_Status := (ir_Status base)\<lparr>PipelineRunRef := runReference p\<rparr>\<rparr>\<rparr>
          in andThen (if IsDone X p then recordOutcome X E p a1 else (Ret (), a1))
               (\<lambda>_ a2. let (err, a3) = patchRequestStatus E base a2 in (Ret err, a3)))"

definition EnsureStatusIsTracked :: "ext \<Rightarrow> env \<Rightarrow> operation" where
  "EnsureStatusIsTracked X E a =
     (let ((pipelineRun, err), a1) = loadRun a in
      case hardError X err of
        Some e \<Rightarrow> (Ret (RequeueWithError X e), a1)
      | None \<Rightarrow>
          if pipelineRun \<noteq> None
          then andThen (registerInternalRequestPipelineRunStatus X E pipelineRun a1)
                 (\<lambda>err' a2. (Ret (RequeueOnErrorOrContinue X err'), a2))
          else (Ret (ContinueProcessing X), a1))"

end
