(* ===== verification/Adapter_Contract.thy ===== *)
theory Adapter_Contract
  imports Adapter
begin

text \<open>
  The contract every operation of the adapter keeps: the clients and the loader stay the
  same, the trace and the started goroutines only grow, calls on InternalRequests go to the
  remote cluster and all others to the local one, and an operation makes only the kinds of
  calls it is meant to make. The contract is a locale, interpreted for each of the eight
  operations; Hoare-style specifications of operations are composed in \<open>Reconciler\<close>.
\<close>

section \<open>Growth of the trace\<close>

definition disciplined :: "Adapter \<Rightarrow> event \<Rightarrow> bool" where
  "disciplined a e \<longleftrightarrow> event_client e = (if on_request e then a_client a else a_internalClient a)"

definition grows :: "(event \<Rightarrow> bool) \<Rightarrow> Adapter \<Rightarrow> Adapter \<Rightarrow> bool" where
  "grows K a a' \<longleftrightarrow>
     a_client a' = a_client a \<and> a_internalClient a' = a_internalClient a \<and> a_loader a' = a_loader a \<and>
     (\<exists>es. a_trace a' = a_trace a @ es \<and> (\<forall>e\<in>set es. K e \<and> disciplined a e)) \<and>
     (\<exists>cs. a_spawned a' = a_spawned a @ cs)"

lemma grows_refl [simp, intro]: "grows K a a"
  by (simp add: grows_def)

lemma grows_trans: "grows K a b \<Longrightarrow> grows K b c \<Longrightarrow> grows K a c"
  by (force simp: grows_def disciplined_def)

lemma grows_mono: "grows K a b \<Longrightarrow> (\<And>e. K e \<Longrightarrow> K' e) \<Longrightarrow> grows K' a b"
  by (auto simp: grows_def)

lemma grows_filter:
  assumes "grows K a b" and "\<And>e. K e \<Longrightarrow> \<not> P e"
  shows "filter P (a_trace b) = filter P (a_trace a)"
proof -
  obtain es where es: "a_trace b = a_trace a @ es" "\<forall>e\<in>set es. K e"
    using assms(1) by (auto simp: grows_def)
  then have "filter P es = []" using assms(2) by (auto simp: filter_empty_conv)
  with es show ?thesis by simp
qed

lemma grows_loader: "grows K a b \<Longrightarrow> a_loader b = a_loader a"
  by (simp add: grows_def)

text \<open>The ways the methods change the adapter.\<close>

lemma grows_request [simp]: "grows K a (a\<lparr>a_request := ir\<rparr>)"
  by (simp add: grows_def)

lemma grows_config [simp]: "grows K a (a\<lparr>a_config := c\<rparr>)"
  by (simp add: grows_def)

lemma grows_spawned [simp]: "grows K a (a\<lparr>a_spawned := a_spawned a @ cs\<rparr>)"
  by (simp add: grows_def)

lemma grows_transition [simp]: "grows K a (transition t a)"
  by (simp add: grows_def transition_def)

text \<open>
  A load from the cluster appends reads of the local cluster; everything else about the
  adapter stays.
\<close>

definition local_reads :: "Adapter \<Rightarrow> trace \<Rightarrow> bool" where
  "local_reads a es \<longleftrightarrow>
     (\<forall>e\<in>set es. is_read e \<and> event_client e = a_internalClient a \<and> \<not> on_request e)"

lemma local_reads_disciplined: "local_reads a es \<Longrightarrow> e \<in> set es \<Longrightarrow> disciplined a e"
  by (simp add: local_reads_def disciplined_def)

lemma reads_throughE:
  assumes "reads_through (a_internalClient a) False (a_trace a) h"
  obtains es where "h = a_trace a @ es" and "local_reads a es"
  using assms by (auto simp: reads_through_def local_reads_def)

context object_loader
begin

lemma loadRun_reads:
  assumes "a_loader a = L"
  obtains p err es where "loadRun a = ((p, err), a\<lparr>a_trace := a_trace a @ es\<rparr>)" and "local_reads a es"
proof -
  obtain es where "snd (ld_GetInternalRequestPipelineRun (a_loader a) (a_internalClient a)
      (a_request a) (a_trace a)) = a_trace a @ es" and "local_reads a es"
    using run_reads assms by (metis reads_throughE)
  then show thesis
    by (intro that[of "fst (fst (loadRun a))" "snd (fst (loadRun a))" es]) (simp_all add: loadRun_def Let_def)
qed

lemma failedTaskRunMessage_reads:
  assumes "a_loader a = L"
  obtains msg es where "failedTaskRunMessage X p a = (msg, a\<lparr>a_trace := a_trace a @ es\<rparr>)"
    and "local_reads a es"
proof -
  let ?r = "ld_GetInternalRequestPipelineRunTaskRuns (a_loader a) (a_internalClient a) p (a_trace a)"
  obtain es where "snd ?r = a_trace a @ es" and "local_reads a es"
    using taskruns_reads assms by (metis reads_throughE)
  moreover obtain trs err where "fst ?r = (trs, err)" by (cases "fst ?r")
  ultimately have "?r = ((trs, err), a_trace a @ es)" by (metis prod.collapse)
  then show thesis
    using \<open>local_reads a es\<close>
    by (intro that[of "fst (failedTaskRunMessage X p a)" es])
      (auto simp: failedTaskRunMessage_def Let_def)
qed

lemma config_loadE:
  assumes "a_loader a = L"
  obtains cfg err es where "ld_GetInternalServicesConfig (a_loader a) (a_internalClient a) n ns (a_trace a)
      = ((cfg, err), a_trace a @ es)" and "local_reads a es"
proof -
  let ?r = "ld_GetInternalServicesConfig (a_loader a) (a_internalClient a) n ns (a_trace a)"
  obtain es where "snd ?r = a_trace a @ es" and "local_reads a es"
    using config_reads assms by (metis reads_throughE)
  moreover obtain cfg err where "fst ?r = (cfg, err)" by (cases "fst ?r")
  ultimately show thesis by (intro that[of cfg err es]) (metis prod.collapse, simp)
qed

end

section \<open>The contract\<close>

locale operation_contract =
  fixes op :: operation and K :: "event \<Rightarrow> bool"
  assumes op_grows: "object_loader (a_loader a) \<Longrightarrow> grows K a (snd (op a))"
begin

lemma keeps_calls:
  "object_loader (a_loader a) \<Longrightarrow> (\<And>e. K e \<Longrightarrow> \<not> P e) \<Longrightarrow>
     filter P (a_trace (snd (op a))) = filter P (a_trace a)"
  using op_grows by (rule grows_filter)

lemma op_loader: "object_loader (a_loader a) \<Longrightarrow> object_loader (a_loader (snd (op a)))"
  using op_grows grows_loader by metis

end

lemmas grow_defs = grows_def disciplined_def local_reads_def Let_def

interpretation request_not_completed: operation_contract "EnsureRequestINotCompleted X" "\<lambda>_. False" for X
  by unfold_locales (auto simp: EnsureRequestINotCompleted_def)

interpretation finalizer_added: operation_contract "EnsureFinalizerIsAdded X E" patches_meta for X E
  by unfold_locales (auto simp: EnsureFinalizerIsAdded_def patchRequest_def grow_defs)

lemma grows_reject: "grows patches_status a (snd (reject X E msg a))"
  by (auto simp: reject_def patchRequestStatus_def transition_def grow_defs)

lemma grows_url: "grows patches_status a (snd (ensureGitResolverURLIsAllowed X E cfg a))"
  by (auto simp: ensureGitResolverURLIsAllowed_def Let_def grows_reject split: option.splits)

lemma grows_account: "grows patches_status a (snd (ensureServiceAccountIsAllowed X E cfg a))"
  by (auto simp: ensureServiceAccountIsAllowed_def Let_def grows_reject)

lemma grows_allowLoop: "grows patches_status a (snd (allowLoop X E cfg ns a))"
proof (induction ns)
  case (Cons n ns)
  obtain r a1 where r: "ensureGitResolverURLIsAllowed X E cfg a = (r, a1)" by fastforce
  with grows_url[of a X E cfg] have "grows patches_status a a1" by simp
  with r Cons show ?case
    by (cases r) (auto intro: grows_trans grows_account)
qed (simp add: grows_reject)

interpretation request_allowed: operation_contract "EnsureRequestIsAllowed X E" patches_status for X E
  by unfold_locales (simp add: EnsureRequestIsAllowed_def grows_allowLoop split: option.splits)

interpretation config_loaded: operation_contract "EnsureConfigIsLoaded X E" is_read for X E
proof
  fix a :: Adapter assume "object_loader (a_loader a)"
  then obtain cfg err es where "ld_GetInternalServicesConfig (a_loader a) (a_internalClient a)
      InternalServicesConfigResourceName (serviceNamespace E) (a_trace a) = ((cfg, err), a_trace a @ es)"
    and "local_reads a es"
    by (rule object_loader.config_loadE) simp
  then show "grows is_read a (snd (EnsureConfigIsLoaded X E a))"
    by (auto simp: EnsureConfigIsLoaded_def grow_defs split: option.splits)
qed

text \<open>The operations on PipelineRuns start from a load of the run.\<close>

lemma grows_step:
  assumes "local_reads a es" and "\<And>e. is_read e \<Longrightarrow> K e"
    and "grows K (a\<lparr>a_trace := a_trace a @ es\<rparr>) b"
  shows "grows K a b"
proof (rule grows_trans[OF _ assms(3)])
  show "grows K a (a\<lparr>a_trace := a_trace a @ es\<rparr>)"
    using assms(1,2) by (auto simp: grow_defs)
qed

lemma grows_cancel: "grows (\<lambda>e. is_read e \<or> patches_run e) a (snd (cancelPipelineRun X E p a))"
  by (auto simp: cancelPipelineRun_def grow_defs split: option.splits)

lemma grows_finalize:
  assumes "object_loader (a_loader a)"
  shows "grows (\<lambda>e. is_read e \<or> patches_run e) a (snd (finalizeInternalRequest X E a))"
proof -
  let ?K = "\<lambda>e. is_read e \<or> patches_run e"
  obtain p err es where l: "loadRun a = ((p, err), a\<lparr>a_trace := a_trace a @ es\<rparr>)" "local_reads a es"
    using object_loader.loadRun_reads[OF assms] by blast
  have labels: "grows ?K a (snd (finalizeByLabels X E a))"
    unfolding finalizeByLabels_def l(1) Let_def
    by (cases err) (auto intro!: grows_step[OF l(2)] simp: grows_cancel)
  have "grows ?K a (snd (finalizeByRef X E ns n a))" for ns n
  proof -
    let ?es = "[GetPLR (a_internalClient a) ns n (srv_GetPLR E (a_trace a) (a_internalClient a) ns n)]"
    have "local_reads a ?es" by (simp add: local_reads_def)
    then show ?thesis
      by (rule grows_step) (auto simp: finalizeByRef_def Let_def grows_cancel split: option.splits)
  qed
  with labels show ?thesis
    by (auto simp: finalizeInternalRequest_def Let_def split: list.splits)
qed

interpretation finalizers_called: operation_contract "EnsureFinalizersAreCalled X E"
  "\<lambda>e. is_read e \<or> patches_run e \<or> patches_meta e" for X E
proof
  fix a :: Adapter assume l: "object_loader (a_loader a)"
  let ?K = "\<lambda>e. is_read e \<or> patches_run e \<or> patches_meta e"
  obtain err a1 where f: "finalizeInternalRequest X E a = (err, a1)" by fastforce
  with grows_finalize[OF l, of X E] have g: "grows ?K a a1"
    by (auto elim: grows_mono)
  have "grows ?K a1 (snd (removeFinalizerPatch X E (a1\<lparr>a_spawned := a_spawned a1 @ cs\<rparr>)))" for cs
    by (auto simp: removeFinalizerPatch_def patchRequest_def grow_defs)
  with g have "grows ?K a (snd (removeFinalizerPatch X E (a1\<lparr>a_spawned := a_spawned a1 @ cs\<rparr>)))" for cs
    by (blast intro: grows_trans)
  then show "grows ?K a (snd (EnsureFinalizersAreCalled X E a))"
    using f g by (auto simp: EnsureFinalizersAreCalled_def Let_def split: option.splits prod.splits)
      (metis snd_conv)+
qed

lemma grows_create:
  "grows creates_run a (snd (createInternalRequestPipelineRun X E a))"
  by (auto simp: createInternalRequestPipelineRun_def grow_defs split: option.splits go.splits)

lemma grows_register: "grows patches_status a (snd (registerInternalRequestStatus X E p a))"
  by (auto simp: registerInternalRequestStatus_def patchRequestStatus_def transition_def grow_defs
      split: option.splits)

interpretation run_created: operation_contract "EnsurePipelineRunIsCreated X E"
  "\<lambda>e. is_read e \<or> creates_run e \<or> patches_status e" for X E
proof
  fix a :: Adapter assume "object_loader (a_loader a)"
  let ?K = "\<lambda>e. is_read e \<or> creates_run e \<or> patches_status e"
  obtain p err es where l: "loadRun a = ((p, err), a\<lparr>a_trace := a_trace a @ es\<rparr>)" "local_reads a es"
    using object_loader.loadRun_reads[OF \<open>object_loader (a_loader a)\<close>] by blast
  let ?a1 = "a\<lparr>a_trace := a_trace a @ es\<rparr>"
  have reg: "grows ?K b (snd (registerInternalRequestStatus X E q b))" for q b
    using grows_register by (rule grows_mono) simp
  obtain r a2 where c: "createInternalRequestPipelineRun X E ?a1 = (r, a2)" by fastforce
  have "grows ?K ?a1 a2"
    using grows_create[of ?a1 X E] c by (auto elim: grows_mono)
  then have c2: "grows ?K ?a1 (snd (registerInternalRequestStatus X E q a2))" for q
    using reg by (blast intro: grows_trans)
  show "grows ?K a (snd (EnsurePipelineRunIsCreated X E a))"
  proof (rule grows_step[OF l(2)])
    show "grows ?K ?a1 (snd (EnsurePipelineRunIsCreated X E a))"
      using \<open>grows ?K ?a1 a2\<close> reg c2
      by (cases r) (auto simp: EnsurePipelineRunIsCreated_def l(1) c Let_def
          split: option.splits prod.splits if_splits; metis snd_conv)+
  qed simp
qed

interpretation run_deleted: operation_contract "EnsurePipelineRunIsDeleted X E"
  "\<lambda>e. is_read e \<or> is_delete e" for X E
proof
  fix a :: Adapter assume "object_loader (a_loader a)"
  then obtain p err es where "loadRun a = ((p, err), a\<lparr>a_trace := a_trace a @ es\<rparr>)" "local_reads a es"
    using object_loader.loadRun_reads by blast
  then show "grows (\<lambda>e. is_read e \<or> is_delete e) a (snd (EnsurePipelineRunIsDeleted X E a))"
    by (auto simp: EnsurePipelineRunIsDeleted_def grow_defs split: option.splits)
qed

lemma grows_recordOutcome:
  assumes "object_loader (a_loader a)"
  shows "grows is_read a (snd (recordOutcome X E p a))"
proof -
  obtain msg es where m: "failedTaskRunMessage X p a = (msg, a\<lparr>a_trace := a_trace a @ es\<rparr>)"
    and es: "local_reads a es"
    using object_loader.failedTaskRunMessage_reads[OF assms] by blast
  show ?thesis
  proof (cases "IsTrue X (GetCondition X (plr_Conditions p) ConditionSucceeded)")
    case True
    then show ?thesis by (simp add: recordOutcome_def Let_def)
  next
    case False
    show ?thesis
      by (rule grows_step[OF es])
        (use False m in \<open>auto simp: recordOutcome_def Let_def split: option.splits\<close>)
  qed
qed

lemma grows_patchStatus: "grows patches_status a (snd (patchRequestStatus E base a))"
  by (auto simp: patchRequestStatus_def grow_defs)

lemma grows_registerRun:
  assumes "object_loader (a_loader a)"
  shows "grows (\<lambda>e. is_read e \<or> patches_status e) a
    (snd (registerInternalRequestPipelineRunStatus X E p a))"
proof (cases p)
  case None
  then show ?thesis by (simp add: registerInternalRequestPipelineRunStatus_def)
next
  case (Some q)
  let ?K = "\<lambda>e. is_read e \<or> patches_status e"
  let ?a1 = "a\<lparr>a_request := (a_request a)\<lparr>ir_Status := (ir_Status (a_request a))
      \<lparr>PipelineRunRef := runReference q\<rparr>\<rparr>\<rparr>"
  have patch: "grows ?K b (snd (patchRequestStatus E base b))" for base b
    using grows_patchStatus by (rule grows_mono) simp
  obtain r a2 where r: "(if IsDone X q then recordOutcome X E q ?a1 else (Ret (), ?a1)) = (r, a2)"
    by fastforce
  have "grows ?K ?a1 a2"
    using grows_recordOutcome[of ?a1 X E q] assms r
    by (auto split: if_splits elim!: grows_mono)
  then have "grows ?K a a2" by (rule grows_trans[OF grows_request])
  then show ?thesis
    using r patch by (cases r)
      (auto simp: registerInternalRequestPipelineRunStatus_def Some Let_def split: prod.splits;
        metis grows_trans snd_conv)+
qed

interpretation status_tracked: operation_contract "EnsureStatusIsTracked X E"
  "\<lambda>e. is_read e \<or> patches_status e" for X E
proof
  fix a :: Adapter assume ol: "object_loader (a_loader a)"
  then obtain p err es where l: "loadRun a = ((p, err), a\<lparr>a_trace := a_trace a @ es\<rparr>)" "local_reads a es"
    using object_loader.loadRun_reads by blast
  let ?a1 = "a\<lparr>a_trace := a_trace a @ es\<rparr>"
  obtain r a2 where r: "registerInternalRequestPipelineRunStatus X E p ?a1 = (r, a2)" by fastforce
  have "grows (\<lambda>e. is_read e \<or> patches_status e) ?a1 a2"
    using grows_registerRun[of ?a1 X E p] ol r by simp
  then show "grows (\<lambda>e. is_read e \<or> patches_status e) a (snd (EnsureStatusIsTracked X E a))"
    by (intro grows_step[OF l(2)])
      (cases r; auto simp: EnsureStatusIsTracked_def l(1) r Let_def split: option.splits)+
qed

end
