(* ===== verification/Reconciler.thy ===== *)
theory Reconciler
  imports Adapter_Contract
begin

text \<open>
  \<open>controllers/internalrequest/controller.go\<close>: the reconcile loop over the adapter's
  operations and the filters on the events that trigger it. The loop itself,
  \<open>controller.ReconcileHandler\<close> of operator-toolkit, is a parameter with the locale
  \<open>reconcile_handler\<close> as its contract; inside the locale the loop gets a Hoare-style rule,
  from which the properties of a whole reconcile follow operation by operation.
\<close>

section \<open>The handler\<close>

type_synonym handler = "operation list \<Rightarrow> Adapter \<Rightarrow> (CtrlResult \<times> go_error option) go \<times> Adapter"

text \<open>The outcome of an operation lets the handler go on.\<close>

definition proceeds :: "op_outcome go \<times> Adapter \<Rightarrow> bool" where
  "proceeds p \<longleftrightarrow> (case fst p of Ret r \<Rightarrow> continues r | Panic _ \<Rightarrow> False)"

lemma proceeds_simps [simp]:
  "proceeds (Ret r, a) = continues r" "\<not> proceeds (Panic e, a)"
  by (simp_all add: proceeds_def)

text \<open>
  Operations run in order. Continue goes on with the next one; stop ends the reconcile;
  a requeue ends it and asks for another one; an error ends it and is returned.
\<close>

locale reconcile_handler =
  fixes RH :: handler
  assumes handle_nil: "RH [] a = (Ret (zero_CtrlResult, None), a)"
    and handle_continue: "proceeds (op a) \<Longrightarrow> RH (op # ops) a = RH ops (snd (op a))"
    and handle_panic: "fst (op a) = Panic pm \<Longrightarrow> RH (op # ops) a = (Panic pm, snd (op a))"
    and handle_stop:
    "fst (op a) = Ret r \<Longrightarrow> stops r \<Longrightarrow> RH (op # ops) a = (Ret (zero_CtrlResult, None), snd (op a))"
    and handle_requeue:
    "fst (op a) = Ret r \<Longrightarrow> requeues r \<Longrightarrow>
       RH (op # ops) a = (Ret (\<lparr>Requeue = True\<rparr>, None), snd (op a))"
    and handle_error:
    "fst (op a) = Ret r \<Longrightarrow> fails_with e r \<Longrightarrow>
       \<exists>cr. RH (op # ops) a = (Ret (cr, Some e), snd (op a))"

section \<open>Reconcile\<close>

record Reconciler =
  r_Client :: client
  r_InternalClient :: client

definition operations :: "ext \<Rightarrow> env \<Rightarrow> operation list" where
  "operations X E =
     [EnsureFinalizersAreCalled X E,
      EnsureFinalizerIsAdded X E,
      EnsureRequestINotCompleted X,
      EnsureConfigIsLoaded X E,
      EnsureRequestIsAllowed X E,
      EnsurePipelineRunIsCreated X E,
      EnsureStatusIsTracked X E,
      EnsurePipelineRunIsDeleted X E]"

text \<open>
  The result of a reconcile: what it returns, the trace after it, the goroutines it started.
\<close>

definition Reconcile ::
  "ext \<Rightarrow> env \<Rightarrow> handler \<Rightarrow> Reconciler \<Rightarrow> string \<Rightarrow> string \<Rightarrow> trace \<Rightarrow>
     (CtrlResult \<times> go_error option) go \<times> trace \<times> metric_call list" where
  "Reconcile X E RH r namespace name h =
     (let (ir, err) = srv_GetIR E h (r_Client r) namespace name;
          h' = h @ [GetIR (r_Client r) namespace name (ir, err)]
      in case err of
           Some e \<Rightarrow>
             (if IsNotFound X e then (Ret (zero_CtrlResult, None), h', [])
              else (Ret (zero_CtrlResult, Some e), h', []))
         | None \<Rightarrow>
             (let adapter = NewAdapter (r_Client r) (r_InternalClient r) ir (NewLoader E) h';
                  (res, a) = RH (operations X E) adapter
              in (res, a_trace a, a_spawned a)))"

text \<open>\<open>Register\<close> wires the reconciler to the remote cluster's client and the manager's.\<close>

definition registered :: Reconciler where
  "registered = \<lparr>r_Client = RemoteClient, r_InternalClient = LocalClient\<rparr>"

text \<open>
  The filters \<open>Register\<close> puts on events. InternalRequests of the local cluster are ignored
  (\<open>IgnoreAllPredicate\<close>); those of the remote cluster pass on creation, and on an update
  that changes the generation or marks the request for deletion.
\<close>

fun remoteRequestFilter :: "InternalRequest watch_event \<Rightarrow> bool" where
  "remoteRequestFilter (CreateEvent _) = True"
| "remoteRequestFilter (UpdateEvent old new) =
     (om_Generation (ir_ObjectMeta new) \<noteq> om_Generation (ir_ObjectMeta old) \<or>
      (om_DeletionTimestamp (ir_ObjectMeta new) \<noteq> None \<and> om_DeletionTimestamp (ir_ObjectMeta old) = None))"
| "remoteRequestFilter (DeleteEvent _) = False"
| "remoteRequestFilter (GenericEvent _) = False"

section \<open>A rule for the loop\<close>

text \<open>
  \<open>spec I op J Q\<close>: from \<open>I\<close> the operation either goes on in \<open>J\<close> or ends the reconcile
  in \<open>Q\<close>, whose first argument says whether it panicked.
\<close>

definition spec :: "(Adapter \<Rightarrow> bool) \<Rightarrow> operation \<Rightarrow> (Adapter \<Rightarrow> bool) \<Rightarrow> (bool \<Rightarrow> Adapter \<Rightarrow> bool) \<Rightarrow> bool" where
  "spec I op J Q \<longleftrightarrow>
     (\<forall>a. I a \<longrightarrow> (if proceeds (op a) then J (snd (op a)) else Q (panics (fst (op a))) (snd (op a))))"

lemma specI:
  assumes "\<And>a. I a \<Longrightarrow> proceeds (op a) \<Longrightarrow> J (snd (op a))"
    and "\<And>a. I a \<Longrightarrow> \<not> proceeds (op a) \<Longrightarrow> Q (panics (fst (op a))) (snd (op a))"
  shows "spec I op J Q"
  using assms by (simp add: spec_def)

lemma spec_invariant:
  assumes "\<And>a. I a \<Longrightarrow> I (snd (op a))" and "\<And>a b. I a \<Longrightarrow> Q b a"
  shows "spec I op I Q"
  using assms by (simp add: spec_def)

lemma spec_post:
  assumes "\<And>a. I a \<Longrightarrow> J (snd (op a))"
  shows "spec I op J (\<lambda>_. J)"
  using assms by (simp add: spec_def)

lemma spec_weaken:
  "spec I op J Q \<Longrightarrow> (\<And>a. I' a \<Longrightarrow> I a) \<Longrightarrow> (\<And>a. J a \<Longrightarrow> J' a) \<Longrightarrow>
     (\<And>b a. Q b a \<Longrightarrow> Q' b a) \<Longrightarrow> spec I' op J' Q'"
  by (auto simp: spec_def)

context reconcile_handler
begin

lemma handle_cases:
  "panics (fst (RH (op # ops) a)) =
     (if proceeds (op a) then panics (fst (RH ops (snd (op a)))) else panics (fst (op a)))"
  "snd (RH (op # ops) a) = (if proceeds (op a) then snd (RH ops (snd (op a))) else snd (op a))"
proof -
  have "panics (fst (RH (op # ops) a)) = panics (fst (op a)) \<and> snd (RH (op # ops) a) = snd (op a)"
    if np: "\<not> proceeds (op a)"
  proof (cases "fst (op a)")
    case (Panic e)
    then show ?thesis by (simp add: handle_panic)
  next
    case (Ret r)
    with np have "\<not> continues r" by (simp add: proceeds_def)
    then consider "stops r" | "requeues r" | e where "fails_with e r"
      by (cases "snd r") (auto simp: outcome_defs)
    then show ?thesis
    proof cases
      case 1
      with Ret show ?thesis by (simp add: handle_stop)
    next
      case 2
      with Ret show ?thesis by (simp add: handle_requeue)
    next
      case 3
      with Ret handle_error[of op a r e ops] show ?thesis by auto
    qed
  qed
  then show "panics (fst (RH (op # ops) a)) =
     (if proceeds (op a) then panics (fst (RH ops (snd (op a)))) else panics (fst (op a)))"
    "snd (RH (op # ops) a) = (if proceeds (op a) then snd (RH ops (snd (op a))) else snd (op a))"
    by (simp_all add: handle_continue)
qed

lemma loop_nil: "I a \<Longrightarrow> (\<And>a. I a \<Longrightarrow> Q False a) \<Longrightarrow> Q (panics (fst (RH [] a))) (snd (RH [] a))"
  by (simp add: handle_nil)

lemma loop_cons:
  assumes "I a" and "spec I op J Q"
    and "\<And>b. J b \<Longrightarrow> Q (panics (fst (RH ops b))) (snd (RH ops b))"
  shows "Q (panics (fst (RH (op # ops) a))) (snd (RH (op # ops) a))"
  using assms by (auto simp: handle_cases spec_def)

text \<open>The eight operations of a reconcile, each with its specification.\<close>

lemma reconcile_rule:
  assumes "spec I0 (EnsureFinalizersAreCalled X E) I1 Q"
    and "spec I1 (EnsureFinalizerIsAdded X E) I2 Q"
    and "spec I2 (EnsureRequestINotCompleted X) I3 Q"
    and "spec I3 (EnsureConfigIsLoaded X E) I4 Q"
    and "spec I4 (EnsureRequestIsAllowed X E) I5 Q"
    and "spec I5 (EnsurePipelineRunIsCreated X E) I6 Q"
    and "spec I6 (EnsureStatusIsTracked X E) I7 Q"
    and "spec I7 (EnsurePipelineRunIsDeleted X E) I8 Q"
    and "\<And>a. I8 a \<Longrightarrow> Q False a" and "I0 a"
  shows "Q (panics (fst (RH (operations X E) a))) (snd (RH (operations X E) a))"
  unfolding operations_def
  by (rule loop_cons[OF assms(10,1)], rule loop_cons[OF _ assms(2)], assumption,
      rule loop_cons[OF _ assms(3)], assumption, rule loop_cons[OF _ assms(4)], assumption,
      rule loop_cons[OF _ assms(5)], assumption, rule loop_cons[OF _ assms(6)], assumption,
      rule loop_cons[OF _ assms(7)], assumption, rule loop_cons[OF _ assms(8)], assumption,
      rule loop_nil, assumption, rule assms(9))

text \<open>A reconcile of a request that was read: the loop from the fresh adapter.\<close>

lemma Reconcile_loop:
  assumes "srv_GetIR E h (r_Client r) namespace name = (ir, None)"
  shows "Reconcile X E RH r namespace name h =
    (let p = RH (operations X E) (NewAdapter (r_Client r) (r_InternalClient r) ir (NewLoader E)
               (h @ [GetIR (r_Client r) namespace name (ir, None)]))
     in (fst p, a_trace (snd p), a_spawned (snd p)))"
  using assms by (simp add: Reconcile_def Let_def split: prod.splits)

lemma Reconcile_no_request:
  assumes "srv_GetIR E h (r_Client r) namespace name = (ir, Some e)"
  shows "Reconcile X E RH r namespace name h =
    (Ret (zero_CtrlResult, if IsNotFound X e then None else Some e),
     h @ [GetIR (r_Client r) namespace name (ir, Some e)], [])"
  using assms by (simp add: Reconcile_def Let_def)

end

end
