(* ===== verification/Reference.thy ===== *)
theory Reference
  imports Reconciler "HOL-Library.Char_ord" "HOL-Library.List_Lexorder"
begin

text \<open>
  Concrete values for the parameters of the model: third-party functions that behave as
  documented, a handler, a metrics registry and a pair of clusters that answer every call.
  Each contract is interpreted on them, so the laws the properties assume hold together,
  and the witnesses evaluate the operator on them.
\<close>

section \<open>Third-party functions\<close>

definition ref_set :: "Condition list \<Rightarrow> Condition \<Rightarrow> Condition list" where
  "ref_set cs new =
     (if \<exists>c\<in>set cs. c_Type c = c_Type new
      then map (\<lambda>c. if c_Type c = c_Type new then new else c) cs else cs @ [new])"

definition ref_range :: "smap \<Rightarrow> (string \<times> string) list" where
  "ref_range m = map (\<lambda>k. (k, the (fmlookup m k))) (sorted_list_of_fset (fmdom m))"

definition ref_digits :: "string \<Rightarrow> int" where
  "ref_digits s = foldl (\<lambda>n c. 10 * n + (of_char c - 48)) 0 s"

definition ref_unit :: "string \<Rightarrow> int" where
  "ref_unit u = (if u = ''Ki'' then 1024 else if u = ''Mi'' then 1024 ^ 2 else 1024 ^ 3)"

definition ref_parse :: "string \<Rightarrow> quantity option" where
  "ref_parse s =
     (if matches_size s
      then Some (Quantity (ref_digits (take (length s - 2) s) * ref_unit (drop (length s - 2) s)))
      else None)"

definition ref_owner_type :: "string \<Rightarrow> string \<Rightarrow> string" where
  "ref_owner_type kind grp = kind @ (if grp = [] then [] else CHR ''.'' # grp)"

definition ref_owner :: "TypeMeta \<Rightarrow> ObjectMeta \<Rightarrow> ObjectMeta \<Rightarrow> ObjectMeta \<times> go_error option" where
  "ref_owner tm owner obj =
     (if om_Name owner = [] \<or> tm_Kind tm = [] then (obj, Some (Error ''cannot set owner annotations''))
      else (obj\<lparr>om_Annotations :=
                 fmupd ''operator-sdk/primary-resource-type''
                   (ref_owner_type (tm_Kind tm) (takeWhile (\<lambda>c. c \<noteq> CHR ''/'') (tm_APIVersion tm)))
                   (fmupd ''operator-sdk/primary-resource'' (om_Namespace owner @ ''/'' @ om_Name owner)
                     (om_Annotations obj))\<rparr>, None))"

definition ref_condition :: "ApisCondition list \<Rightarrow> string \<Rightarrow> ApisCondition option" where
  "ref_condition cs t = find (\<lambda>c. ac_Type c = t) cs"

definition ref_done :: "PipelineRun \<Rightarrow> bool" where
  "ref_done p = (case ref_condition (plr_Conditions p) ConditionSucceeded of
     None \<Rightarrow> False | Some c \<Rightarrow> ac_Status c \<noteq> ConditionUnknown)"

definition ref_result :: "bool \<Rightarrow> bool \<Rightarrow> go_error option \<Rightarrow> op_outcome" where
  "ref_result cancel requeue err = (\<lparr>CancelRequest = cancel, RequeueRequest = requeue\<rparr>, err)"

definition ref_ext :: ext where
  "ref_ext =
     \<lparr>FindStatusCondition = (\<lambda>cs t. find (\<lambda>c. c_Type c = t) cs),
      IsStatusConditionTrue = (\<lambda>cs t. case find (\<lambda>c. c_Type c = t) cs of
         None \<Rightarrow> False | Some c \<Rightarrow> c_Status c = ConditionTrue),
      SetCondition = (\<lambda>cs t s r. ref_set cs \<lparr>c_Type = t, c_Status = s, c_Reason = r, c_Message = []\<rparr>),
      SetConditionWithMessage = (\<lambda>cs t s r m.
         ref_set cs \<lparr>c_Type = t, c_Status = s, c_Reason = r, c_Message = m\<rparr>),
      IsNotFound = (\<lambda>e. e = Error ''NotFound''),
      ContainsFinalizer = (\<lambda>fs f. f \<in> set fs),
      AddFinalizer = (\<lambda>fs f. if f \<in> set fs then fs else fs @ [f]),
      RemoveFinalizer = (\<lambda>fs f. filter (\<lambda>g. g \<noteq> f) fs),
      IsDone = ref_done,
      GetCondition = ref_condition,
      IsTrue = (\<lambda>oc. case oc of None \<Rightarrow> False | Some c \<Rightarrow> ac_Status c = ConditionTrue),
      IsFalse = (\<lambda>oc. case oc of None \<Rightarrow> False | Some c \<Rightarrow> ac_Status c = ConditionFalse),
      SetOwnerAnnotations = ref_owner,
      TypeAnnotation = ''operator-sdk/primary-resource-type'',
      MustParse = ref_parse,
      ContinueProcessing = ref_result False False None,
      StopProcessing = ref_result True False None,
      RequeueNow = ref_result False True None,
      RequeueWithError = (\<lambda>e. ref_result False True (Some e)),
      RequeueOnErrorOrContinue = (\<lambda>err. ref_result False (err \<noteq> None) err),
      RequeueOnErrorOrStop = (\<lambda>err. ref_result (err = None) (err \<noteq> None) err),
      RangeOrder = ref_range\<rparr>"

lemma find_map_same:
  "\<exists>c\<in>set cs. c_Type c = c_Type new \<Longrightarrow>
     find (\<lambda>c. c_Type c = c_Type new) (map (\<lambda>c. if c_Type c = c_Type new then new else c) cs) = Some new"
  by (induction cs) auto

lemma find_map_other:
  "t' \<noteq> c_Type new \<Longrightarrow>
     find (\<lambda>c. c_Type c = t') (map (\<lambda>c. if c_Type c = c_Type new then new else c) cs)
       = find (\<lambda>c. c_Type c = t') cs"
  by (induction cs) auto

lemma find_append_new:
  "\<not> (\<exists>c\<in>set cs. c_Type c = c_Type new) \<Longrightarrow>
     find (\<lambda>c. c_Type c = c_Type new) (cs @ [new]) = Some new"
  by (induction cs) auto

lemma find_append_other: "t' \<noteq> c_Type new \<Longrightarrow> find (\<lambda>c. c_Type c = t') (cs @ [new]) = find (\<lambda>c. c_Type c = t') cs"
  by (induction cs) auto

lemma find_ref_set [simp]: "find (\<lambda>c. c_Type c = c_Type new) (ref_set cs new) = Some new"
  using find_map_same[of cs new] find_append_new[of cs new] by (simp add: ref_set_def)

lemma find_ref_set_other [simp]:
  "t' \<noteq> c_Type new \<Longrightarrow> find (\<lambda>c. c_Type c = t') (ref_set cs new) = find (\<lambda>c. c_Type c = t') cs"
  by (simp add: ref_set_def find_map_other find_append_other)

interpretation ref: conditions_api ref_ext
proof
  fix cs t s r m
  show "FindStatusCondition ref_ext (SetConditionWithMessage ref_ext cs t s r m) t =
      Some \<lparr>c_Type = t, c_Status = s, c_Reason = r, c_Message = m\<rparr>"
    using find_ref_set[of "\<lparr>c_Type = t, c_Status = s, c_Reason = r, c_Message = m\<rparr>" cs]
    by (simp add: ref_ext_def)
  show "\<exists>m. FindStatusCondition ref_ext (SetCondition ref_ext cs t s r) t =
      Some \<lparr>c_Type = t, c_Status = s, c_Reason = r, c_Message = m\<rparr>"
    using find_ref_set[of "\<lparr>c_Type = t, c_Status = s, c_Reason = r, c_Message = []\<rparr>" cs]
    by (simp add: ref_ext_def)
qed (auto simp: ref_ext_def split: option.splits)

interpretation ref: finalizer_api ref_ext
  by unfold_locales (auto simp: ref_ext_def)

interpretation ref: results_api ref_ext
  by unfold_locales (simp_all add: ref_ext_def ref_result_def outcome_defs)

interpretation ref: tekton_api ref_ext
  by unfold_locales
    (auto simp: ref_ext_def ref_done_def ref_condition_def split: option.splits dest: find_Some_mem)

interpretation ref: owner_api ref_ext
proof
  fix tm owner and obj :: ObjectMeta
  show "\<exists>an. fst (SetOwnerAnnotations ref_ext tm owner obj) = obj\<lparr>om_Annotations := an\<rparr>"
    by (cases obj) (auto simp: ref_ext_def ref_owner_def)
qed (simp add: ref_ext_def ref_owner_def ref_owner_type_def)

interpretation ref: quantity_api ref_ext
  by unfold_locales (simp add: ref_ext_def ref_parse_def)

lemma fmlookup_ref_range: "map_of (map (\<lambda>k. (k, f k)) xs) k = (if k \<in> set xs then Some (f k) else None)"
  by (induction xs) auto

interpretation ref: range_api ref_ext
proof
  fix m :: smap
  show "distinct (map fst (RangeOrder ref_ext m))"
    by (simp add: ref_ext_def ref_range_def comp_def sorted_list_of_fset.rep_eq)
  show "fmap_of_list (RangeOrder ref_ext m) = m"
    by (rule fmap_ext)
      (auto simp: ref_ext_def ref_range_def fmlookup_of_list fmlookup_ref_range
        sorted_list_of_fset.rep_eq fmlookup_dom_iff fmdom_notI split: if_splits)
qed

section \<open>Handler and registry\<close>

fun ref_handler :: handler where
  "ref_handler [] a = (Ret (zero_CtrlResult, None), a)"
| "ref_handler (op # ops) a =
     (case op a of
        (Panic e, a') \<Rightarrow> (Panic e, a')
      | (Ret (res, err), a') \<Rightarrow>
          if err \<noteq> None \<or> RequeueRequest res then (Ret (\<lparr>Requeue = RequeueRequest res\<rparr>, err), a')
          else if CancelRequest res then (Ret (zero_CtrlResult, None), a')
          else ref_handler ops a')"

interpretation ref_loop: reconcile_handler ref_handler
  by unfold_locales
    (auto simp: proceeds_def outcome_defs split: prod.splits go.splits)

record Registry =
  reg_gauge :: int
  reg_counter :: "Labels \<Rightarrow> nat"
  reg_observed :: "Labels \<Rightarrow> real multiset"

definition ref_apply :: "prom_op \<Rightarrow> Registry \<Rightarrow> Registry" where
  "ref_apply x m =
     \<lparr>reg_gauge = reg_gauge m + op_gauge x,
      reg_counter = (\<lambda>l. reg_counter m l + op_count l x),
      reg_observed = (\<lambda>l. reg_observed m l + op_observed l x)\<rparr>"

interpretation ref_registry: prometheus_api ref_apply reg_gauge reg_counter reg_observed
  by unfold_locales (simp_all add: ref_apply_def)

section \<open>Clusters and objects\<close>

text \<open>
  Clusters that answer every read with fixed objects, accept every write and echo what was
  sent. The clock counts the calls.
\<close>

definition ref_env :: "InternalRequest \<Rightarrow> InternalServicesConfig \<Rightarrow> PipelineRun list \<Rightarrow> env" where
  "ref_env ir cfg runs =
     \<lparr>srv_GetIR = (\<lambda>_ _ _ _. (ir, None)),
      srv_PatchIR = (\<lambda>_ _ _ ir'. (ir', None)),
      srv_PatchIRStatus = (\<lambda>_ _ _ ir'. (ir', None)),
      srv_GetConfig = (\<lambda>_ _ _ _. (cfg, None)),
      srv_GetTektonPipeline = (\<lambda>_ _ ns n.
         (\<lparr>tpl_ObjectMeta = zero_ObjectMeta\<lparr>om_Name := n, om_Namespace := ns\<rparr>, tpl_Workspaces = []\<rparr>, None)),
      srv_GetPLR = (\<lambda>_ _ _ _. case runs of [] \<Rightarrow> (zero_PipelineRun, Some (Error ''NotFound''))
                                           | p # _ \<Rightarrow> (p, None)),
      srv_ListPLR = (\<lambda>_ _ _ _. (runs, None)),
      srv_ListTR = (\<lambda>_ _ _ _. ([], None)),
      srv_CreatePLR = (\<lambda>_ _ p. (p, None)),
      srv_PatchPLR = (\<lambda>_ _ _ p. (p, None)),
      srv_DeletePLR = (\<lambda>_ _ _. None),
      Now = (\<lambda>h. int (length h)),
      Getenv = (\<lambda>_. [])\<rparr>"

definition ref_pipeline :: ParameterizedPipeline where
  "ref_pipeline =
     \<lparr>pl_PipelineRef = \<lparr>pr_Resolver = ''git'',
        pr_Params = [\<lparr>p_Name = ''url'', p_Value = ''https://git/repo''\<rparr>]\<rparr>,
      pl_ServiceAccountName = [], pl_Timeouts = zero_TimeoutFields,
      pp_Params = [\<lparr>p_Name = ''pathInRepo'', p_Value = ''pipelines/sign.yaml''\<rparr>]\<rparr>"

text \<open>A request with the given finalizers, deletion time, conditions and start time.\<close>

definition ref_request ::
  "string list \<Rightarrow> time option \<Rightarrow> Condition list \<Rightarrow> time option \<Rightarrow> InternalRequest" where
  "ref_request fs del cs st =
     \<lparr>ir_TypeMeta = \<lparr>tm_Kind = internalRequestKind, tm_APIVersion = ''appstudio.redhat.com/v1alpha1''\<rparr>,
      ir_ObjectMeta = zero_ObjectMeta\<lparr>om_Name := ''sign'', om_Namespace := ''dev'', om_Finalizers := fs,
        om_DeletionTimestamp := del\<rparr>,
      ir_Spec = \<lparr>s_Pipeline = Some ref_pipeline, s_Params = fmupd ''image'' ''quay.io/app'' fmempty,
        s_Timeouts = zero_TimeoutFields, s_ServiceAccount = ''builder''\<rparr>,
      ir_Status = \<lparr>StartTime = st, CompletionTime = None, PipelineRunRef = [], Conditions = cs,
        Results = fmempty\<rparr>\<rparr>"

definition ref_cond :: "string \<Rightarrow> string \<Rightarrow> Condition" where
  "ref_cond status reason =
     \<lparr>c_Type = SucceededConditionType, c_Status = status, c_Reason = reason, c_Message = []\<rparr>"

definition ref_fresh :: InternalRequest where
  "ref_fresh = ref_request [] None [] None"

definition ref_running :: InternalRequest where
  "ref_running = ref_request [InternalRequestFinalizer] None [ref_cond ConditionFalse RunningReason] (Some 0)"

definition ref_deleting :: InternalRequest where
  "ref_deleting = ref_request [InternalRequestFinalizer] (Some 7) [ref_cond ConditionFalse RunningReason] (Some 0)"

definition ref_completed :: InternalRequest where
  "ref_completed = ref_request [InternalRequestFinalizer] None [ref_cond ConditionTrue SucceededReason] (Some 0)"

definition ref_config :: "string list \<Rightarrow> InternalServicesConfig" where
  "ref_config allow =
     \<lparr>cfg_ObjectMeta = zero_ObjectMeta\<lparr>om_Name := ''config'', om_Namespace := ''default''\<rparr>,
      cfg_Spec = \<lparr>AllowList = allow, AllowedGitResolverURLs = [''https://git/repo''],
        AllowedServiceAccounts = [''builder''], Debug = False,
        Volume = \<lparr>vc_Name = ''workspace'', vc_Size = ''1Gi''\<rparr>\<rparr>\<rparr>"

text \<open>A run with the given conditions and one string result.\<close>

definition ref_run :: "ApisCondition list \<Rightarrow> PipelineRun" where
  "ref_run cs =
     zero_PipelineRun\<lparr>plr_ObjectMeta := zero_ObjectMeta\<lparr>om_Name := ''internalrequest-x'',
        om_Namespace := ''default''\<rparr>,
      plr_Status := \<lparr>pst_Conditions = cs,
        pst_Results = [\<lparr>prr_Name = ''digest'', prr_Value = string_value ''sha256''\<rparr>]\<rparr>\<rparr>"

definition ref_run_cond :: "string \<Rightarrow> ApisCondition" where
  "ref_run_cond status =
     \<lparr>ac_Type = ConditionSucceeded, ac_Status = status, ac_Reason = ''r'', ac_Message = ''m''\<rparr>"

lemmas ref_defs =
  ref_env_def ref_pipeline_def ref_request_def ref_cond_def ref_fresh_def ref_running_def
  ref_deleting_def ref_completed_def ref_config_def ref_run_def ref_run_cond_def zero_ObjectMeta_def
  zero_PipelineRun_def

end
