(* ===== verification/Tracking.thy ===== *)
theory Tracking
  imports Reference
begin

text \<open>
  How the outcome of a PipelineRun reaches the status of its request: the failure message
  collected from the TaskRuns, the reference to the run, and the status patch of
  \<open>EnsureStatusIsTracked\<close> on every branch.
\<close>

section \<open>Lemmas\<close>

lemma truncateMessage_length: "length (truncateMessage m) = min 4096 (length m)"
  by (simp add: truncateMessage_def)

lemma truncateMessage_short: "length m \<le> 4096 \<Longrightarrow> truncateMessage m = m"
  by (simp add: truncateMessage_def)

lemma take_truncateMessage: "take 4081 (truncateMessage m) = take 4081 m"
  by (simp add: truncateMessage_def)

lemma Join_snoc: "xs \<noteq> [] \<Longrightarrow> Join (xs @ [x]) sep = Join xs sep @ sep @ x"
  by (induction xs sep rule: Join.induct) auto

lemma Join_nonempty: "xs \<noteq> [] \<Longrightarrow> \<forall>x\<in>set xs. x \<noteq> [] \<Longrightarrow> Join xs sep \<noteq> []"
  by (induction xs sep rule: Join.induct) auto

lemma Join_infix: "x \<in> set xs \<Longrightarrow> \<exists>b c. Join xs sep = b @ x @ c"
proof (induction xs sep rule: Join.induct)
  case (3 s t ts sep)
  show ?case
  proof (cases "x = s")
    case True
    then show ?thesis by (intro exI[of _ "[]"] exI[of _ "sep @ Join (t # ts) sep"]) simp
  next
    case False
    with 3 obtain b c where "Join (t # ts) sep = b @ x @ c" by auto
    then show ?thesis by (intro exI[of _ "s @ sep @ b"] exI[of _ c]) simp
  qed
next
  case (2 s sep)
  then show ?case by (intro exI[of _ "[]"]) simp
qed simp

text \<open>The messages collected from the TaskRuns.\<close>

definition taskMessages :: "ext \<Rightarrow> TaskRun list \<Rightarrow> string list" where
  "taskMessages X trs = List.map_filter (taskRunMessage X) trs"

context tekton_api
begin

lemma taskMessages_mem:
  "m \<in> set (taskMessages X trs) \<longleftrightarrow>
     (\<exists>t\<in>set trs. \<exists>c. GetCondition X (tr_Conditions t) ConditionSucceeded = Some c \<and>
        ac_Status c = ConditionFalse \<and> ac_Message c \<noteq> [] \<and>
        m = om_Name (tr_ObjectMeta t) @ '' ('' @ ac_Reason c @ ''): '' @ ac_Message c)"
  by (auto simp: taskMessages_def List.map_filter_def taskRunMessage_def false_iff Let_def image_iff
      split: option.splits)

end

lemma taskMessages_nonempty: "m \<in> set (taskMessages X trs) \<Longrightarrow> m \<noteq> []"
  by (auto simp: taskMessages_def List.map_filter_def taskRunMessage_def Let_def
      split: option.splits if_splits)

lemma failedTaskRunMessage_listed:
  "ld_GetInternalRequestPipelineRunTaskRuns (a_loader a) (a_internalClient a) p (a_trace a)
     = ((trs, err), h) \<Longrightarrow>
   failedTaskRunMessage X p a =
     (if err = None then truncateMessage (Join (taskMessages X trs) ''; '') else [], a\<lparr>a_trace := h\<rparr>)"
  by (simp add: failedTaskRunMessage_def taskMessages_def)

lemma truncate_empty_iff: "truncateMessage m = [] \<longleftrightarrow> m = []"
  by (auto simp: truncateMessage_def)

text \<open>
  The adapter with the tracked status in memory, just before the patch: the reference to the
  run is set, and the outcome of a run that is done recorded.
\<close>

definition tracked :: "ext \<Rightarrow> env \<Rightarrow> PipelineRun \<Rightarrow> Adapter \<Rightarrow> Adapter" where
  "tracked X E p a =
     (let a1 = a\<lparr>a_request := (a_request a)\<lparr>ir_Status := (ir_Status (a_request a))
                 \<lparr>PipelineRunRef := runReference p\<rparr>\<rparr>\<rparr>
      in if IsDone X p then snd (recordOutcome X E p a1) else a1)"

lemma HasCompleted_ref [simp]:
  "HasCompleted X (ir\<lparr>ir_Status := (ir_Status ir)\<lparr>PipelineRunRef := r\<rparr>\<rparr>) = HasCompleted X ir"
  "HasCompleted X (ir\<lparr>ir_Status := (ir_Status ir)\<lparr>PipelineRunRef := r, Results := m\<rparr>\<rparr>) = HasCompleted X ir"
  by (simp_all add: HasCompleted_def succeededCondition_def)

lemma IsRunning_ref [simp]:
  "IsRunning X (ir\<lparr>ir_Status := (ir_Status ir)\<lparr>PipelineRunRef := r\<rparr>\<rparr>) = IsRunning X ir"
  "IsRunning X (ir\<lparr>ir_Status := (ir_Status ir)\<lparr>PipelineRunRef := r, Results := m\<rparr>\<rparr>) = IsRunning X ir"
  by (simp_all add: IsRunning_def succeededCondition_def)

lemma transition_sel [simp]:
  "a_request (transition t a) = fst t" "a_spawned (transition t a) = a_spawned a @ snd t"
  "a_trace (transition t a) = a_trace a" "a_client (transition t a) = a_client a"
  "a_internalClient (transition t a) = a_internalClient a" "a_loader (transition t a) = a_loader a"
  "a_config (transition t a) = a_config a"
  by (simp_all add: transition_def)

context tekton_api
begin

text \<open>A run that is done but not true is false or worse, and has a condition: no nil dereference.\<close>

lemma recordOutcome_done:
  assumes "IsDone X p"
  shows "\<not> panics (fst (recordOutcome X E p a))"
  using assms done_iff[of p] by (auto simp: recordOutcome_def Let_def split: prod.splits)

lemma register_tracked:
  "registerInternalRequestPipelineRunStatus X E (Some p) a =
     (let (err, b) = patchRequestStatus E (a_request a) (tracked X E p a) in (Ret err, b))"
proof -
  let ?a1 = "a\<lparr>a_request := (a_request a)\<lparr>ir_Status := (ir_Status (a_request a))
                 \<lparr>PipelineRunRef := runReference p\<rparr>\<rparr>\<rparr>"
  show ?thesis
  proof (cases "IsDone X p")
    case True
    then obtain b where "recordOutcome X E p ?a1 = (Ret (), b)"
      using recordOutcome_done[of p E ?a1] by (cases "recordOutcome X E p ?a1") (auto simp: not_panics_iff)
    with True show ?thesis
      by (simp add: registerInternalRequestPipelineRunStatus_def tracked_def Let_def)
  qed (simp add: registerInternalRequestPipelineRunStatus_def tracked_def Let_def)
qed

lemma tracked_open:
  "\<not> IsDone X p \<Longrightarrow> tracked X E p a = a\<lparr>a_request := (a_request a)\<lparr>ir_Status :=
     (ir_Status (a_request a))\<lparr>PipelineRunRef := runReference p\<rparr>\<rparr>\<rparr>"
  by (simp add: tracked_def Let_def)

lemma tracked_succeeded:
  assumes "GetCondition X (plr_Conditions p) ConditionSucceeded = Some c" and "ac_Status c = ConditionTrue"
  shows "tracked X E p a = transition (MarkSucceeded X (Now E (a_trace a))
      ((a_request a)\<lparr>ir_Status := (ir_Status (a_request a))
        \<lparr>PipelineRunRef := runReference p, Results := GetResultsFromPipelineRun p\<rparr>\<rparr>)) a"
proof -
  have d: "IsDone X p" and t: "IsTrue X (GetCondition X (plr_Conditions p) ConditionSucceeded)"
    using assms by (simp_all add: done_iff true_iff)
  then show ?thesis by (simp add: tracked_def recordOutcome_def transition_def Let_def)
qed

lemma tracked_failed:
  assumes "GetCondition X (plr_Conditions p) ConditionSucceeded = Some c"
    and "ac_Status c \<noteq> ConditionTrue" and "ac_Status c \<noteq> ConditionUnknown"
    and "ld_GetInternalRequestPipelineRunTaskRuns (a_loader a) (a_internalClient a) p (a_trace a)
      = ((trs, err), h)"
  shows "tracked X E p a = (let m = fst (failedTaskRunMessage X p a) in
    transition (MarkFailed X (Now E h) (if m = [] then ac_Message c else m)
      ((a_request a)\<lparr>ir_Status := (ir_Status (a_request a))\<lparr>PipelineRunRef := runReference p\<rparr>\<rparr>))
      (a\<lparr>a_trace := h\<rparr>))"
proof -
  have d: "IsDone X p" and t: "\<not> IsTrue X (GetCondition X (plr_Conditions p) ConditionSucceeded)"
    using assms by (auto simp: done_iff true_iff)
  let ?a1 = "a\<lparr>a_request := (a_request a)\<lparr>ir_Status := (ir_Status (a_request a))
                 \<lparr>PipelineRunRef := runReference p\<rparr>\<rparr>\<rparr>"
  have "failedTaskRunMessage X p ?a1 = (fst (failedTaskRunMessage X p a), ?a1\<lparr>a_trace := h\<rparr>)"
    using failedTaskRunMessage_listed[of ?a1 p trs err h X] failedTaskRunMessage_listed[OF assms(4), of X]
      assms(4) by simp
  with d t assms(1) show ?thesis
    by (cases "fst (failedTaskRunMessage X p a) = []")
      (simp_all add: tracked_def recordOutcome_def transition_def Let_def)
qed

end

text \<open>What a status patch has to say about a run.\<close>

definition reports :: "ext \<Rightarrow> InternalRequest \<Rightarrow> PipelineRun \<Rightarrow> InternalRequest \<Rightarrow> bool" where
  "reports X ir p ir' \<longleftrightarrow>
     ir_Spec ir' = ir_Spec ir \<and> ir_ObjectMeta ir' = ir_ObjectMeta ir \<and>
     PipelineRunRef (ir_Status ir') = runReference p \<and>
     (case GetCondition X (plr_Conditions p) ConditionSucceeded of
        None \<Rightarrow> ir' = ir\<lparr>ir_Status := (ir_Status ir)\<lparr>PipelineRunRef := runReference p\<rparr>\<rparr>
      | Some c \<Rightarrow>
          if ac_Status c = ConditionUnknown
          then ir' = ir\<lparr>ir_Status := (ir_Status ir)\<lparr>PipelineRunRef := runReference p\<rparr>\<rparr>
          else ir_CompletionTime ir' \<noteq> None \<and>
               (if ac_Status c = ConditionTrue
                then HasSucceeded X ir' \<and> Results (ir_Status ir') = GetResultsFromPipelineRun p
                else HasFailed X ir' \<and> Results (ir_Status ir') = Results (ir_Status ir)))"

lemma mark_status_frame [simp]:
  "PipelineRunRef (ir_Status (fst (MarkSucceeded X now ir))) = PipelineRunRef (ir_Status ir)"
  "Results (ir_Status (fst (MarkSucceeded X now ir))) = Results (ir_Status ir)"
  "PipelineRunRef (ir_Status (fst (MarkFailed X now msg ir))) = PipelineRunRef (ir_Status ir)"
  "Results (ir_Status (fst (MarkFailed X now msg ir))) = Results (ir_Status ir)"
  by (simp_all add: mark_defs Let_def)

text \<open>The three cases of a run: still open, succeeded, failed.\<close>

lemma run_cases:
  assumes "tekton_api X"
  obtains (running_run) "\<not> IsDone X p"
      "case GetCondition X (plr_Conditions p) ConditionSucceeded of None \<Rightarrow> True
         | Some c \<Rightarrow> ac_Status c = ConditionUnknown"
  | (succeeded_run) c where "GetCondition X (plr_Conditions p) ConditionSucceeded = Some c"
      "ac_Status c = ConditionTrue"
  | (failed_run) c where "GetCondition X (plr_Conditions p) ConditionSucceeded = Some c"
      "ac_Status c \<noteq> ConditionTrue" "ac_Status c \<noteq> ConditionUnknown"
  using tekton_api.done_iff[OF assms, of p]
  by (cases "GetCondition X (plr_Conditions p) ConditionSucceeded") auto

lemma tracked_reports:
  assumes "conditions_api X" and "tekton_api X" and nc: "\<not> HasCompleted X (a_request a)"
  shows "reports X (a_request a) p (a_request (tracked X E p a))"
  using assms(2)
proof (cases rule: run_cases[where p = p])
  case running_run
  then show ?thesis
    by (auto simp: reports_def tekton_api.tracked_open[OF assms(2)] split: option.splits)
next
  case (succeeded_run c)
  then show ?thesis
    using nc conditions_api.after_succeeded[OF assms(1)]
    by (simp add: reports_def tekton_api.tracked_succeeded[OF assms(2) succeeded_run])
next
  case (failed_run c)
  obtain trs err h where "ld_GetInternalRequestPipelineRunTaskRuns (a_loader a) (a_internalClient a) p
      (a_trace a) = ((trs, err), h)" by (metis prod.collapse)
  then show ?thesis
    using nc failed_run conditions_api.after_failed[OF assms(1)]
    by (simp add: reports_def tekton_api.tracked_failed[OF assms(2) failed_run] Let_def)
qed

lemma tracked_frame:
  assumes "tekton_api X" and "object_loader (a_loader a)"
  shows "\<exists>es. a_trace (tracked X E p a) = a_trace a @ es \<and> local_reads a es"
    and "a_client (tracked X E p a) = a_client a"
proof -
  show "a_client (tracked X E p a) = a_client a"
    using grows_recordOutcome[of "a\<lparr>a_request := (a_request a)\<lparr>ir_Status := (ir_Status (a_request a))
        \<lparr>PipelineRunRef := runReference p\<rparr>\<rparr>\<rparr>" X E p] assms(2)
    by (simp add: tracked_def grows_def Let_def)
  show "\<exists>es. a_trace (tracked X E p a) = a_trace a @ es \<and> local_reads a es"
    using assms(1)
  proof (cases rule: run_cases[where p = p])
    case running_run
    then show ?thesis by (simp add: tekton_api.tracked_open[OF assms(1)] local_reads_def)
  next
    case (succeeded_run c)
    then show ?thesis
      by (simp add: tekton_api.tracked_succeeded[OF assms(1) succeeded_run] local_reads_def)
  next
    case (failed_run c)
    obtain trs err h where l: "ld_GetInternalRequestPipelineRunTaskRuns (a_loader a) (a_internalClient a) p
        (a_trace a) = ((trs, err), h)" by (metis prod.collapse)
    then obtain es where "h = a_trace a @ es" "local_reads a es"
      using object_loader.taskruns_reads[OF assms(2), of "a_internalClient a" "a_trace a" p]
      by (auto elim: reads_throughE)
    then show ?thesis
      using l by (simp add: tekton_api.tracked_failed[OF assms(1) failed_run] Let_def)
  qed
qed

section \<open>Properties\<close>

text \<open>
  C22: tracking. For a request that has not completed and a run found for it, the operation
  patches the status exactly once, on the remote cluster, and the patch reports the run: its
  reference; nothing more while the run is open; success with the run's results, or failure,
  each with a completion time, once it is done.
\<close>

theorem status_is_tracked:
  assumes "conditions_api X" and "tekton_api X" and "a_loader a = NewLoader E"
    and "\<not> HasCompleted X (a_request a)"
    and "srv_ListPLR E (a_trace a) (a_internalClient a) 1 (requestSelector (a_request a)) = (p # ps, None)"
  shows "\<exists>ir' res mid. reports X (a_request a) p ir' \<and> local_reads a mid \<and>
    fst (EnsureStatusIsTracked X E a) = Ret (RequeueOnErrorOrContinue X (snd res)) \<and>
    a_request (snd (EnsureStatusIsTracked X E a)) = fst res \<and>
    a_trace (snd (EnsureStatusIsTracked X E a)) =
      a_trace a @ mid @ [PatchIRStatus (a_client a) (a_request a) ir' res]"
proof -
  let ?ev = "ListPLR (a_internalClient a) 1 (requestSelector (a_request a)) (p # ps, None)"
  let ?b = "a\<lparr>a_trace := a_trace a @ [?ev]\<rparr>"
  let ?t = "tracked X E p ?b"
  let ?r = "srv_PatchIRStatus E (a_trace ?t) (a_client ?t) (a_request a) (a_request ?t)"
  have l: "loadRun a = ((Some p, None), ?b)"
    using assms(3,5) by (simp add: loadRun_def GetInternalRequestPipelineRun_def Let_def)
  have ol: "object_loader (a_loader ?b)" using assms(3) cluster_loader.object_loader_axioms by simp
  obtain es where es: "a_trace ?t = a_trace ?b @ es" "local_reads ?b es"
    using tracked_frame(1)[OF assms(2) ol] by blast
  have op: "EnsureStatusIsTracked X E a = (Ret (RequeueOnErrorOrContinue X (snd ?r)),
      ?t\<lparr>a_request := fst ?r, a_trace := a_trace ?t @ [PatchIRStatus (a_client ?t) (a_request a) (a_request ?t) ?r]\<rparr>)"
    by (simp add: EnsureStatusIsTracked_def l hardError_def tekton_api.register_tracked[OF assms(2)]
        patchRequestStatus_def Let_def)
  show ?thesis
  proof (intro exI conjI)
    show "reports X (a_request a) p (a_request ?t)"
      using tracked_reports[OF assms(1,2), of ?b p E] assms(4) by simp
    show "local_reads a (?ev # es)" using es(2) by (simp add: local_reads_def)
    show "fst (EnsureStatusIsTracked X E a) = Ret (RequeueOnErrorOrContinue X (snd ?r))"
      "a_request (snd (EnsureStatusIsTracked X E a)) = fst ?r" by (simp_all add: op)
    show "a_trace (snd (EnsureStatusIsTracked X E a)) =
      a_trace a @ (?ev # es) @ [PatchIRStatus (a_client a) (a_request a) (a_request ?t) ?r]"
      using es(1) tracked_frame(2)[OF assms(2) ol] by (simp add: op)
  qed
qed

text \<open>
  C32: the message reported for a failed run fits the limit of 4096 bytes. When it fits as it
  is, it holds the text of every failed TaskRun that has a message; otherwise it is cut and
  marked as cut. It is empty only when listing failed or no failed TaskRun has a message.
\<close>

theorem failure_message:
  assumes "tekton_api X"
    and "ld_GetInternalRequestPipelineRunTaskRuns (a_loader a) (a_internalClient a) p (a_trace a)
      = ((trs, err), h)"
  shows "length (fst (failedTaskRunMessage X p a)) \<le> 4096 \<and>
    (fst (failedTaskRunMessage X p a) = [] \<longleftrightarrow> err \<noteq> None \<or>
       \<not> (\<exists>t\<in>set trs. \<exists>c. GetCondition X (tr_Conditions t) ConditionSucceeded = Some c \<and>
            ac_Status c = ConditionFalse \<and> ac_Message c \<noteq> [])) \<and>
    (err = None \<and> length (fst (failedTaskRunMessage X p a)) < 4096 \<longrightarrow>
       (\<forall>t\<in>set trs. \<forall>c. GetCondition X (tr_Conditions t) ConditionSucceeded = Some c \<and>
          ac_Status c = ConditionFalse \<and> ac_Message c \<noteq> [] \<longrightarrow>
          Contains (fst (failedTaskRunMessage X p a))
            (om_Name (tr_ObjectMeta t) @ '' ('' @ ac_Reason c @ ''): '' @ ac_Message c)))"
proof -
  let ?ms = "taskMessages X trs" and ?m = "fst (failedTaskRunMessage X p a)"
  note mem = tekton_api.taskMessages_mem[OF assms(1)]
  have m: "?m = (if err = None then truncateMessage (Join ?ms ''; '') else [])"
    using failedTaskRunMessage_listed[OF assms(2)] by simp
  have len: "length ?m \<le> 4096" using m by (simp add: truncateMessage_length)
  have "Join ?ms ''; '' = [] \<longleftrightarrow> ?ms = []"
    using Join_nonempty[of ?ms] taskMessages_nonempty by fastforce
  also have "\<dots> \<longleftrightarrow> \<not> (\<exists>m. m \<in> set ?ms)" by (auto simp: neq_Nil_conv)
  also have "\<dots> \<longleftrightarrow> \<not> (\<exists>t\<in>set trs. \<exists>c. GetCondition X (tr_Conditions t) ConditionSucceeded = Some c \<and>
            ac_Status c = ConditionFalse \<and> ac_Message c \<noteq> [])"
    unfolding mem by blast
  finally have empty: "?m = [] \<longleftrightarrow> err \<noteq> None \<or> \<not> (\<exists>t\<in>set trs. \<exists>c.
      GetCondition X (tr_Conditions t) ConditionSucceeded = Some c \<and>
            ac_Status c = ConditionFalse \<and> ac_Message c \<noteq> [])"
    using m by (simp add: truncate_empty_iff)
  have "Contains ?m x" if "err = None" "length ?m < 4096" "x \<in> set ?ms" for x
  proof -
    have "?m = Join ?ms ''; ''"
      using m that truncateMessage_length[of "Join ?ms ''; ''"] by (simp add: truncateMessage_short)
    then show ?thesis using Join_infix[OF that(3), of "''; ''"] by (auto simp: Contains_iff)
  qed
  then show ?thesis using len empty unfolding mem by blast
qed

text \<open>
  C33: the reference to a run that the status holds leads back to that run: once the status of
  a request refers to a run, finalizing the request asks the local cluster for exactly the
  namespace and name of that run.
\<close>

theorem run_reference_roundtrip:
  assumes "matches_name (plr_Namespace p)"
    and "PipelineRunRef (ir_Status (a_request a)) = runReference p"
  shows "finalizeInternalRequest X E a = finalizeByRef X E (plr_Namespace p) (plr_Name p) a"
proof -
  have "runReference p = plr_Namespace p @ CHR ''/'' # plr_Name p"
    by (simp add: runReference_def Separator_def)
  then show ?thesis
    using assms SplitN2_sep[OF slash_not_name[OF assms(1)]]
    by (simp add: finalizeInternalRequest_def Let_def)
qed

end
