(* ===== verification/Admission.thy ===== *)
theory Admission
  imports Reference
begin

text \<open>
  Which requests are admitted. \<open>admits\<close> is the abstract specification of
  \<open>EnsureRequestIsAllowed\<close> and its two helpers; the operation is shown to implement it, and
  a whole reconcile is shown to create only PipelineRuns that an allow list read in that
  reconcile admits.
\<close>

section \<open>Specification\<close>

definition url_admitted :: "InternalServicesConfig \<Rightarrow> ParameterizedPipeline \<Rightarrow> bool" where
  "url_admitted cfg p \<longleftrightarrow>
     pr_Resolver (pl_PipelineRef p) = ''git'' \<longrightarrow> AllowedGitResolverURLs (cfg_Spec cfg) \<noteq> [] \<longrightarrow>
     firstURL (pr_Params (pl_PipelineRef p)) \<in> set (AllowedGitResolverURLs (cfg_Spec cfg))"

definition account_admitted :: "InternalServicesConfig \<Rightarrow> string \<Rightarrow> bool" where
  "account_admitted cfg sa \<longleftrightarrow>
     AllowedServiceAccounts (cfg_Spec cfg) \<noteq> [] \<longrightarrow> sa \<noteq> [] \<longrightarrow> sa \<in> set (AllowedServiceAccounts (cfg_Spec cfg))"

definition admits :: "InternalServicesConfig \<Rightarrow> InternalRequest \<Rightarrow> bool" where
  "admits cfg ir \<longleftrightarrow>
     ir_Namespace ir \<in> set (AllowList (cfg_Spec cfg)) \<and>
     (\<exists>p. s_Pipeline (ir_Spec ir) = Some p \<and> url_admitted cfg p) \<and>
     account_admitted cfg (s_ServiceAccount (ir_Spec ir))"

section \<open>The operation implements it\<close>

lemma allowLoop_member:
  "allowLoop X E cfg ns a =
     (if ir_Namespace (a_request a) \<in> set ns
      then andThen (ensureGitResolverURLIsAllowed X E cfg a)
             (\<lambda>r a1. if snd r \<noteq> None \<or> CancelRequest (fst r) \<or> RequeueRequest (fst r)
                      then (Ret r, a1) else ensureServiceAccountIsAllowed X E cfg a1)
      else reject X E (''the internal request namespace ('' @ ir_Namespace (a_request a) @
             '') is not in the allow list'') a)"
  by (induction ns) auto

lemma url_check:
  "s_Pipeline (ir_Spec (a_request a)) = Some p \<Longrightarrow> url_admitted cfg p \<Longrightarrow>
     ensureGitResolverURLIsAllowed X E cfg a = (Ret (ContinueProcessing X), a)"
  "s_Pipeline (ir_Spec (a_request a)) = Some p \<Longrightarrow> \<not> url_admitted cfg p \<Longrightarrow>
     \<exists>msg. ensureGitResolverURLIsAllowed X E cfg a = reject X E msg a"
  by (auto simp: ensureGitResolverURLIsAllowed_def url_admitted_def Let_def)

lemma account_check:
  "account_admitted cfg (s_ServiceAccount (ir_Spec (a_request a))) \<Longrightarrow>
     ensureServiceAccountIsAllowed X E cfg a = (Ret (ContinueProcessing X), a)"
  "\<not> account_admitted cfg (s_ServiceAccount (ir_Spec (a_request a))) \<Longrightarrow>
     \<exists>msg. ensureServiceAccountIsAllowed X E cfg a = reject X E msg a"
  by (auto simp: ensureServiceAccountIsAllowed_def account_admitted_def Let_def)

lemma reject_outcome:
  "\<exists>err ir'. reject X E msg a = (Ret (RequeueOnErrorOrStop X err),
     a\<lparr>a_request := ir', a_spawned := a_spawned a @ snd (MarkRejected X msg (a_request a)),
       a_trace := a_trace a @ [PatchIRStatus (a_client a) (a_request a)
                    (fst (MarkRejected X msg (a_request a))) (ir', err)]\<rparr>)"
proof -
  let ?r = "srv_PatchIRStatus E (a_trace a) (a_client a) (a_request a)
    (fst (MarkRejected X msg (a_request a)))"
  show ?thesis
    by (intro exI[of _ "snd ?r"] exI[of _ "fst ?r"])
      (cases a, simp add: reject_def patchRequestStatus_def transition_def Let_def)
qed

context results_api
begin

lemma continue_flags:
  "\<not> (snd r \<noteq> None \<or> CancelRequest (fst r) \<or> RequeueRequest (fst r)) \<longleftrightarrow> continues r"
  by (auto simp: continues_def)

lemma reject_not_proceeds: "\<not> proceeds (reject X E msg a)"
  by (simp add: reject_def Let_def not_continues_or_stop split: prod.splits)

lemma allowed_admitted:
  assumes "a_config a = Some cfg" and "admits cfg (a_request a)"
  shows "EnsureRequestIsAllowed X E a = (Ret (ContinueProcessing X), a)"
  using assms continue_continues
  by (auto simp: EnsureRequestIsAllowed_def admits_def allowLoop_member url_check account_check
      continues_def)

lemma allowed_rejected:
  assumes "a_config a = Some cfg" and "\<not> admits cfg (a_request a)"
    and "s_Pipeline (ir_Spec (a_request a)) = Some p"
  shows "\<exists>msg. EnsureRequestIsAllowed X E a = reject X E msg a"
proof (cases "ir_Namespace (a_request a) \<in> set (AllowList (cfg_Spec cfg))")
  case False
  with assms(1) show ?thesis by (auto simp: EnsureRequestIsAllowed_def allowLoop_member)
next
  case ns: True
  show ?thesis
  proof (cases "url_admitted cfg p")
    case True
    with assms ns have "\<not> account_admitted cfg (s_ServiceAccount (ir_Spec (a_request a)))"
      by (auto simp: admits_def)
    with assms ns True continue_continues show ?thesis
      using account_check(2)[of cfg a X E]
      by (auto simp: EnsureRequestIsAllowed_def allowLoop_member url_check(1) continues_def)
  next
    case False
    then obtain msg where r: "ensureGitResolverURLIsAllowed X E cfg a = reject X E msg a"
      using url_check(2)[OF assms(3)] by blast
    obtain out a1 where "reject X E msg a = (Ret out, a1)" and "\<not> continues out"
      using reject_outcome[of X E msg a] not_continues_or_stop by metis
    with r ns assms(1) show ?thesis
      by (auto simp: EnsureRequestIsAllowed_def allowLoop_member continues_def intro!: exI[of _ msg])
  qed
qed

lemma allowed_proceeds_admits:
  assumes "proceeds (EnsureRequestIsAllowed X E a)" and "a_config a = Some cfg"
  shows "admits cfg (a_request a) \<and> snd (EnsureRequestIsAllowed X E a) = a"
proof (cases "s_Pipeline (ir_Spec (a_request a))")
  case None
  with assms reject_not_proceeds show ?thesis
    by (auto simp: EnsureRequestIsAllowed_def allowLoop_member ensureGitResolverURLIsAllowed_def
        split: if_splits)
next
  case (Some p)
  then show ?thesis
    using assms allowed_admitted allowed_rejected reject_not_proceeds by (metis snd_conv)
qed

end

section \<open>Properties of the operation\<close>

text \<open>
  C18: the admission decision. An admitted request passes without any API call and without a
  change; any other request is marked rejected, with exactly one status patch that carries
  the rejection, and the reconcile goes no further.
\<close>

theorem admission_decision:
  assumes "results_api X" and "a_config a = Some cfg"
    and "s_Pipeline (ir_Spec (a_request a)) = Some p"
  shows "(admits cfg (a_request a) \<longrightarrow>
      EnsureRequestIsAllowed X E a = (Ret (ContinueProcessing X), a)) \<and>
    (\<not> admits cfg (a_request a) \<longrightarrow>
      (\<exists>msg err ir'. EnsureRequestIsAllowed X E a = (Ret (RequeueOnErrorOrStop X err),
         a\<lparr>a_request := ir', a_spawned := a_spawned a @ snd (MarkRejected X msg (a_request a)),
           a_trace := a_trace a @ [PatchIRStatus (a_client a) (a_request a)
              (fst (MarkRejected X msg (a_request a))) (ir', err)]\<rparr>)) \<and>
      \<not> proceeds (EnsureRequestIsAllowed X E a))"
proof (intro conjI impI)
  assume "admits cfg (a_request a)"
  then show "EnsureRequestIsAllowed X E a = (Ret (ContinueProcessing X), a)"
    by (rule results_api.allowed_admitted[OF assms(1,2)])
next
  assume no: "\<not> admits cfg (a_request a)"
  obtain msg where eq: "EnsureRequestIsAllowed X E a = reject X E msg a"
    using results_api.allowed_rejected[OF assms(1,2) no assms(3)] by blast
  show "\<exists>msg err ir'. EnsureRequestIsAllowed X E a = (Ret (RequeueOnErrorOrStop X err),
         a\<lparr>a_request := ir', a_spawned := a_spawned a @ snd (MarkRejected X msg (a_request a)),
           a_trace := a_trace a @ [PatchIRStatus (a_client a) (a_request a)
              (fst (MarkRejected X msg (a_request a))) (ir', err)]\<rparr>)"
    unfolding eq using reject_outcome[of X E msg a] by blast
  show "\<not> proceeds (EnsureRequestIsAllowed X E a)"
    unfolding eq by (rule results_api.reject_not_proceeds[OF assms(1)])
qed

text \<open>
  Two corner cases: an empty allow list admits nothing, and a request that names no service
  account passes the service account check even when the list of allowed accounts is not
  empty.
\<close>

lemma empty_allow_list_denies:
  assumes "results_api X" and "a_config a = Some cfg" and "AllowList (cfg_Spec cfg) = []"
  shows "\<not> proceeds (EnsureRequestIsAllowed X E a)"
  using assms results_api.allowed_proceeds_admits[OF assms(1) _ assms(2), of E] by (auto simp: admits_def)

lemma unnamed_account_passes:
  assumes "s_ServiceAccount (ir_Spec (a_request a)) = []"
  shows "ensureServiceAccountIsAllowed X E cfg a = (Ret (ContinueProcessing X), a)"
  using assms by (simp add: ensureServiceAccountIsAllowed_def Let_def)

end
