(* ===== verification/Adapter_Frames.thy ===== *)
theory Adapter_Frames
  imports Tracking Admission
begin

text \<open>
  What each method of the adapter does to the request in memory, the configuration and the
  started goroutines, as opposed to the trace, which is the subject of \<open>Adapter_Contract\<close>.
  The facts are in the collection \<open>op_frame\<close>.
\<close>

section \<open>Methods that leave the request alone\<close>

lemma loadRun_frame [simp, op_frame]:
  "a_request (snd (loadRun a)) = a_request a" "a_config (snd (loadRun a)) = a_config a"
  "a_spawned (snd (loadRun a)) = a_spawned a" "a_loader (snd (loadRun a)) = a_loader a"
  "a_client (snd (loadRun a)) = a_client a" "a_internalClient (snd (loadRun a)) = a_internalClient a"
  by (simp_all add: loadRun_def Let_def)

lemma loadRun_kept:
  "loadRun a = (r, b) \<Longrightarrow> a_request b = a_request a \<and> a_config b = a_config a \<and>
     a_spawned b = a_spawned a \<and> a_loader b = a_loader a"
  using loadRun_frame[of a] by simp

lemma cancel_frame [simp, op_frame]:
  "a_request (snd (cancelPipelineRun X E p a)) = a_request a"
  "a_config (snd (cancelPipelineRun X E p a)) = a_config a"
  "a_spawned (snd (cancelPipelineRun X E p a)) = a_spawned a"
  "a_loader (snd (cancelPipelineRun X E p a)) = a_loader a"
  by (simp_all add: cancelPipelineRun_def Let_def split: option.splits)

lemma finalizeByLabels_frame [simp, op_frame]:
  "a_request (snd (finalizeByLabels X E a)) = a_request a"
  "a_config (snd (finalizeByLabels X E a)) = a_config a"
  "a_spawned (snd (finalizeByLabels X E a)) = a_spawned a"
  "a_loader (snd (finalizeByLabels X E a)) = a_loader a"
  by (auto simp: finalizeByLabels_def Let_def dest: loadRun_kept split: prod.splits option.splits)

lemma finalizeByRef_frame [simp, op_frame]:
  "a_request (snd (finalizeByRef X E ns n a)) = a_request a"
  "a_config (snd (finalizeByRef X E ns n a)) = a_config a"
  "a_spawned (snd (finalizeByRef X E ns n a)) = a_spawned a"
  "a_loader (snd (finalizeByRef X E ns n a)) = a_loader a"
  by (simp_all add: finalizeByRef_def Let_def split: option.splits)

lemma finalize_frame [simp, op_frame]:
  "a_request (snd (finalizeInternalRequest X E a)) = a_request a"
  "a_config (snd (finalizeInternalRequest X E a)) = a_config a"
  "a_spawned (snd (finalizeInternalRequest X E a)) = a_spawned a"
  "a_loader (snd (finalizeInternalRequest X E a)) = a_loader a"
  by (simp_all add: finalizeInternalRequest_def Let_def split: list.splits)

lemma create_frame [simp, op_frame]:
  "a_request (snd (createInternalRequestPipelineRun X E a)) = a_request a"
  "a_config (snd (createInternalRequestPipelineRun X E a)) = a_config a"
  "a_spawned (snd (createInternalRequestPipelineRun X E a)) = a_spawned a"
  "a_loader (snd (createInternalRequestPipelineRun X E a)) = a_loader a"
  by (simp_all add: createInternalRequestPipelineRun_def Let_def split: option.splits go.splits)

lemma config_frame [simp, op_frame]:
  "a_request (snd (EnsureConfigIsLoaded X E a)) = a_request a"
  "a_spawned (snd (EnsureConfigIsLoaded X E a)) = a_spawned a"
  "a_loader (snd (EnsureConfigIsLoaded X E a)) = a_loader a"
  by (simp_all add: EnsureConfigIsLoaded_def Let_def split: option.splits prod.splits)

lemma not_completed_frame [simp, op_frame]:
  "snd (EnsureRequestINotCompleted X a) = a"
  by (simp add: EnsureRequestINotCompleted_def)

lemma deleted_frame [simp, op_frame]:
  "a_request (snd (EnsurePipelineRunIsDeleted X E a)) = a_request a"
  "a_config (snd (EnsurePipelineRunIsDeleted X E a)) = a_config a"
  "a_spawned (snd (EnsurePipelineRunIsDeleted X E a)) = a_spawned a"
  "a_loader (snd (EnsurePipelineRunIsDeleted X E a)) = a_loader a"
  by (auto simp: EnsurePipelineRunIsDeleted_def Let_def dest: loadRun_kept split: option.splits prod.splits)

section \<open>Methods that patch\<close>

lemma patchStatus_frame [simp, op_frame]:
  "a_config (snd (patchRequestStatus E base a)) = a_config a"
  "a_spawned (snd (patchRequestStatus E base a)) = a_spawned a"
  "a_loader (snd (patchRequestStatus E base a)) = a_loader a"
  by (simp_all add: patchRequestStatus_def Let_def)

lemma patchRequest_frame [simp, op_frame]:
  "a_config (snd (patchRequest E base a)) = a_config a"
  "a_spawned (snd (patchRequest E base a)) = a_spawned a"
  "a_loader (snd (patchRequest E base a)) = a_loader a"
  by (simp_all add: patchRequest_def Let_def)

lemma register_frame [simp, op_frame]:
  "a_config (snd (registerInternalRequestStatus X E p a)) = a_config a"
  "a_loader (snd (registerInternalRequestStatus X E p a)) = a_loader a"
  by (simp_all add: registerInternalRequestStatus_def Let_def split: option.splits)

text \<open>The same facts for a call whose result is known.\<close>

lemma patch_kept:
  "patchRequestStatus E base a = (err, b) \<Longrightarrow>
     a_config b = a_config a \<and> a_spawned b = a_spawned a \<and> a_loader b = a_loader a"
  "registerInternalRequestStatus X E p a = (err, b) \<Longrightarrow> a_config b = a_config a \<and> a_loader b = a_loader a"
  using patchStatus_frame[of E base a] register_frame[of X E p a] by simp_all

lemma finalizerAdded_frame [simp, op_frame]:
  "a_config (snd (EnsureFinalizerIsAdded X E a)) = a_config a"
  "a_spawned (snd (EnsureFinalizerIsAdded X E a)) = a_spawned a"
  "a_loader (snd (EnsureFinalizerIsAdded X E a)) = a_loader a"
  by (simp_all add: EnsureFinalizerIsAdded_def patchRequest_def Let_def)

lemma tracked_config [simp, op_frame]:
  assumes "tekton_api X"
  shows "a_config (tracked X E p a) = a_config a" "a_loader (tracked X E p a) = a_loader a"
proof -
  obtain trs err h where l: "ld_GetInternalRequestPipelineRunTaskRuns (a_loader a) (a_internalClient a) p
      (a_trace a) = ((trs, err), h)" by (metis prod.collapse)
  from assms have "a_config (tracked X E p a) = a_config a \<and> a_loader (tracked X E p a) = a_loader a"
  proof (cases rule: run_cases[where p = p])
    case running_run
    then show ?thesis by (simp add: tekton_api.tracked_open[OF assms])
  next
    case (succeeded_run c)
    then show ?thesis by (simp add: tekton_api.tracked_succeeded[OF assms succeeded_run])
  next
    case (failed_run c)
    then show ?thesis by (simp add: tekton_api.tracked_failed[OF assms failed_run l] Let_def)
  qed
  then show "a_config (tracked X E p a) = a_config a" "a_loader (tracked X E p a) = a_loader a" by auto
qed

section \<open>The creating and the tracking operation, by cases\<close>

text \<open>A run is built and stored, or the builder panics, or the cluster refuses it.\<close>

lemma create_cases:
  obtains (panic) e c where "createInternalRequestPipelineRun X E b = (Panic e, c)"
      "case a_config b of None \<Rightarrow> True | Some cfg \<Rightarrow> panics (requestPipelineRun X cfg (a_request b))"
  | (refused) e c where "createInternalRequestPipelineRun X E b = (Ret (None, Some e), c)"
  | (made) q c where "createInternalRequestPipelineRun X E b = (Ret (Some q, None), c)"
proof (cases "createInternalRequestPipelineRun X E b")
  case (Pair r c)
  show thesis
  proof (cases r)
    case (Panic e)
    with Pair panic show thesis
      by (auto simp: createInternalRequestPipelineRun_def Let_def split: option.splits go.splits)
  next
    case (Ret out)
    with Pair refused made show thesis
      by (auto simp: createInternalRequestPipelineRun_def Let_def split: option.splits go.splits)
  qed
qed

text \<open>
  \<open>EnsurePipelineRunIsCreated\<close> either ends in an error or a panic of the builder with the
  request as it was, or finds the request running and a run for it, or registers a run.
\<close>

lemma created_cases:
  obtains (failed) e b where "EnsurePipelineRunIsCreated X E a = (Ret (RequeueWithError X e), b)"
      "a_request b = a_request a" "a_spawned b = a_spawned a" "a_config b = a_config a"
  | (panicked) e b where "EnsurePipelineRunIsCreated X E a = (Panic e, b)"
      "a_request b = a_request a" "a_spawned b = a_spawned a" "a_config b = a_config a"
      "case a_config a of None \<Rightarrow> True | Some cfg \<Rightarrow> panics (requestPipelineRun X cfg (a_request a))"
  | (running) b where "EnsurePipelineRunIsCreated X E a = (Ret (ContinueProcessing X), b)"
      "a_request b = a_request a" "a_spawned b = a_spawned a" "a_config b = a_config a"
      "IsRunning X (a_request a)"
  | (registered) p b where "EnsurePipelineRunIsCreated X E a =
      (let (err, c) = registerInternalRequestStatus X E (Some p) b
       in (Ret (RequeueOnErrorOrContinue X err), c))"
      "a_request b = a_request a" "a_spawned b = a_spawned a" "a_config b = a_config a"
proof -
  obtain p err b where l: "loadRun a = ((p, err), b)" by (metis prod.collapse)
  have fb: "a_request b = a_request a" "a_spawned b = a_spawned a" "a_config b = a_config a"
    using loadRun_frame[of a] l by simp_all
  note op = EnsurePipelineRunIsCreated_def l Let_def prod.case
  consider (hard) e where "hardError X err = Some e" | (found) q where "hardError X err = None" "p = Some q"
    | (none) "hardError X err = None" "p = None"
    by (cases "hardError X err"; cases p) auto
  then show thesis
  proof cases
    case hard
    then show thesis by (intro failed[of e b]) (simp_all add: op fb)
  next
    case found
    then show thesis
      by (cases "IsRunning X (a_request a)"; intro running[of b] registered[of q b]) (simp_all add: op fb)
  next
    case none
    have fc: "a_request c = a_request a" "a_spawned c = a_spawned a" "a_config c = a_config a"
      if "createInternalRequestPipelineRun X E b = (r, c)" for r c
      using create_frame[of X E b] that fb by simp_all
    show thesis
    proof (cases rule: create_cases[where X = X and E = E and b = b])
      case (panic e c)
      with none panic(2)[unfolded fb] show thesis by (intro panicked[of e c]) (simp_all add: op fc[OF panic(1)])
    next
      case (refused e c)
      with none show thesis by (intro failed[of e c]) (simp_all add: op fc[OF refused])
    next
      case (made q c)
      with none show thesis by (intro registered[of q c]) (simp_all add: op fc[OF made])
    qed
  qed
qed

text \<open>
  \<open>EnsureStatusIsTracked\<close> ends in an error, or goes on because there is no run, or patches the
  tracked status.
\<close>

lemma tracking_cases:
  assumes "tekton_api X"
  obtains (failed) e b where "EnsureStatusIsTracked X E a = (Ret (RequeueWithError X e), b)"
      "a_request b = a_request a" "a_spawned b = a_spawned a" "a_config b = a_config a"
  | (absent) b where "EnsureStatusIsTracked X E a = (Ret (ContinueProcessing X), b)"
      "a_request b = a_request a" "a_spawned b = a_spawned a" "a_config b = a_config a"
  | (patched) p b where "EnsureStatusIsTracked X E a =
      (let (err, c) = patchRequestStatus E (a_request a) (tracked X E p b)
       in (Ret (RequeueOnErrorOrContinue X err), c))"
      "a_request b = a_request a" "a_spawned b = a_spawned a" "a_config b = a_config a"
proof -
  obtain p err b where l: "loadRun a = ((p, err), b)" by (metis prod.collapse)
  have fb: "a_request b = a_request a" "a_spawned b = a_spawned a" "a_config b = a_config a"
    using loadRun_frame[of a] l by simp_all
  note op = EnsureStatusIsTracked_def l Let_def prod.case
  show thesis
  proof (cases "hardError X err")
    case (Some e)
    then show thesis by (intro failed[of e b]) (simp_all add: op fb)
  next
    case ok: None
    show thesis
    proof (cases p)
      case None
      with ok show thesis by (intro absent[of b]) (simp_all add: op fb)
    next
      case (Some q)
      with ok show thesis
        by (intro patched[of q b])
          (simp_all add: op fb tekton_api.register_tracked[OF assms] split: prod.splits)
    qed
  qed
qed

end
