(* ===== verification/Reconcile_Safety.thy ===== *)
theory Reconcile_Safety
  imports Adapter_Frames
begin

text \<open>
  Safety of a whole reconcile: every call goes to the cluster it is meant for, and no
  operation panics when the API servers keep to the schemas of the resources.
\<close>

section \<open>Clusters\<close>

definition separated :: "env \<Rightarrow> client \<Rightarrow> client \<Rightarrow> trace \<Rightarrow> Adapter \<Rightarrow> bool" where
  "separated E c ic h a \<longleftrightarrow>
     a_loader a = NewLoader E \<and> a_client a = c \<and> a_internalClient a = ic \<and>
     (\<exists>es. a_trace a = h @ es \<and> (\<forall>e\<in>set es. event_client e = (if on_request e then c else ic)))"

lemma separated_op:
  assumes "operation_contract op K" and "separated E c ic h a"
  shows "separated E c ic h (snd (op a))"
proof -
  have "grows K a (snd (op a))"
    using assms cluster_loader.object_loader_axioms by (auto simp: operation_contract_def separated_def)
  then show ?thesis
    using assms(2) by (force simp: separated_def grows_def disciplined_def)
qed

lemma spec_separated:
  "operation_contract op K \<Longrightarrow>
     spec (separated E c ic h) op (separated E c ic h) (\<lambda>_. separated E c ic h)"
  by (rule spec_post) (rule separated_op)

text \<open>
  C21: the two clusters are kept apart. Whatever happens, a reconcile only adds to the trace;
  every call on an InternalRequest goes through the client of the remote cluster and every
  call on a PipelineRun, a TaskRun or the configuration through the client of the local one.
\<close>

theorem reconcile_clusters:
  assumes "reconcile_handler RH" and "Reconcile X E RH r namespace name h = (res, h', calls)"
  shows "\<exists>es. h' = h @ es \<and>
    (\<forall>e\<in>set es. event_client e = (if on_request e then r_Client r else r_InternalClient r))"
proof -
  obtain ir err where g: "srv_GetIR E h (r_Client r) namespace name = (ir, err)" by fastforce
  show ?thesis
  proof (cases err)
    case (Some e)
    with assms(2) g reconcile_handler.Reconcile_no_request[OF assms(1)] show ?thesis by auto
  next
    case None
    let ?I = "separated E (r_Client r) (r_InternalClient r) h"
    let ?a = "NewAdapter (r_Client r) (r_InternalClient r) ir (NewLoader E)
      (h @ [GetIR (r_Client r) namespace name (ir, None)])"
    have "?I (snd (RH (operations X E) ?a))"
    proof (rule reconcile_handler.reconcile_rule[OF assms(1), where Q = "\<lambda>_. ?I"])
      show "?I ?a" by (simp add: separated_def NewAdapter_def)
    qed (rule spec_separated[OF finalizers_called.operation_contract_axioms]
          spec_separated[OF finalizer_added.operation_contract_axioms]
          spec_separated[OF request_not_completed.operation_contract_axioms]
          spec_separated[OF config_loaded.operation_contract_axioms]
          spec_separated[OF request_allowed.operation_contract_axioms]
          spec_separated[OF run_created.operation_contract_axioms]
          spec_separated[OF status_tracked.operation_contract_axioms]
          spec_separated[OF run_deleted.operation_contract_axioms] | assumption)+
    then show ?thesis
      using assms(2) g None reconcile_handler.Reconcile_loop[OF assms(1), of E h r namespace name ir X]
      by (auto simp: separated_def Let_def)
  qed
qed

section \<open>Panics\<close>

text \<open>
  What the API servers guarantee by the schemas: a request always has its required pipeline,
  a stored configuration a claim size of the required pattern.
\<close>

definition keeps_pipeline :: "env \<Rightarrow> bool" where
  "keeps_pipeline E \<longleftrightarrow> (\<forall>h c base ir. s_Pipeline (ir_Spec ir) \<noteq> None \<longrightarrow>
     s_Pipeline (ir_Spec (fst (srv_PatchIR E h c base ir))) \<noteq> None \<and>
     s_Pipeline (ir_Spec (fst (srv_PatchIRStatus E h c base ir))) \<noteq> None)"

definition valid_configs :: "env \<Rightarrow> bool" where
  "valid_configs E \<longleftrightarrow> (\<forall>h c ns n cfg. srv_GetConfig E h c ns n = (cfg, None) \<longrightarrow>
     matches_size (vc_Size (Volume (cfg_Spec cfg))))"

definition has_pipeline :: "env \<Rightarrow> Adapter \<Rightarrow> bool" where
  "has_pipeline E a \<longleftrightarrow> a_loader a = NewLoader E \<and> s_Pipeline (ir_Spec (a_request a)) \<noteq> None"

definition usable_config :: "Adapter \<Rightarrow> bool" where
  "usable_config a \<longleftrightarrow> (\<exists>cfg. a_config a = Some cfg \<and>
     (AllowList (cfg_Spec cfg) = [] \<or> matches_size (vc_Size (Volume (cfg_Spec cfg)))))"

lemma finalizers_continue:
  assumes "results_api X" and "proceeds (EnsureFinalizersAreCalled X E a)"
  shows "snd (EnsureFinalizersAreCalled X E a) = a"
    and "om_DeletionTimestamp (ir_ObjectMeta (a_request a)) = None"
  using assms(2) results_api.not_continues_simps[OF assms(1)]
  by (auto simp: EnsureFinalizersAreCalled_def Let_def split: option.splits prod.splits if_splits)

lemma never_panic:
  "\<not> panics (fst (EnsureFinalizersAreCalled X E a))"
  "\<not> panics (fst (EnsureFinalizerIsAdded X E a))"
  "\<not> panics (fst (EnsureRequestINotCompleted X a))"
  "\<not> panics (fst (EnsureConfigIsLoaded X E a))"
  "\<not> panics (fst (reject X E msg a))"
  by (auto simp: EnsureFinalizersAreCalled_def EnsureFinalizerIsAdded_def EnsureConfigIsLoaded_def
      EnsureRequestINotCompleted_def reject_def Let_def split: option.splits prod.splits)

lemma config_usable:
  assumes "results_api X" and "valid_configs E" and "a_loader a = NewLoader E"
    and "proceeds (EnsureConfigIsLoaded X E a)"
  shows "usable_config (snd (EnsureConfigIsLoaded X E a))"
  using assms(2-4) results_api.not_continues_simps(3)[OF assms(1)]
  by (auto simp: EnsureConfigIsLoaded_def GetInternalServicesConfig_def usable_config_def valid_configs_def
      getDefaultInternalServicesConfig_def zero_InternalServicesConfigSpec_def Let_def
      split: option.splits prod.splits if_splits)

lemma spec_quiet_start:
  assumes "results_api X" and "keeps_pipeline E"
  shows "spec (has_pipeline E) (EnsureFinalizersAreCalled X E) (has_pipeline E) (\<lambda>b _. \<not> b)"
    and "spec (has_pipeline E) (EnsureFinalizerIsAdded X E) (has_pipeline E) (\<lambda>b _. \<not> b)"
    and "spec (has_pipeline E) (EnsureRequestINotCompleted X) (has_pipeline E) (\<lambda>b _. \<not> b)"
  using finalizers_continue(1)[OF assms(1)] assms(2) never_panic
  by (auto simp: spec_def has_pipeline_def keeps_pipeline_def EnsureFinalizerIsAdded_def
      patchRequest_def Let_def)

lemma spec_quiet_config:
  assumes "results_api X" and "valid_configs E"
  shows "spec (has_pipeline E) (EnsureConfigIsLoaded X E)
    (\<lambda>a. has_pipeline E a \<and> usable_config a) (\<lambda>b _. \<not> b)"
  using config_usable[OF assms] never_panic by (auto simp: spec_def has_pipeline_def)

lemma allowed_no_panic:
  assumes "results_api X" and "s_Pipeline (ir_Spec (a_request a)) \<noteq> None" and "a_config a = Some cfg"
  shows "\<not> panics (fst (EnsureRequestIsAllowed X E a))"
proof (cases "admits cfg (a_request a)")
  case True
  then show ?thesis using results_api.allowed_admitted[OF assms(1,3)] by simp
next
  case False
  then show ?thesis
    using results_api.allowed_rejected[OF assms(1,3)] assms(2) never_panic(5) by (metis option.exhaust)
qed

lemma spec_quiet_allowed:
  assumes "results_api X"
  shows "spec (\<lambda>a. has_pipeline E a \<and> usable_config a) (EnsureRequestIsAllowed X E)
    (\<lambda>a. has_pipeline E a \<and> (\<exists>cfg. a_config a = Some cfg \<and> matches_size (vc_Size (Volume (cfg_Spec cfg)))))
    (\<lambda>b _. \<not> b)"
proof (rule specI)
  fix a assume a: "has_pipeline E a \<and> usable_config a"
  then obtain cfg where cfg: "a_config a = Some cfg"
    "AllowList (cfg_Spec cfg) = [] \<or> matches_size (vc_Size (Volume (cfg_Spec cfg)))"
    by (auto simp: usable_config_def)
  show "\<not> panics (fst (EnsureRequestIsAllowed X E a))"
    using allowed_no_panic[OF assms _ cfg(1)] a by (simp add: has_pipeline_def)
  assume "proceeds (EnsureRequestIsAllowed X E a)"
  then show "has_pipeline E (snd (EnsureRequestIsAllowed X E a)) \<and> (\<exists>cfg.
      a_config (snd (EnsureRequestIsAllowed X E a)) = Some cfg \<and> matches_size (vc_Size (Volume (cfg_Spec cfg))))"
    using results_api.allowed_proceeds_admits[OF assms _ cfg(1), of E] a cfg by (auto simp: admits_def)
qed

lemma spec_quiet_created:
  assumes "quantity_api X"
  shows "spec (\<lambda>a. has_pipeline E a \<and> (\<exists>cfg. a_config a = Some cfg \<and> matches_size (vc_Size (Volume (cfg_Spec cfg)))))
    (EnsurePipelineRunIsCreated X E) (\<lambda>a. a_config a \<noteq> None) (\<lambda>b _. \<not> b)"
proof -
  have "\<not> panics (fst (EnsurePipelineRunIsCreated X E a)) \<and>
      a_config (snd (EnsurePipelineRunIsCreated X E a)) = a_config a"
    if "has_pipeline E a" "a_config a = Some cfg" "matches_size (vc_Size (Volume (cfg_Spec cfg)))" for a cfg
  proof (cases rule: created_cases[where X = X and E = E and a = a])
    case (panicked e b)
    with that quantity_api.parse_size[OF assms that(3)] show ?thesis
      by (auto simp: panics_requestPipelineRun has_pipeline_def)
  next
    case (registered p b)
    then show ?thesis by (auto dest: patch_kept split: prod.splits)
  qed simp_all
  then show ?thesis by (auto simp: spec_def)
qed

lemma spec_quiet_end:
  assumes "tekton_api X"
  shows "spec (\<lambda>a. a_config a \<noteq> None) (EnsureStatusIsTracked X E) (\<lambda>a. a_config a \<noteq> None) (\<lambda>b _. \<not> b)"
    and "spec (\<lambda>a. a_config a \<noteq> None) (EnsurePipelineRunIsDeleted X E) (\<lambda>_. True) (\<lambda>b _. \<not> b)"
proof -
  have "\<not> panics (fst (EnsureStatusIsTracked X E a)) \<and>
      a_config (snd (EnsureStatusIsTracked X E a)) = a_config a" for a
    using assms
  proof (cases rule: tracking_cases[where E = E and a = a])
    case (patched p b)
    then show ?thesis
      using tracked_config[OF assms] by (auto dest: patch_kept split: prod.splits)
  qed simp_all
  then show "spec (\<lambda>a. a_config a \<noteq> None) (EnsureStatusIsTracked X E) (\<lambda>a. a_config a \<noteq> None) (\<lambda>b _. \<not> b)"
    by (simp add: spec_def)
  show "spec (\<lambda>a. a_config a \<noteq> None) (EnsurePipelineRunIsDeleted X E) (\<lambda>_. True) (\<lambda>b _. \<not> b)"
    by (auto simp: spec_def EnsurePipelineRunIsDeleted_def Let_def split: option.splits prod.splits)
qed

text \<open>
  C11: a reconcile never panics, whatever calls fail, as long as the servers keep to the
  schemas: requests have a pipeline and stored configurations a valid claim size. No nil
  pointer is dereferenced on any path, and the claim size is parsed only when it is valid,
  although the default configuration has none.
\<close>

theorem reconcile_never_panics:
  assumes "reconcile_handler RH" and "results_api X" and "tekton_api X" and "quantity_api X"
    and "keeps_pipeline E" and "valid_configs E"
    and "\<And>ir. srv_GetIR E h (r_Client r) namespace name = (ir, None) \<Longrightarrow> s_Pipeline (ir_Spec ir) \<noteq> None"
    and "Reconcile X E RH r namespace name h = (res, h', calls)"
  shows "\<not> panics res"
proof -
  obtain ir err where g: "srv_GetIR E h (r_Client r) namespace name = (ir, err)" by fastforce
  show ?thesis
  proof (cases err)
    case (Some e)
    with assms(8) g reconcile_handler.Reconcile_no_request[OF assms(1)] show ?thesis by auto
  next
    case None
    let ?a = "NewAdapter (r_Client r) (r_InternalClient r) ir (NewLoader E)
      (h @ [GetIR (r_Client r) namespace name (ir, None)])"
    have "\<not> panics (fst (RH (operations X E) ?a))"
    proof (rule reconcile_handler.reconcile_rule[OF assms(1), where Q = "\<lambda>b _. \<not> b"])
      show "has_pipeline E ?a" using assms(7) g None by (simp add: has_pipeline_def NewAdapter_def)
    qed (rule spec_quiet_start[OF assms(2,5)] spec_quiet_config[OF assms(2,6)]
          spec_quiet_allowed[OF assms(2)] spec_quiet_created[OF assms(4)] spec_quiet_end[OF assms(3)] | simp)+
    then show ?thesis
      using assms(8) g None reconcile_handler.Reconcile_loop[OF assms(1), of E h r namespace name ir X]
      by (auto simp: Let_def)
  qed
qed

end
