(* ===== verification/Request_Lifecycle.thy ===== *)
theory Request_Lifecycle
  imports Internal_Request
begin

text \<open>
  The life of one InternalRequest as a state machine over the transitions of
  \<open>Internal_Request\<close>, together with the metric goroutines started on the way. The guards
  are those under which the comments of \<open>metrics/internalrequest.go\<close> describe the
  accounting: a request is rejected only before it runs, and it succeeds or fails only
  after it was marked running.
\<close>

section \<open>Sequences of transitions\<close>

datatype mark =
    DoRunning time
  | DoFailed time string
  | DoRejected string
  | DoSucceeded time

fun apply_mark :: "ext \<Rightarrow> mark \<Rightarrow> InternalRequest \<Rightarrow> InternalRequest \<times> metric_call list" where
  "apply_mark X (DoRunning now) ir = MarkRunning X now ir"
| "apply_mark X (DoFailed now msg) ir = MarkFailed X now msg ir"
| "apply_mark X (DoRejected msg) ir = MarkRejected X msg ir"
| "apply_mark X (DoSucceeded now) ir = MarkSucceeded X now ir"

fun run_marks :: "ext \<Rightarrow> mark list \<Rightarrow> InternalRequest \<Rightarrow> InternalRequest \<times> metric_call list" where
  "run_marks X [] ir = (ir, [])"
| "run_marks X (m # ms) ir =
     (let (ir', calls) = apply_mark X m ir; (ir'', calls') = run_marks X ms ir'
      in (ir'', calls @ calls'))"

section \<open>The state machine\<close>

text \<open>
  \<open>life X ir calls gone\<close>: the request reached state \<open>ir\<close> having started the goroutines
  \<open>calls\<close>; \<open>gone\<close> says that it has been deleted.
\<close>

inductive life :: "ext \<Rightarrow> InternalRequest \<Rightarrow> metric_call list \<Rightarrow> bool \<Rightarrow> bool" for X where
  fresh: "succeededCondition X ir = None \<Longrightarrow> ir_StartTime ir = None \<Longrightarrow> life X ir [] False"
| running: "life X ir calls False \<Longrightarrow>
    life X (fst (MarkRunning X now ir)) (calls @ snd (MarkRunning X now ir)) False"
| rejected: "life X ir calls False \<Longrightarrow> \<not> IsRunning X ir \<Longrightarrow>
    life X (fst (MarkRejected X msg ir)) (calls @ snd (MarkRejected X msg ir)) False"
| failed: "life X ir calls False \<Longrightarrow> IsRunning X ir \<or> HasCompleted X ir \<Longrightarrow>
    life X (fst (MarkFailed X now msg ir)) (calls @ snd (MarkFailed X now msg ir)) False"
| succeeded: "life X ir calls False \<Longrightarrow> IsRunning X ir \<or> HasCompleted X ir \<Longrightarrow>
    life X (fst (MarkSucceeded X now ir)) (calls @ snd (MarkSucceeded X now ir)) False"
| deleted: "life X ir calls False \<Longrightarrow> life X ir (calls @ RegisterDeletion X now ir) True"

text \<open>The books: what the gauge and the attempt counter gained, and that nothing panics.\<close>

definition gauge_total :: "metric_call list \<Rightarrow> int" where
  "gauge_total calls = (\<Sum>c\<leftarrow>calls. gauge_effect c)"

definition attempts :: "metric_call list \<Rightarrow> nat" where
  "attempts calls = length (filter (\<lambda>c. attempt_labels c \<noteq> None) calls)"

lemma book_simps [simp]:
  "gauge_total [] = 0" "gauge_total (c # cs) = gauge_effect c + gauge_total cs"
  "gauge_total (cs @ ds) = gauge_total cs + gauge_total ds"
  "attempts [] = 0" "attempts (c # cs) = (if attempt_labels c = None then 0 else 1) + attempts cs"
  "attempts (cs @ ds) = attempts cs + attempts ds"
  by (auto simp: gauge_total_def attempts_def)

definition balanced :: "ext \<Rightarrow> InternalRequest \<Rightarrow> metric_call list \<Rightarrow> bool" where
  "balanced X ir calls \<longleftrightarrow>
     gauge_total calls = (if IsRunning X ir then 1 else 0) \<and>
     attempts calls = (if HasCompleted X ir then 1 else 0) \<and>
     (IsRunning X ir \<longrightarrow> ir_StartTime ir \<noteq> None) \<and>
     (\<not> IsRunning X ir \<and> \<not> HasCompleted X ir \<longrightarrow> ir_StartTime ir = None) \<and>
     (\<forall>c\<in>set calls. \<not> metric_panics c)"

text \<open>The goroutines each transition starts.\<close>

lemma mark_calls:
  assumes "\<not> HasCompleted X ir"
  shows "snd (MarkFailed X now msg ir) =
      [Completed (getPipelineName ir) (ir_Namespace ir) FailedReason (ir_StartTime ir) (Some now) False]"
    and "snd (MarkRejected X msg ir) = [Rejected (getPipelineName ir) (ir_Namespace ir) RejectedReason]"
    and "snd (MarkRunning X now ir) =
      (if IsRunning X ir then [] else [New (om_CreationTimestamp (ir_ObjectMeta ir)) (Some now)])"
    and "snd (MarkSucceeded X now ir) =
      [Completed (getPipelineName ir) (ir_Namespace ir) SucceededReason (ir_StartTime ir) (Some now) True]"
  using assms by (simp_all add: mark_defs Let_def)

context conditions_api
begin

lemma completed_not_running: "HasCompleted X ir \<Longrightarrow> \<not> IsRunning X ir"
  using running_not_completed by blast

lemma not_running_after:
  assumes "\<not> HasCompleted X ir"
  shows "\<not> IsRunning X (fst (MarkFailed X now msg ir))" "\<not> IsRunning X (fst (MarkRejected X msg ir))"
    "\<not> IsRunning X (fst (MarkSucceeded X now ir))"
  using assms by (simp_all add: completed_not_running completed_after_failed after_succeeded)

lemmas after_marks =
  mark_calls completed_after_failed after_failed(3,4) after_rejected(3,4) after_succeeded(2,3,4)
  after_running not_running_after

lemma balanced_fresh:
  "succeededCondition X ir = None \<Longrightarrow> ir_StartTime ir = None \<Longrightarrow> balanced X ir []"
  by (simp add: balanced_def query_defs)

lemma balanced_running:
  "balanced X ir cs \<Longrightarrow> balanced X (fst (MarkRunning X now ir)) (cs @ snd (MarkRunning X now ir))"
  by (cases "HasCompleted X ir") (auto simp: balanced_def after_marks)

lemma balanced_rejected:
  "balanced X ir cs \<Longrightarrow> \<not> IsRunning X ir \<Longrightarrow>
     balanced X (fst (MarkRejected X msg ir)) (cs @ snd (MarkRejected X msg ir))"
  by (cases "HasCompleted X ir") (auto simp: balanced_def after_marks)

lemma balanced_failed:
  "balanced X ir cs \<Longrightarrow> IsRunning X ir \<or> HasCompleted X ir \<Longrightarrow>
     balanced X (fst (MarkFailed X now msg ir)) (cs @ snd (MarkFailed X now msg ir))"
  by (cases "HasCompleted X ir") (auto simp: balanced_def after_marks)

lemma balanced_succeeded:
  "balanced X ir cs \<Longrightarrow> IsRunning X ir \<or> HasCompleted X ir \<Longrightarrow>
     balanced X (fst (MarkSucceeded X now ir)) (cs @ snd (MarkSucceeded X now ir))"
  by (cases "HasCompleted X ir") (auto simp: balanced_def after_marks)

lemma deletion_books:
  "balanced X ir cs \<Longrightarrow>
     gauge_total (cs @ RegisterDeletion X now ir) = 0 \<and> attempts (cs @ RegisterDeletion X now ir) = 1 \<and>
     (\<forall>c\<in>set (cs @ RegisterDeletion X now ir). \<not> metric_panics c)"
  by (cases "HasCompleted X ir")
    (auto simp: balanced_def RegisterDeletion_def completed_not_running split: option.splits)

lemma life_books:
  "life X ir cs gone \<Longrightarrow>
     if gone then gauge_total cs = 0 \<and> attempts cs = 1 \<and> (\<forall>c\<in>set cs. \<not> metric_panics c)
     else balanced X ir cs"
proof (induction rule: life.induct)
  case (deleted ir cs now)
  then show ?case using deletion_books[of ir cs now] by simp
qed (simp_all add: balanced_fresh balanced_running balanced_rejected balanced_failed
    balanced_succeeded)

end

section \<open>Properties\<close>

lemma apply_mark_completed: "HasCompleted X ir \<Longrightarrow> apply_mark X m ir = (ir, [])"
  by (cases m) simp_all

text \<open>
  Completion is final: once a request has completed, no sequence of transitions changes
  it or registers another metric.
\<close>

lemma completed_absorbing:
  "HasCompleted X ir \<Longrightarrow> run_marks X ms ir = (ir, [])"
  by (induction ms) (simp_all add: apply_mark_completed)


end
