(* ===== verification/Accounting.thy ===== *)
theory Accounting
  imports Reconcile_Safety Request_Lifecycle
begin

text \<open>
  The metrics of a whole reconcile. When the patches of the request are accepted, the
  operations keep the books of \<open>Request_Lifecycle\<close>: the concurrency gauge counts running
  requests and every request is counted once when it ends. Where patches fail or a running
  request is rejected, the books are off, and by how much is stated.
\<close>

section \<open>Books of an adapter\<close>

text \<open>The remote cluster accepts patches: the answer is the object that was sent.\<close>

definition accepts_patches :: "env \<Rightarrow> bool" where
  "accepts_patches E \<longleftrightarrow> (\<forall>h c base ir. srv_PatchIR E h c base ir = (ir, None) \<and>
     srv_PatchIRStatus E h c base ir = (ir, None))"

definition closed_books :: "metric_call list \<Rightarrow> bool" where
  "closed_books cs \<longleftrightarrow> gauge_total cs = 0 \<and> attempts cs = 1 \<and> (\<forall>c\<in>set cs. \<not> metric_panics c)"

definition let_go :: "InternalRequest \<Rightarrow> bool" where
  "let_go ir \<longleftrightarrow> om_DeletionTimestamp (ir_ObjectMeta ir) \<noteq> None \<and>
     InternalRequestFinalizer \<notin> set (om_Finalizers (ir_ObjectMeta ir))"

definition books :: "ext \<Rightarrow> metric_call list \<Rightarrow> Adapter \<Rightarrow> bool" where
  "books X cs a \<longleftrightarrow>
     (if let_go (a_request a) then closed_books (cs @ a_spawned a)
      else balanced X (a_request a) (cs @ a_spawned a))"

definition live :: "ext \<Rightarrow> metric_call list \<Rightarrow> Adapter \<Rightarrow> bool" where
  "live X cs a \<longleftrightarrow> om_DeletionTimestamp (ir_ObjectMeta (a_request a)) = None \<and>
     balanced X (a_request a) (cs @ a_spawned a)"

lemma live_books: "live X cs a \<Longrightarrow> books X cs a"
  by (simp add: live_def books_def let_go_def)

lemma balanced_cong:
  "Conditions (ir_Status ir') = Conditions (ir_Status ir) \<Longrightarrow> ir_StartTime ir' = ir_StartTime ir \<Longrightarrow>
     balanced X ir' cs = balanced X ir cs"
  by (simp add: balanced_def query_defs succeededCondition_def)

lemma status_cong:
  "ir_Status ir' = ir_Status ir \<Longrightarrow> HasCompleted X ir' = HasCompleted X ir"
  "ir_Status ir' = ir_Status ir \<Longrightarrow> IsRunning X ir' = IsRunning X ir"
  by (simp_all add: query_defs succeededCondition_def)

lemma patchStatus_accepted:
  "accepts_patches E \<Longrightarrow> patchRequestStatus E base a =
     (None, a\<lparr>a_trace := a_trace a @ [PatchIRStatus (a_client a) base (a_request a) (a_request a, None)]\<rparr>)"
  by (simp add: patchRequestStatus_def accepts_patches_def Let_def)

section \<open>The operations keep the books\<close>

lemma finalizers_books:
  assumes "conditions_api X" and "finalizer_api X" and "accepts_patches E"
    and "balanced X (a_request a) (cs @ a_spawned a)" and "\<not> let_go (a_request a)"
  shows "books X cs (snd (EnsureFinalizersAreCalled X E a))"
proof -
  obtain err b where f: "finalizeInternalRequest X E a = (err, b)" by fastforce
  have fb: "a_request b = a_request a" "a_spawned b = a_spawned a"
    using finalize_frame[of X E a] f by simp_all
  let ?ir = "a_request a" and ?calls = "RegisterDeletion X (Now E (a_trace b)) (a_request a)"
  let ?ir' = "?ir\<lparr>ir_ObjectMeta := (ir_ObjectMeta ?ir)\<lparr>om_Finalizers :=
      RemoveFinalizer X (om_Finalizers (ir_ObjectMeta ?ir)) InternalRequestFinalizer\<rparr>\<rparr>"
  have same: "books X cs a" using assms(4,5) by (simp add: books_def)
  show ?thesis
  proof (cases "om_DeletionTimestamp (ir_ObjectMeta ?ir) = None")
    case True
    with same show ?thesis by (simp add: EnsureFinalizersAreCalled_def)
  next
    case del: False
    with assms(5) have has: "ContainsFinalizer X (om_Finalizers (ir_ObjectMeta ?ir)) InternalRequestFinalizer"
      by (simp add: let_go_def finalizer_api.contains_iff[OF assms(2)])
    show ?thesis
    proof (cases err)
      case (Some e)
      with del has f same fb show ?thesis
        by (auto simp: EnsureFinalizersAreCalled_def Let_def books_def)
    next
      case None
      have "let_go ?ir'" using del finalizer_api.set_remove[OF assms(2)] by (simp add: let_go_def)
      moreover have "closed_books (cs @ a_spawned a @ ?calls)"
        using conditions_api.deletion_books[OF assms(1,4), of "Now E (a_trace b)"]
        by (auto simp: closed_books_def)
      moreover have "a_request (snd (EnsureFinalizersAreCalled X E a)) = ?ir'"
        "a_spawned (snd (EnsureFinalizersAreCalled X E a)) = a_spawned a @ ?calls"
        using del has f None fb assms(3)
        by (auto simp: EnsureFinalizersAreCalled_def removeFinalizerPatch_def patchRequest_def
            accepts_patches_def Let_def)
      ultimately show ?thesis by (simp add: books_def)
    qed
  qed
qed

text \<open>Adding the finalizer changes neither the status nor what admission looks at.\<close>

lemma finalizerAdded_request:
  assumes "accepts_patches E"
  shows "ir_Status (a_request (snd (EnsureFinalizerIsAdded X E a))) = ir_Status (a_request a)"
    and "ir_Spec (a_request (snd (EnsureFinalizerIsAdded X E a))) = ir_Spec (a_request a)"
    and "ir_Namespace (a_request (snd (EnsureFinalizerIsAdded X E a))) = ir_Namespace (a_request a)"
    and "om_DeletionTimestamp (ir_ObjectMeta (a_request (snd (EnsureFinalizerIsAdded X E a)))) =
      om_DeletionTimestamp (ir_ObjectMeta (a_request a))"
  using assms by (simp_all add: EnsureFinalizerIsAdded_def patchRequest_def accepts_patches_def Let_def)

lemma admits_cong:
  "ir_Spec ir' = ir_Spec ir \<Longrightarrow> ir_Namespace ir' = ir_Namespace ir \<Longrightarrow> admits cfg ir' = admits cfg ir"
  by (simp add: admits_def)

lemma finalizerAdded_live:
  assumes "accepts_patches E" and "live X cs a"
  shows "live X cs (snd (EnsureFinalizerIsAdded X E a))"
proof -
  have "balanced X (a_request (snd (EnsureFinalizerIsAdded X E a))) cs' = balanced X (a_request a) cs'" for cs'
    by (rule balanced_cong) (simp_all add: finalizerAdded_request[OF assms(1)])
  with assms(2) show ?thesis by (simp add: live_def finalizerAdded_request[OF assms(1)])
qed

lemma reject_live:
  assumes "conditions_api X" and "accepts_patches E" and "live X cs a" and "\<not> IsRunning X (a_request a)"
  shows "live X cs (snd (reject X E msg a))"
  using assms(3,4) conditions_api.balanced_rejected[OF assms(1), of "a_request a" "cs @ a_spawned a" msg]
  by (simp add: live_def reject_def patchStatus_accepted[OF assms(2)] Let_def)

lemma allowed_live:
  assumes "conditions_api X" and "results_api X" and "accepts_patches E" and "live X cs a"
    and "a_config a = Some cfg" and "IsRunning X (a_request a) \<longrightarrow> admits cfg (a_request a)"
  shows "live X cs (snd (EnsureRequestIsAllowed X E a))"
proof (cases "admits cfg (a_request a)")
  case True
  then show ?thesis using results_api.allowed_admitted[OF assms(2,5)] assms(4) by simp
next
  case no: False
  with assms(6) have nr: "\<not> IsRunning X (a_request a)" by blast
  show ?thesis
  proof (cases "s_Pipeline (ir_Spec (a_request a))")
    case (Some p)
    then obtain msg where "EnsureRequestIsAllowed X E a = reject X E msg a"
      using results_api.allowed_rejected[OF assms(2,5) no] by blast
    then show ?thesis using reject_live[OF assms(1,3,4) nr] by simp
  next
    case None
    then have "EnsureRequestIsAllowed X E a = (Panic ''nil pointer dereference'', a) \<or>
        (\<exists>msg. EnsureRequestIsAllowed X E a = reject X E msg a)"
      using assms(5) by (auto simp: EnsureRequestIsAllowed_def allowLoop_member
          ensureGitResolverURLIsAllowed_def)
    then show ?thesis using reject_live[OF assms(1,3,4) nr] assms(4) by auto
  qed
qed

lemma created_live:
  assumes "conditions_api X" and "results_api X" and "accepts_patches E" and "live X cs a"
    and "\<not> HasCompleted X (a_request a)"
  shows "live X cs (snd (EnsurePipelineRunIsCreated X E a))"
    and "proceeds (EnsurePipelineRunIsCreated X E a) \<longrightarrow>
      IsRunning X (a_request (snd (EnsurePipelineRunIsCreated X E a)))"
proof -
  have "live X cs (snd (EnsurePipelineRunIsCreated X E a)) \<and> (proceeds (EnsurePipelineRunIsCreated X E a) \<longrightarrow>
      IsRunning X (a_request (snd (EnsurePipelineRunIsCreated X E a))))"
  proof (cases rule: created_cases[where X = X and E = E and a = a])
    case (registered p b)
    then show ?thesis
      using assms(4,5) conditions_api.after_running(1)[OF assms(1,5)]
        conditions_api.balanced_running[OF assms(1), of "a_request a" "cs @ a_spawned a"]
      by (simp add: registerInternalRequestStatus_def patchStatus_accepted[OF assms(3)] live_def Let_def)
  qed (use assms(4) results_api.not_continues_simps(3)[OF assms(2)] in \<open>simp_all add: live_def\<close>)
  then show "live X cs (snd (EnsurePipelineRunIsCreated X E a))"
    "proceeds (EnsurePipelineRunIsCreated X E a) \<longrightarrow>
      IsRunning X (a_request (snd (EnsurePipelineRunIsCreated X E a)))" by blast+
qed

lemma tracked_live:
  assumes "conditions_api X" and "tekton_api X" and "live X cs a" and "IsRunning X (a_request a)"
  shows "live X cs (tracked X E p a)"
proof -
  let ?ref = "\<lambda>m. (a_request a)\<lparr>ir_Status := (ir_Status (a_request a))\<lparr>PipelineRunRef := runReference p, Results := m\<rparr>\<rparr>"
  let ?ir = "(a_request a)\<lparr>ir_Status := (ir_Status (a_request a))\<lparr>PipelineRunRef := runReference p\<rparr>\<rparr>"
  have l: "balanced X (a_request a) (cs @ a_spawned a)"
    and d: "om_DeletionTimestamp (ir_ObjectMeta (a_request a)) = None"
    using assms(3) by (simp_all add: live_def)
  have "balanced X ?ir cs' = balanced X (a_request a) cs'" for cs'
    by (rule balanced_cong) simp_all
  moreover have "balanced X (?ref m) cs' = balanced X (a_request a) cs'" for m cs'
    by (rule balanced_cong) simp_all
  ultimately have b: "balanced X ?ir (cs @ a_spawned a)" "balanced X (?ref m) (cs @ a_spawned a)" for m
    using l by blast+
  from assms(2) show ?thesis
  proof (cases rule: run_cases[where p = p])
    case running_run
    with b d show ?thesis by (simp add: tekton_api.tracked_open[OF assms(2)] live_def)
  next
    case (succeeded_run c)
    then show ?thesis
      using d assms(4) conditions_api.balanced_succeeded[OF assms(1) b(2)]
      by (simp add: tekton_api.tracked_succeeded[OF assms(2) succeeded_run] live_def)
  next
    case (failed_run c)
    obtain trs err h where "ld_GetInternalRequestPipelineRunTaskRuns (a_loader a) (a_internalClient a) p
        (a_trace a) = ((trs, err), h)" by (metis prod.collapse)
    then show ?thesis
      using d assms(4) conditions_api.balanced_failed[OF assms(1) b(1)]
      by (simp add: tekton_api.tracked_failed[OF assms(2) failed_run] live_def Let_def)
  qed
qed

lemma tracking_live:
  assumes "conditions_api X" and "tekton_api X" and "accepts_patches E" and "live X cs a"
    and "IsRunning X (a_request a)"
  shows "live X cs (snd (EnsureStatusIsTracked X E a))"
  using assms(2)
proof (cases rule: tracking_cases[where E = E and a = a])
  case (patched p b)
  have "live X cs b" using patched assms(4) by (simp add: live_def)
  then have "live X cs (tracked X E p b)" using tracked_live[OF assms(1,2)] patched assms(5) by simp
  with patched show ?thesis by (simp add: patchStatus_accepted[OF assms(3)] live_def)
qed (use assms(4) in \<open>simp_all add: live_def\<close>)

section \<open>Specifications of the operations\<close>

text \<open>A request that keeps what admission looks at and whether it runs.\<close>

definition same_case :: "InternalRequest \<Rightarrow> InternalRequest \<Rightarrow> bool" where
  "same_case ir ir' \<longleftrightarrow> ir_Spec ir' = ir_Spec ir \<and> ir_Namespace ir' = ir_Namespace ir \<and>
     ir_Status ir' = ir_Status ir"

lemma spec_books_finalizers:
  assumes "conditions_api X" and "results_api X" and "finalizer_api X" and "accepts_patches E"
    and "balanced X ir cs" and "\<not> let_go ir"
  shows "spec (\<lambda>a. a_request a = ir \<and> a_spawned a = [] \<and> a_loader a = NewLoader E)
    (EnsureFinalizersAreCalled X E)
    (\<lambda>a. live X cs a \<and> same_case ir (a_request a) \<and> a_loader a = NewLoader E) (\<lambda>_. books X cs)"
proof (rule specI)
  fix a :: Adapter assume a: "a_request a = ir \<and> a_spawned a = [] \<and> a_loader a = NewLoader E"
  then show "books X cs (snd (EnsureFinalizersAreCalled X E a))"
    using finalizers_books[OF assms(1,3,4)] assms(5,6) by simp
  assume p: "proceeds (EnsureFinalizersAreCalled X E a)"
  show "live X cs (snd (EnsureFinalizersAreCalled X E a)) \<and>
      same_case ir (a_request (snd (EnsureFinalizersAreCalled X E a))) \<and>
      a_loader (snd (EnsureFinalizersAreCalled X E a)) = NewLoader E"
    using a assms(5) finalizers_continue[OF assms(2) p] by (simp add: live_def same_case_def)
qed

lemma spec_books_added:
  assumes "accepts_patches E"
  shows "spec (\<lambda>a. live X cs a \<and> same_case ir (a_request a) \<and> a_loader a = NewLoader E)
    (EnsureFinalizerIsAdded X E)
    (\<lambda>a. live X cs a \<and> same_case ir (a_request a) \<and> a_loader a = NewLoader E) (\<lambda>_. books X cs)"
  using finalizerAdded_live[OF assms] finalizerAdded_request[OF assms]
  by (intro specI) (simp_all add: same_case_def live_books)

lemma spec_books_not_completed:
  assumes "results_api X"
  shows "spec (\<lambda>a. live X cs a \<and> same_case ir (a_request a) \<and> a_loader a = NewLoader E)
    (EnsureRequestINotCompleted X)
    (\<lambda>a. live X cs a \<and> same_case ir (a_request a) \<and> a_loader a = NewLoader E \<and>
       \<not> HasCompleted X (a_request a)) (\<lambda>_. books X cs)"
  using results_api.not_continues_simps(1)[OF assms]
  by (intro specI) (auto simp: live_books EnsureRequestINotCompleted_def)

text \<open>
  Every answer of the local cluster to the read of the configuration admits the request, and the
  configuration is not missing.
\<close>

definition stays_admitted :: "ext \<Rightarrow> env \<Rightarrow> InternalRequest \<Rightarrow> bool" where
  "stays_admitted X E ir \<longleftrightarrow> (\<forall>h c. case srv_GetConfig E h c (serviceNamespace E) InternalServicesConfigResourceName of
     (cfg, None) \<Rightarrow> admits cfg ir | (_, Some e) \<Rightarrow> \<not> IsNotFound X e)"

lemma spec_books_config:
  assumes "results_api X" and "IsRunning X ir \<Longrightarrow> stays_admitted X E ir"
  shows "spec (\<lambda>a. live X cs a \<and> same_case ir (a_request a) \<and> a_loader a = NewLoader E \<and>
      \<not> HasCompleted X (a_request a)) (EnsureConfigIsLoaded X E)
    (\<lambda>a. live X cs a \<and> \<not> HasCompleted X (a_request a) \<and>
       (\<exists>cfg. a_config a = Some cfg \<and> (IsRunning X (a_request a) \<longrightarrow> admits cfg (a_request a))))
    (\<lambda>_. books X cs)"
proof (rule specI)
  fix a :: Adapter assume a: "live X cs a \<and> same_case ir (a_request a) \<and> a_loader a = NewLoader E \<and>
      \<not> HasCompleted X (a_request a)"
  have l: "live X cs (snd (EnsureConfigIsLoaded X E a))" using a by (simp add: live_def)
  then show "books X cs (snd (EnsureConfigIsLoaded X E a))" by (rule live_books)
  assume p: "proceeds (EnsureConfigIsLoaded X E a)"
  let ?r = "srv_GetConfig E (a_trace a) (a_internalClient a) (serviceNamespace E) InternalServicesConfigResourceName"
  obtain cfg where c: "a_config (snd (EnsureConfigIsLoaded X E a)) = Some cfg"
    "?r = (cfg, None) \<or> (\<exists>e. snd ?r = Some e \<and> IsNotFound X e)"
    using a p results_api.not_continues_simps(3)[OF assms(1)]
    by (auto simp: EnsureConfigIsLoaded_def GetInternalServicesConfig_def Let_def
        split: option.splits prod.splits if_splits)
  have "admits cfg (a_request a)" if "IsRunning X (a_request a)"
  proof -
    have "IsRunning X ir" using that a status_cong(2)[of "a_request a" ir X] by (simp add: same_case_def)
    from assms(2)[OF this] have "case ?r of (cfg, None) \<Rightarrow> admits cfg ir | (_, Some e) \<Rightarrow> \<not> IsNotFound X e"
      by (simp only: stays_admitted_def)
    with c(2) have "admits cfg ir" by (cases ?r) auto
    then show ?thesis using a admits_cong[of "a_request a" ir] by (simp add: same_case_def)
  qed
  then show "live X cs (snd (EnsureConfigIsLoaded X E a)) \<and>
      \<not> HasCompleted X (a_request (snd (EnsureConfigIsLoaded X E a))) \<and>
      (\<exists>cfg. a_config (snd (EnsureConfigIsLoaded X E a)) = Some cfg \<and>
        (IsRunning X (a_request (snd (EnsureConfigIsLoaded X E a))) \<longrightarrow>
         admits cfg (a_request (snd (EnsureConfigIsLoaded X E a)))))"
    using a c(1) l by simp
qed

lemma spec_books_allowed:
  assumes "conditions_api X" and "results_api X" and "accepts_patches E"
  shows "spec (\<lambda>a. live X cs a \<and> \<not> HasCompleted X (a_request a) \<and>
      (\<exists>cfg. a_config a = Some cfg \<and> (IsRunning X (a_request a) \<longrightarrow> admits cfg (a_request a))))
    (EnsureRequestIsAllowed X E) (\<lambda>a. live X cs a \<and> \<not> HasCompleted X (a_request a)) (\<lambda>_. books X cs)"
proof (rule specI)
  fix a :: Adapter assume a: "live X cs a \<and> \<not> HasCompleted X (a_request a) \<and>
      (\<exists>cfg. a_config a = Some cfg \<and> (IsRunning X (a_request a) \<longrightarrow> admits cfg (a_request a)))"
  then have "live X cs (snd (EnsureRequestIsAllowed X E a))" using allowed_live[OF assms] by blast
  then show "books X cs (snd (EnsureRequestIsAllowed X E a))" by (rule live_books)
  assume "proceeds (EnsureRequestIsAllowed X E a)"
  then have "snd (EnsureRequestIsAllowed X E a) = a"
    using a results_api.allowed_proceeds_admits[OF assms(2)] by blast
  with a show "live X cs (snd (EnsureRequestIsAllowed X E a)) \<and>
      \<not> HasCompleted X (a_request (snd (EnsureRequestIsAllowed X E a)))" by simp
qed

lemma spec_books_created:
  assumes "conditions_api X" and "results_api X" and "accepts_patches E"
  shows "spec (\<lambda>a. live X cs a \<and> \<not> HasCompleted X (a_request a)) (EnsurePipelineRunIsCreated X E)
    (\<lambda>a. live X cs a \<and> IsRunning X (a_request a)) (\<lambda>_. books X cs)"
  using created_live[OF assms] by (intro specI) (auto intro!: live_books)

lemma spec_books_end:
  assumes "conditions_api X" and "tekton_api X" and "accepts_patches E"
  shows "spec (\<lambda>a. live X cs a \<and> IsRunning X (a_request a)) (EnsureStatusIsTracked X E) (live X cs)
      (\<lambda>_. books X cs)"
    and "spec (live X cs) (EnsurePipelineRunIsDeleted X E) (live X cs) (\<lambda>_. books X cs)"
  using tracking_live[OF assms] live_books[of X cs]
  by (auto intro!: specI simp: live_def)

section \<open>Properties\<close>

text \<open>
  C10: a reconcile keeps the books. Suppose the goroutines started so far have moved the gauge
  by one exactly if the request is running and counted it exactly if it has completed, that
  patches of the request are accepted, and that a running request stays admitted. Then after
  the reconcile the same holds of the request it leaves behind, whatever other calls fail;
  and once it took the finalizer off a deleted request, the gauge is back and the request
  has been counted exactly once. No goroutine it starts panics.
\<close>

theorem reconcile_keeps_books:
  assumes "reconcile_handler RH" and "conditions_api X" and "results_api X" and "finalizer_api X"
    and "tekton_api X" and "accepts_patches E" and "balanced X ir cs" and "\<not> let_go ir"
    and "IsRunning X ir \<Longrightarrow> stays_admitted X E ir"
    and "RH (operations X E) (NewAdapter c ic ir (NewLoader E) h) = (res, a)"
  shows "if let_go (a_request a) then closed_books (cs @ a_spawned a)
    else balanced X (a_request a) (cs @ a_spawned a)"
proof -
  have "books X cs (snd (RH (operations X E) (NewAdapter c ic ir (NewLoader E) h)))"
    by (rule reconcile_handler.reconcile_rule[OF assms(1), where Q = "\<lambda>_. books X cs",
          OF spec_books_finalizers[OF assms(2,3,4,6,7,8)] spec_books_added[OF assms(6)]
          spec_books_not_completed[OF assms(3)] spec_books_config[OF assms(3,9)]
          spec_books_allowed[OF assms(2,3,6)] spec_books_created[OF assms(2,3,6)]
          spec_books_end[OF assms(2,5,6)] live_books])
      (simp_all add: NewAdapter_def)
  then show ?thesis using assms(10) by (simp add: books_def)
qed

text \<open>
  C36: the attempt is registered before the patch that reports it. However the status patch is
  answered, tracking a done run for a running request starts one goroutine that counts the
  attempt and lowers the gauge; so if the patch fails and the request is reconciled again
  from the state on the server, it is counted again.
\<close>

theorem attempt_registered_before_patch:
  assumes "conditions_api X" and "tekton_api X" and "a_loader a = NewLoader E"
    and "IsRunning X (a_request a)"
    and "srv_ListPLR E (a_trace a) (a_internalClient a) 1 (requestSelector (a_request a)) = (p # ps, None)"
    and "IsDone X p"
  shows "attempts (a_spawned (snd (EnsureStatusIsTracked X E a))) = attempts (a_spawned a) + 1 \<and>
    gauge_total (a_spawned (snd (EnsureStatusIsTracked X E a))) = gauge_total (a_spawned a) - 1"
proof -
  let ?ev = "ListPLR (a_internalClient a) 1 (requestSelector (a_request a)) (p # ps, None)"
  let ?b = "a\<lparr>a_trace := a_trace a @ [?ev]\<rparr>"
  have l: "loadRun a = ((Some p, None), ?b)"
    using assms(3,5) by (simp add: loadRun_def GetInternalRequestPipelineRun_def Let_def)
  have "EnsureStatusIsTracked X E a = (let (err, c) = patchRequestStatus E (a_request a) (tracked X E p ?b)
       in (Ret (RequeueOnErrorOrContinue X err), c))"
    by (simp add: EnsureStatusIsTracked_def l hardError_def tekton_api.register_tracked[OF assms(2)] Let_def
        split: prod.splits)
  then have s: "a_spawned (snd (EnsureStatusIsTracked X E a)) = a_spawned (tracked X E p ?b)"
    using patchStatus_frame(2)[of E "a_request a" "tracked X E p ?b"]
    by (auto simp del: patchStatus_frame split: prod.splits)
  have nc: "\<not> HasCompleted X (a_request a)" by (rule conditions_api.running_not_completed[OF assms(1,4)])
  obtain trs err h where t: "ld_GetInternalRequestPipelineRunTaskRuns (a_loader ?b) (a_internalClient ?b) p
        (a_trace ?b) = ((trs, err), h)" by (metis prod.collapse)
  from assms(2) show ?thesis
  proof (cases rule: run_cases[where p = p])
    case running_run
    with assms(6) show ?thesis by simp
  next
    case (succeeded_run c)
    then show ?thesis
      using nc by (simp add: s tekton_api.tracked_succeeded[OF assms(2) succeeded_run] mark_calls)
  next
    case (failed_run c)
    then show ?thesis
      unfolding s tekton_api.tracked_failed[OF assms(2) failed_run t] Let_def
      using nc by (simp add: mark_calls)
  qed
qed

text \<open>
  C37: rejecting a running request leaves the gauge up. A rejection counts the attempt but does
  not lower the gauge, and since the request has completed by it, no later transition
  lowers it: a request that is rejected while running, because the configuration changed,
  stays in the gauge.
\<close>

theorem rejection_while_running_leaks:
  assumes "conditions_api X" and "balanced X ir cs" and "IsRunning X ir"
  shows "gauge_total (cs @ snd (run_marks X (DoRejected msg # ms) ir)) = 1 \<and>
    attempts (cs @ snd (run_marks X (DoRejected msg # ms) ir)) = 1 \<and>
    HasCompleted X (fst (run_marks X (DoRejected msg # ms) ir))"
proof -
  have nc: "\<not> HasCompleted X ir" by (rule conditions_api.running_not_completed[OF assms(1,3)])
  have dn: "HasCompleted X (fst (MarkRejected X msg ir))"
    by (rule conditions_api.completed_after_failed(2)[OF assms(1) nc])
  have "run_marks X ms (fst (MarkRejected X msg ir)) = (fst (MarkRejected X msg ir), [])"
    using dn by (induction ms) (simp_all add: apply_mark_completed)
  then have "run_marks X (DoRejected msg # ms) ir = MarkRejected X msg ir"
    by (cases "MarkRejected X msg ir") simp
  then show ?thesis
    using assms(2,3) nc dn mark_calls(2)[OF nc, of msg] by (simp add: balanced_def)
qed

end
