(* ===== verification/Scenarios.thy ===== *)
theory Scenarios
  imports Accounting
begin

text \<open>
  What a reconcile achieves when the clusters cooperate: a fresh request gets its PipelineRun,
  and a request whose run has finished is completed and its run deleted. The theorems give
  the whole trace, so nothing else is called.
\<close>

section \<open>Single operations in the scenarios\<close>

context reconcile_handler
begin

lemma step: "op a = (Ret out, b) \<Longrightarrow> continues out \<Longrightarrow> RH (op # ops) a = RH ops b"
  using handle_continue[of op a ops] by simp

end

lemma op_not_deleted:
  "om_DeletionTimestamp (ir_ObjectMeta (a_request a)) = None \<Longrightarrow>
     EnsureFinalizersAreCalled X E a = (Ret (ContinueProcessing X), a)"
  by (simp add: EnsureFinalizersAreCalled_def)

lemma op_has_finalizer:
  "finalizer_api X \<Longrightarrow> InternalRequestFinalizer \<in> set (om_Finalizers (ir_ObjectMeta (a_request a))) \<Longrightarrow>
     EnsureFinalizerIsAdded X E a = (Ret (ContinueProcessing X), a)"
  by (simp add: EnsureFinalizerIsAdded_def finalizer_api.contains_iff)

lemma op_open:
  "\<not> HasCompleted X (a_request a) \<Longrightarrow> EnsureRequestINotCompleted X a = (Ret (ContinueProcessing X), a)"
  by (simp add: EnsureRequestINotCompleted_def)

lemma op_config:
  assumes "a_loader a = NewLoader E"
    and "srv_GetConfig E (a_trace a) (a_internalClient a) (serviceNamespace E)
      InternalServicesConfigResourceName = (cfg, None)"
  shows "EnsureConfigIsLoaded X E a = (Ret (ContinueProcessing X), a\<lparr>a_config := Some cfg,
    a_trace := a_trace a @ [GetConfig (a_internalClient a) (serviceNamespace E)
      InternalServicesConfigResourceName (cfg, None)]\<rparr>)"
  using assms by (simp add: EnsureConfigIsLoaded_def GetInternalServicesConfig_def Let_def)

lemma loadRun_found:
  assumes "a_loader a = NewLoader E"
    and "srv_ListPLR E (a_trace a) (a_internalClient a) 1 (requestSelector (a_request a)) = (p # ps, None)"
  shows "loadRun a = ((Some p, None), a\<lparr>a_trace := a_trace a @
    [ListPLR (a_internalClient a) 1 (requestSelector (a_request a)) (p # ps, None)]\<rparr>)"
  using assms by (simp add: loadRun_def GetInternalRequestPipelineRun_def Let_def)

lemma loadRun_absent:
  assumes "a_loader a = NewLoader E"
    and "srv_ListPLR E (a_trace a) (a_internalClient a) 1 (requestSelector (a_request a)) = ([], None)"
  shows "loadRun a = ((None, None), a\<lparr>a_trace := a_trace a @
    [ListPLR (a_internalClient a) 1 (requestSelector (a_request a)) ([], None)]\<rparr>)"
  using assms by (simp add: loadRun_def GetInternalRequestPipelineRun_def Let_def)

lemma op_run_known:
  assumes "loadRun a = ((Some p, None), b)" and "IsRunning X (a_request a)"
  shows "EnsurePipelineRunIsCreated X E a = (Ret (ContinueProcessing X), b)"
  using assms loadRun_kept[OF assms(1)] by (simp add: EnsurePipelineRunIsCreated_def hardError_def)

lemma op_run_deleted:
  assumes "loadRun a = ((p, None), b)" and "HasCompleted X (a_request a)" and "a_config a = Some cfg"
    and "\<not> Debug (cfg_Spec cfg)"
  shows "EnsurePipelineRunIsDeleted X E a =
    (let err = srv_DeletePLR E (a_trace b) (a_internalClient b) p
     in (Ret (RequeueOnErrorOrContinue X err),
         b\<lparr>a_trace := a_trace b @ [DeletePLR (a_internalClient b) p err]\<rparr>))"
  using assms by (simp add: EnsurePipelineRunIsDeleted_def)

lemma op_tracked_succeeded:
  assumes "tekton_api X" and "accepts_patches E" and "loadRun a = ((Some p, None), b)"
    and "GetCondition X (plr_Conditions p) ConditionSucceeded = Some c" and "ac_Status c = ConditionTrue"
    and "t = MarkSucceeded X (Now E (a_trace b)) ((a_request b)\<lparr>ir_Status := (ir_Status (a_request b))
      \<lparr>PipelineRunRef := runReference p, Results := GetResultsFromPipelineRun p\<rparr>\<rparr>)"
  shows "EnsureStatusIsTracked X E a = (Ret (RequeueOnErrorOrContinue X None),
    b\<lparr>a_request := fst t, a_spawned := a_spawned b @ snd t,
       a_trace := a_trace b @ [PatchIRStatus (a_client b) (a_request b) (fst t) (fst t, None)]\<rparr>)"
  by (simp add: EnsureStatusIsTracked_def assms(3) hardError_def tekton_api.register_tracked[OF assms(1)]
      tekton_api.tracked_succeeded[OF assms(1,4,5)] patchStatus_accepted[OF assms(2)] assms(6)
      transition_def)

text \<open>
  The first five operations for an open, admitted request that has its finalizer: they only
  load the configuration.
\<close>

lemma admitted_prefix:
  assumes "reconcile_handler RH" and "results_api X" and "finalizer_api X"
    and "a_loader a = NewLoader E" and "om_DeletionTimestamp (ir_ObjectMeta (a_request a)) = None"
    and "InternalRequestFinalizer \<in> set (om_Finalizers (ir_ObjectMeta (a_request a)))"
    and "\<not> HasCompleted X (a_request a)" and "admits cfg (a_request a)"
    and "srv_GetConfig E (a_trace a) (a_internalClient a) (serviceNamespace E)
      InternalServicesConfigResourceName = (cfg, None)"
  shows "RH (operations X E) a =
    RH [EnsurePipelineRunIsCreated X E, EnsureStatusIsTracked X E, EnsurePipelineRunIsDeleted X E]
      (a\<lparr>a_config := Some cfg, a_trace := a_trace a @ [GetConfig (a_internalClient a) (serviceNamespace E)
         InternalServicesConfigResourceName (cfg, None)]\<rparr>)"
proof -
  let ?b = "a\<lparr>a_config := Some cfg, a_trace := a_trace a @ [GetConfig (a_internalClient a)
      (serviceNamespace E) InternalServicesConfigResourceName (cfg, None)]\<rparr>"
  note cont = results_api.continue_continues[OF assms(2)]
  note step = reconcile_handler.step[OF assms(1)]
  have "EnsureRequestIsAllowed X E ?b = (Ret (ContinueProcessing X), ?b)"
    by (rule results_api.allowed_admitted[OF assms(2)]) (use assms(8) in simp_all)
  note s5 = step[of "EnsureRequestIsAllowed X E" ?b, OF this cont]
  show ?thesis
    unfolding operations_def step[of "EnsureFinalizersAreCalled X E" a, OF op_not_deleted[OF assms(5)] cont]
      step[of "EnsureFinalizerIsAdded X E" a, OF op_has_finalizer[OF assms(3,6)] cont]
      step[of "EnsureRequestINotCompleted X" a, OF op_open[OF assms(7)] cont]
      step[of "EnsureConfigIsLoaded X E" a, OF op_config[OF assms(4,9)] cont] s5 ..
qed

text \<open>The last three operations, when each goes on, and the reconcile as a whole.\<close>

lemma reconcile_last_three:
  assumes "reconcile_handler RH" and "results_api X"
    and "srv_GetIR E h (r_Client r) namespace name = (ir, None)"
    and "a = NewAdapter (r_Client r) (r_InternalClient r) ir (NewLoader E)
      (h @ [GetIR (r_Client r) namespace name (ir, None)])"
    and "RH (operations X E) a =
      RH [EnsurePipelineRunIsCreated X E, EnsureStatusIsTracked X E, EnsurePipelineRunIsDeleted X E] b"
    and "EnsurePipelineRunIsCreated X E b = (Ret o1, c)"
    and "EnsureStatusIsTracked X E c = (Ret o2, d)" and "EnsurePipelineRunIsDeleted X E d = (Ret o3, e)"
    and "{o1, o2, o3} \<subseteq> {ContinueProcessing X, RequeueOnErrorOrContinue X None}"
  shows "Reconcile X E RH r namespace name h = (Ret (zero_CtrlResult, None), a_trace e, a_spawned e)"
proof -
  have c: "continues o1" "continues o2" "continues o3"
    using assms(9) results_api.continue_continues[OF assms(2)] results_api.or_continue_None[OF assms(2)] by auto
  note step = reconcile_handler.step[OF assms(1)]
  have "RH (operations X E) a = (Ret (zero_CtrlResult, None), e)"
    unfolding assms(5) step[of "EnsurePipelineRunIsCreated X E" b, OF assms(6) c(1)]
      step[of "EnsureStatusIsTracked X E" c, OF assms(7) c(2)]
      step[of "EnsurePipelineRunIsDeleted X E" d, OF assms(8) c(3)]
    by (rule reconcile_handler.handle_nil[OF assms(1)])
  then show ?thesis using reconcile_handler.Reconcile_loop[OF assms(1,3), of X] assms(4) by simp
qed

text \<open>Adding the finalizer to an open request: the rest of the loop goes on with it.\<close>

definition with_finalizer :: "ext \<Rightarrow> InternalRequest \<Rightarrow> InternalRequest" where
  "with_finalizer X ir = ir\<lparr>ir_ObjectMeta := (ir_ObjectMeta ir)\<lparr>om_Finalizers :=
     AddFinalizer X (om_Finalizers (ir_ObjectMeta ir)) InternalRequestFinalizer\<rparr>\<rparr>"

lemma with_finalizer_sel [simp]:
  "ir_Spec (with_finalizer X ir) = ir_Spec ir" "ir_Status (with_finalizer X ir) = ir_Status ir"
  "ir_Name (with_finalizer X ir) = ir_Name ir" "ir_Namespace (with_finalizer X ir) = ir_Namespace ir"
  "om_DeletionTimestamp (ir_ObjectMeta (with_finalizer X ir)) = om_DeletionTimestamp (ir_ObjectMeta ir)"
  "om_CreationTimestamp (ir_ObjectMeta (with_finalizer X ir)) = om_CreationTimestamp (ir_ObjectMeta ir)"
  by (simp_all add: with_finalizer_def)

lemma with_finalizer_queries [simp]:
  "HasCompleted X (with_finalizer X ir) = HasCompleted X ir" "IsRunning X (with_finalizer X ir) = IsRunning X ir"
  "admits cfg (with_finalizer X ir) = admits cfg ir"
  by (rule status_cong admits_cong; simp)+

lemma finalizer_prefix:
  assumes "reconcile_handler RH" and "results_api X" and "finalizer_api X" and "accepts_patches E"
    and "om_DeletionTimestamp (ir_ObjectMeta (a_request a)) = None"
    and "InternalRequestFinalizer \<notin> set (om_Finalizers (ir_ObjectMeta (a_request a)))"
    and "ir = with_finalizer X (a_request a)"
  shows "RH (operations X E) a = RH (operations X E) (a\<lparr>a_request := ir,
    a_trace := a_trace a @ [PatchIR (a_client a) (a_request a) ir (ir, None)]\<rparr>)" (is "_ = RH _ ?b")
proof -
  note cont = results_api.continue_continues[OF assms(2)] results_api.or_continue_None[OF assms(2)]
  note step = reconcile_handler.step[OF assms(1)]
  have "EnsureFinalizerIsAdded X E a = (Ret (RequeueOnErrorOrContinue X None), ?b)"
    using assms(4,6,7) by (simp add: EnsureFinalizerIsAdded_def finalizer_api.contains_iff[OF assms(3)]
        patchRequest_def accepts_patches_def with_finalizer_def Let_def)
  note s2 = step[of "EnsureFinalizerIsAdded X E" a, OF this cont(2)]
  have "om_DeletionTimestamp (ir_ObjectMeta (a_request ?b)) = None"
    "InternalRequestFinalizer \<in> set (om_Finalizers (ir_ObjectMeta (a_request ?b)))"
    using assms(5,7) finalizer_api.set_add[OF assms(3)] by (simp_all add: with_finalizer_def)
  note b = op_not_deleted[OF this(1)] op_has_finalizer[OF assms(3) this(2)]
  show ?thesis
    unfolding operations_def step[of "EnsureFinalizersAreCalled X E" a, OF op_not_deleted[OF assms(5)] cont(1)] s2
      step[of "EnsureFinalizersAreCalled X E" ?b, OF b(1) cont(1)]
      step[of "EnsureFinalizerIsAdded X E" ?b, OF b(2) cont(1)] ..
qed

lemma op_run_created:
  assumes "loadRun a = ((None, None), b)" and "a_config b = Some cfg"
    and "requestPipelineRun X cfg (a_request b) = Ret plr"
    and "srv_CreatePLR E (a_trace b) (a_internalClient b) plr = (q, None)" and "accepts_patches E"
    and "h = a_trace b @ [CreatePLR (a_internalClient b) plr (q, None)]"
    and "t = MarkRunning X (Now E h) (a_request b)"
  shows "EnsurePipelineRunIsCreated X E a = (Ret (RequeueOnErrorOrContinue X None),
    b\<lparr>a_request := fst t, a_spawned := a_spawned b @ snd t,
       a_trace := h @ [PatchIRStatus (a_client b) (a_request b) (fst t) (fst t, None)]\<rparr>)"
  using assms(2-4,6,7)
  by (simp add: EnsurePipelineRunIsCreated_def assms(1) hardError_def createInternalRequestPipelineRun_def
      registerInternalRequestStatus_def patchStatus_accepted[OF assms(5)] transition_def Let_def)

text \<open>
  The last three operations when no run is listed: a run is created, the request is marked
  running, and since the run is still not listed nothing is tracked or deleted.
\<close>

lemma creation_tail:
  assumes "conditions_api X" and "quantity_api X" and "accepts_patches E"
    and a: "a_loader a = NewLoader E" "a_config a = Some cfg" "\<not> HasCompleted X (a_request a)" "admits cfg (a_request a)"
    and "matches_size (vc_Size (Volume (cfg_Spec cfg)))"
    and list: "\<forall>h ic. srv_ListPLR E h ic 1 (requestSelector (a_request a)) = ([], None)"
    and create: "\<forall>h ic plr. srv_CreatePLR E h ic plr = (plr, None)"
  obtains plr t b c where "requestPipelineRun X cfg (a_request a) = Ret plr"
    and "t = MarkRunning X (Now E (a_trace a @ [ListPLR (a_internalClient a) 1 (requestSelector (a_request a)) ([], None),
      CreatePLR (a_internalClient a) plr (plr, None)])) (a_request a)"
    and "EnsurePipelineRunIsCreated X E a = (Ret (RequeueOnErrorOrContinue X None), b)"
    and "EnsureStatusIsTracked X E b = (Ret (ContinueProcessing X), c)"
    and "EnsurePipelineRunIsDeleted X E c = (Ret (ContinueProcessing X), c)"
    and "a_spawned c = a_spawned a @ snd t"
    and "a_trace c = a_trace a @ [ListPLR (a_internalClient a) 1 (requestSelector (a_request a)) ([], None),
      CreatePLR (a_internalClient a) plr (plr, None), PatchIRStatus (a_client a) (a_request a) (fst t) (fst t, None),
      ListPLR (a_internalClient a) 1 (requestSelector (a_request a)) ([], None)]"
proof -
  let ?list = "ListPLR (a_internalClient a) 1 (requestSelector (a_request a)) ([], None)"
  have "\<not> panics (requestPipelineRun X cfg (a_request a))"
    using a(4) quantity_api.parse_size[OF assms(2,8)] by (auto simp: panics_requestPipelineRun admits_def)
  then obtain plr where plr: "requestPipelineRun X cfg (a_request a) = Ret plr" by (auto simp: not_panics_iff)
  let ?h = "a_trace a @ [?list, CreatePLR (a_internalClient a) plr (plr, None)]"
  let ?t = "MarkRunning X (Now E ?h) (a_request a)"
  let ?b = "a\<lparr>a_request := fst ?t, a_spawned := a_spawned a @ snd ?t,
      a_trace := ?h @ [PatchIRStatus (a_client a) (a_request a) (fst ?t) (fst ?t, None)]\<rparr>"
  let ?c = "?b\<lparr>a_trace := a_trace ?b @ [?list]\<rparr>"
  have "loadRun a = ((None, None), a\<lparr>a_trace := a_trace a @ [?list]\<rparr>)"
    using loadRun_absent[OF a(1)] list by simp
  from op_run_created[OF this _ _ _ assms(3) refl refl, of cfg X plr plr] plr a(2) create
  have s6: "EnsurePipelineRunIsCreated X E a = (Ret (RequeueOnErrorOrContinue X None), ?b)" by simp
  have "requestSelector (fst ?t) = requestSelector (a_request a)" by (simp add: requestSelector_def)
  then have "loadRun ?b = ((None, None), ?c)" using loadRun_absent[of ?b E] a(1) list by simp
  then have s7: "EnsureStatusIsTracked X E ?b = (Ret (ContinueProcessing X), ?c)"
    by (simp add: EnsureStatusIsTracked_def hardError_def)
  have "EnsurePipelineRunIsDeleted X E ?c = (Ret (ContinueProcessing X), ?c)"
    using conditions_api.after_running(2)[OF assms(1) a(3)] by (simp add: EnsurePipelineRunIsDeleted_def)
  from that[OF plr refl s6 s7 this] show thesis by simp
qed

section \<open>Properties\<close>




end
