(* ===== verification/Operation_Properties.thy ===== *)
theory Operation_Properties
  imports Scenarios
begin

text \<open>
  Further properties of single operations and of the event filter, and the reconcile of a
  request whose run is still open.
\<close>

section \<open>Event filter\<close>

lemma run_marks_meta: "ir_ObjectMeta (fst (run_marks X ms ir)) = ir_ObjectMeta ir"
proof (induction ms arbitrary: ir)
  case (Cons m ms)
  have "ir_ObjectMeta (fst (apply_mark X m ir)) = ir_ObjectMeta ir" by (cases m) simp_all
  with Cons[of "fst (apply_mark X m ir)"] show ?case by (auto split: prod.splits)
qed simp

text \<open>
  The operator does not wake itself up. No sequence of status transitions of a request, and
  neither adding nor removing its finalizer, passes the filter on updates; marking the
  request for deletion does.
\<close>

lemma own_writes_filtered:
  assumes "om_DeletionTimestamp (ir_ObjectMeta ir) = None"
  shows "\<not> remoteRequestFilter (UpdateEvent ir (fst (run_marks X ms ir))) \<and>
    \<not> remoteRequestFilter (UpdateEvent ir
        (ir\<lparr>ir_ObjectMeta := (ir_ObjectMeta ir)\<lparr>om_Finalizers := fs\<rparr>\<rparr>)) \<and>
    remoteRequestFilter (UpdateEvent ir
        (ir\<lparr>ir_ObjectMeta := (ir_ObjectMeta ir)\<lparr>om_DeletionTimestamp := Some t\<rparr>\<rparr>))"
  using assms by (simp add: run_marks_meta)

section \<open>Single operations\<close>

text \<open>
  The finalizer is ensured. After the operation, if its patch is accepted, the request has
  the finalizer, all the finalizers it had before are still there, and running the operation
  again makes no call.
\<close>

lemma finalizer_ensured:
  assumes "finalizer_api X" and "accepts_patches E"
    and "b = snd (EnsureFinalizerIsAdded X E a)"
  shows "set (om_Finalizers (ir_ObjectMeta (a_request b))) =
      insert InternalRequestFinalizer (set (om_Finalizers (ir_ObjectMeta (a_request a)))) \<and>
    EnsureFinalizerIsAdded X E b = (Ret (ContinueProcessing X), b)"
proof -
  have s: "set (om_Finalizers (ir_ObjectMeta (a_request b))) =
      insert InternalRequestFinalizer (set (om_Finalizers (ir_ObjectMeta (a_request a))))"
    using assms(2,3) finalizer_api.contains_iff[OF assms(1)] finalizer_api.set_add[OF assms(1)]
    by (auto simp: EnsureFinalizerIsAdded_def patchRequest_def accepts_patches_def Let_def)
  then show ?thesis using op_has_finalizer[OF assms(1), of b E] by simp
qed

text \<open>
  A missing configuration denies. When the configuration is not found in the service
  namespace, the reconcile goes on with the default one, and that admits no request.
\<close>

lemma missing_config_denies:
  assumes "results_api X" and "a_loader a = NewLoader E"
    and "srv_GetConfig E (a_trace a) (a_internalClient a) (serviceNamespace E)
      InternalServicesConfigResourceName = (cfg, Some e)" and "IsNotFound X e"
    and "b = snd (EnsureConfigIsLoaded X E a)"
  shows "proceeds (EnsureConfigIsLoaded X E a) \<and>
    a_config b = Some (getDefaultInternalServicesConfig (serviceNamespace E)) \<and>
    \<not> proceeds (EnsureRequestIsAllowed X E b)"
proof -
  have c: "EnsureConfigIsLoaded X E a = (Ret (ContinueProcessing X), b)"
    "a_config b = Some (getDefaultInternalServicesConfig (serviceNamespace E))"
    using assms(2-5) by (simp_all add: EnsureConfigIsLoaded_def GetInternalServicesConfig_def Let_def)
  have "AllowList (cfg_Spec (getDefaultInternalServicesConfig (serviceNamespace E))) = []"
    by (simp add: getDefaultInternalServicesConfig_def zero_InternalServicesConfigSpec_def)
  with c show ?thesis
    using empty_allow_list_denies[OF assms(1) c(2)] results_api.continue_continues[OF assms(1)] by simp
qed

text \<open>
  A failing read of the configuration, other than not found, ends the reconcile with that
  error before anything is admitted.
\<close>

lemma config_error_stops:
  assumes "reconcile_handler RH" and "results_api X" and "a_loader a = NewLoader E"
    and "srv_GetConfig E (a_trace a) (a_internalClient a) (serviceNamespace E)
      InternalServicesConfigResourceName = (cfg, Some e)" and "\<not> IsNotFound X e"
  shows "\<exists>cr. RH (EnsureConfigIsLoaded X E # ops) a =
    (Ret (cr, Some e), a\<lparr>a_config := Some cfg, a_trace := a_trace a @
      [GetConfig (a_internalClient a) (serviceNamespace E) InternalServicesConfigResourceName (cfg, Some e)]\<rparr>)"
proof -
  have "EnsureConfigIsLoaded X E a = (Ret (RequeueWithError X e), a\<lparr>a_config := Some cfg,
      a_trace := a_trace a @ [GetConfig (a_internalClient a) (serviceNamespace E)
        InternalServicesConfigResourceName (cfg, Some e)]\<rparr>)"
    using assms(3-5) by (simp add: EnsureConfigIsLoaded_def GetInternalServicesConfig_def Let_def)
  then show ?thesis
    using reconcile_handler.handle_error[OF assms(1), of "EnsureConfigIsLoaded X E" a _ e ops]
      results_api.error_fails[OF assms(2)] by simp
qed

text \<open>
  Deletion of a run that is not there. When a completed request has no PipelineRun any
  more, the operation that deletes runs still calls the cluster, with a nil object.
\<close>

lemma deletes_absent_run:
  assumes "a_loader a = NewLoader E" and "HasCompleted X (a_request a)" and "a_config a = Some cfg"
    and "\<not> Debug (cfg_Spec cfg)"
    and "srv_ListPLR E (a_trace a) (a_internalClient a) 1 (requestSelector (a_request a)) = ([], None)"
  shows "\<exists>err. a_trace (snd (EnsurePipelineRunIsDeleted X E a)) = a_trace a @
    [ListPLR (a_internalClient a) 1 (requestSelector (a_request a)) ([], None),
     DeletePLR (a_internalClient a) None err]"
  using op_run_deleted[OF loadRun_absent[OF assms(1,5)] assms(2,3,4), of E] by (simp add: Let_def)

section \<open>An open run\<close>

lemma op_tracked_open:
  assumes "tekton_api X" and "accepts_patches E" and "loadRun a = ((Some p, None), b)" and "\<not> IsDone X p"
    and "ir = (a_request b)\<lparr>ir_Status := (ir_Status (a_request b))\<lparr>PipelineRunRef := runReference p\<rparr>\<rparr>"
  shows "EnsureStatusIsTracked X E a = (Ret (RequeueOnErrorOrContinue X None),
    b\<lparr>a_request := ir, a_trace := a_trace b @ [PatchIRStatus (a_client b) (a_request b) ir (ir, None)]\<rparr>)"
  by (simp add: EnsureStatusIsTracked_def assms(3,5) hardError_def tekton_api.register_tracked[OF assms(1)]
      tekton_api.tracked_open[OF assms(1,4)] patchStatus_accepted[OF assms(2)])


end
