(* ===== verification/Run_Creation.thy ===== *)
theory Run_Creation
  imports Admission
begin

text \<open>
  When and which PipelineRuns a reconcile creates: at most one, only when none was found,
  only for an admitted request, and with the labels, owner and account that tie it to the
  request.
\<close>

section \<open>Admission read off the PipelineRun itself\<close>

definition runURL :: "TektonParam list \<Rightarrow> string" where
  "runURL ps = (case find (\<lambda>p. tp_Name p = ''url'') ps of None \<Rightarrow> [] | Some p \<Rightarrow> pv_StringVal (tp_Value p))"

definition run_admitted :: "InternalServicesConfig \<Rightarrow> PipelineRun \<Rightarrow> bool" where
  "run_admitted cfg plr \<longleftrightarrow>
     plr_Namespace plr = om_Namespace (cfg_ObjectMeta cfg) \<and>
     (\<exists>ns\<in>set (AllowList (cfg_Spec cfg)). fmlookup (plr_Labels plr) InternalRequestNamespaceLabel = Some ns) \<and>
     account_admitted cfg (prs_ServiceAccountName (plr_Spec plr)) \<and>
     (\<exists>ref. prs_PipelineRef (plr_Spec plr) = Some ref \<and>
        (tpr_Resolver ref = ''git'' \<longrightarrow> AllowedGitResolverURLs (cfg_Spec cfg) \<noteq> [] \<longrightarrow>
         runURL (tpr_Params ref) \<in> set (AllowedGitResolverURLs (cfg_Spec cfg))))"

lemma find_toTekton:
  "find (\<lambda>p. tp_Name p = n) (map toTektonParam ps) = map_option toTektonParam (find (\<lambda>p. p_Name p = n) ps)"
  by (induction ps) auto

lemma runURL_toTekton: "runURL (map toTektonParam ps) = firstURL ps"
  by (simp add: runURL_def firstURL_def find_toTekton split: option.splits)

context owner_api
begin

lemma admitted_run:
  assumes "requestPipelineRun X cfg ir = Ret plr" and "admits cfg ir"
  shows "run_admitted cfg plr"
proof -
  from assms(2) obtain p where p: "s_Pipeline (ir_Spec ir) = Some p" "url_admitted cfg p"
    by (auto simp: admits_def)
  note m = requestPipelineRun_meta[OF assms(1)]
  from assms(1) show ?thesis
    by (rule requestPipelineRun_spec)
      (use p m assms(2) in \<open>auto simp: run_admitted_def admits_def url_admitted_def Let_def
        fmlookup_requestLabels runURL_toTekton\<close>)
qed

end

section \<open>What the operation creates\<close>

lemma filter_reads [simp]: "local_reads a es \<Longrightarrow> filter creates_run es = []"
  by (auto simp: local_reads_def filter_empty_conv)

lemma register_creates:
  "registerInternalRequestStatus X E p a = (err, a') \<Longrightarrow>
     filter creates_run (a_trace a') = filter creates_run (a_trace a)"
  using grows_filter[OF grows_register[of a X E p], of creates_run] by (simp add: writes_disjoint)

text \<open>
  The creations an operation adds, as a function of the adapter before and after.
\<close>

definition created_by :: "ext \<Rightarrow> Adapter \<Rightarrow> event list \<Rightarrow> bool" where
  "created_by X a new \<longleftrightarrow>
     new = [] \<or>
     (\<exists>cfg plr res. new = [CreatePLR (a_internalClient a) plr res] \<and> a_config a = Some cfg \<and>
        requestPipelineRun X cfg (a_request a) = Ret plr \<and> fst (fst (loadRun a)) = None)"

lemma create_events:
  "(\<exists>e. createInternalRequestPipelineRun X E a = (Panic e, a)) \<or>
   (\<exists>cfg plr res out. a_config a = Some cfg \<and> requestPipelineRun X cfg (a_request a) = Ret plr \<and>
      createInternalRequestPipelineRun X E a =
        (Ret out, a\<lparr>a_trace := a_trace a @ [CreatePLR (a_internalClient a) plr res]\<rparr>))"
  by (auto simp: createInternalRequestPipelineRun_def Let_def split: option.splits go.splits)
    (metis prod.collapse)

lemma run_created_events:
  assumes "object_loader (a_loader a)"
  shows "\<exists>new. filter creates_run (a_trace (snd (EnsurePipelineRunIsCreated X E a))) =
      filter creates_run (a_trace a) @ new \<and> created_by X a new"
proof -
  obtain p err es where l: "loadRun a = ((p, err), a\<lparr>a_trace := a_trace a @ es\<rparr>)" "local_reads a es"
    using object_loader.loadRun_reads[OF assms] by blast
  let ?a1 = "a\<lparr>a_trace := a_trace a @ es\<rparr>"
  show ?thesis
  proof (cases "p = None \<and> hardError X err = None")
    case False
    then have "filter creates_run (a_trace (snd (EnsurePipelineRunIsCreated X E a))) =
        filter creates_run (a_trace a)"
      using l by (auto simp: EnsurePipelineRunIsCreated_def Let_def
          split: option.splits prod.splits dest!: register_creates)
    then show ?thesis by (intro exI[of _ "[]"]) (simp add: created_by_def)
  next
    case True
    consider e where "createInternalRequestPipelineRun X E ?a1 = (Panic e, ?a1)"
      | cfg plr res out where "a_config a = Some cfg" "requestPipelineRun X cfg (a_request a) = Ret plr"
        "createInternalRequestPipelineRun X E ?a1 =
          (Ret out, a\<lparr>a_trace := (a_trace a @ es) @ [CreatePLR (a_internalClient a) plr res]\<rparr>)"
      using create_events[of X E ?a1] by auto
    then show ?thesis
    proof cases
      case 1
      with True l show ?thesis
        by (intro exI[of _ "[]"]) (simp add: EnsurePipelineRunIsCreated_def Let_def created_by_def)
    next
      case 2
      let ?ev = "CreatePLR (a_internalClient a) plr res"
      let ?a2 = "a\<lparr>a_trace := (a_trace a @ es) @ [?ev]\<rparr>"
      have "filter creates_run (a_trace (snd (EnsurePipelineRunIsCreated X E a))) =
          filter creates_run (a_trace a) @ [?ev]"
        using True l 2 by (cases out) (auto simp: EnsurePipelineRunIsCreated_def Let_def
            split: option.splits prod.splits dest!: register_creates)
      moreover have "created_by X a [?ev]"
        using 2 True l by (simp add: created_by_def)
      ultimately show ?thesis by blast
    qed
  qed
qed

section \<open>What a reconcile creates\<close>

text \<open>
  \<open>justified E ic T new\<close>: \<open>new\<close> is at most one creation, through the client \<open>ic\<close>, of a run that
  a configuration admits which the calls \<open>T\<close> read from the cluster.
\<close>

definition config_read :: "env \<Rightarrow> event set \<Rightarrow> InternalServicesConfig \<Rightarrow> bool" where
  "config_read E T cfg \<longleftrightarrow>
     (\<exists>c ns n h. GetConfig c ns n (cfg, None) \<in> T \<and> srv_GetConfig E h c ns n = (cfg, None))"

definition justified :: "env \<Rightarrow> client \<Rightarrow> event set \<Rightarrow> event list \<Rightarrow> bool" where
  "justified E ic T new \<longleftrightarrow>
     new = [] \<or>
     (\<exists>cfg plr res. new = [CreatePLR ic plr res] \<and> run_admitted cfg plr \<and> config_read E T cfg)"

lemma justified_mono: "justified E ic T new \<Longrightarrow> T \<subseteq> T' \<Longrightarrow> justified E ic T' new"
  by (auto simp: justified_def config_read_def)

text \<open>The calls made since the trace had length \<open>n\<close>.\<close>

definition recent :: "nat \<Rightarrow> Adapter \<Rightarrow> event set" where
  "recent n a = set (drop n (a_trace a))"

lemma grows_recent: "grows K a b \<Longrightarrow> recent n a \<subseteq> recent n b"
  by (auto simp: grows_def recent_def)

text \<open>The states before the creation, after the load of the configuration, after admission, and after.\<close>

definition quiet :: "env \<Rightarrow> client \<Rightarrow> trace \<Rightarrow> Adapter \<Rightarrow> bool" where
  "quiet E ic h a \<longleftrightarrow>
     a_loader a = NewLoader E \<and> a_internalClient a = ic \<and> length h \<le> length (a_trace a) \<and>
     filter creates_run (a_trace a) = filter creates_run h"

definition configured :: "env \<Rightarrow> trace \<Rightarrow> Adapter \<Rightarrow> bool" where
  "configured E h a \<longleftrightarrow> (\<exists>cfg. a_config a = Some cfg \<and>
     (AllowList (cfg_Spec cfg) = [] \<or> config_read E (recent (length h) a) cfg))"

definition admitted :: "env \<Rightarrow> trace \<Rightarrow> Adapter \<Rightarrow> bool" where
  "admitted E h a \<longleftrightarrow> (\<exists>cfg. a_config a = Some cfg \<and> admits cfg (a_request a) \<and> config_read E (recent (length h) a) cfg)"

definition created :: "env \<Rightarrow> client \<Rightarrow> trace \<Rightarrow> Adapter \<Rightarrow> bool" where
  "created E ic h a \<longleftrightarrow> a_loader a = NewLoader E \<and> a_internalClient a = ic \<and>
     (\<exists>new. filter creates_run (a_trace a) = filter creates_run h @ new \<and>
        justified E ic (recent (length h) a) new)"

lemma quiet_created: "quiet E ic h a \<Longrightarrow> created E ic h a"
  by (auto simp: quiet_def created_def justified_def)

lemma quiet_op:
  assumes "operation_contract op K" and "\<And>e. K e \<Longrightarrow> \<not> creates_run e" and "quiet E ic h a"
  shows "quiet E ic h (snd (op a))"
proof -
  have g: "grows K a (snd (op a))"
    using assms(1,3) cluster_loader.object_loader_axioms
    by (auto simp: operation_contract_def quiet_def)
  then show ?thesis
    using grows_filter[OF g assms(2)] assms(3) by (auto simp: quiet_def grows_def)
qed

lemma created_op:
  assumes "operation_contract op K" and "\<And>e. K e \<Longrightarrow> \<not> creates_run e" and "created E ic h a"
  shows "created E ic h (snd (op a))"
proof -
  have g: "grows K a (snd (op a))"
    using assms(1,3) cluster_loader.object_loader_axioms
    by (auto simp: operation_contract_def created_def)
  then show ?thesis
    using grows_filter[OF g assms(2)] grows_recent[OF g, of "length h"] assms(3) justified_mono
    by (auto simp: created_def grows_def)
qed

lemma spec_quiet:
  "operation_contract op K \<Longrightarrow> (\<And>e. K e \<Longrightarrow> \<not> creates_run e) \<Longrightarrow>
     spec (quiet E ic h) op (quiet E ic h) (\<lambda>_. created E ic h)"
  using quiet_op quiet_created by (blast intro: specI)

lemma spec_created:
  "operation_contract op K \<Longrightarrow> (\<And>e. K e \<Longrightarrow> \<not> creates_run e) \<Longrightarrow>
     spec (created E ic h) op (created E ic h) (\<lambda>_. created E ic h)"
  using created_op by (blast intro: specI)

lemma configured_after_load:
  assumes "results_api X" and "quiet E ic h a" and "proceeds (EnsureConfigIsLoaded X E a)"
  shows "configured E h (snd (EnsureConfigIsLoaded X E a))"
  using assms(2,3) results_api.not_continues_simps(3)[OF assms(1)]
  by (auto simp: EnsureConfigIsLoaded_def GetInternalServicesConfig_def Let_def configured_def
      config_read_def recent_def quiet_def getDefaultInternalServicesConfig_def zero_InternalServicesConfigSpec_def
      split: option.splits prod.splits if_splits) blast+

lemma spec_config:
  assumes "results_api X"
  shows "spec (quiet E ic h) (EnsureConfigIsLoaded X E) (\<lambda>a. quiet E ic h a \<and> configured E h a)
     (\<lambda>_. created E ic h)"
proof (rule specI)
  fix a assume q: "quiet E ic h a"
  have q': "quiet E ic h (snd (EnsureConfigIsLoaded X E a))"
    using config_loaded.operation_contract_axioms _ q by (rule quiet_op) simp
  then show "created E ic h (snd (EnsureConfigIsLoaded X E a))" by (rule quiet_created)
  show "quiet E ic h (snd (EnsureConfigIsLoaded X E a)) \<and> configured E h (snd (EnsureConfigIsLoaded X E a))"
    if "proceeds (EnsureConfigIsLoaded X E a)"
    using q q' that by (simp add: configured_after_load[OF assms])
qed

lemma spec_allowed:
  assumes "results_api X"
  shows "spec (\<lambda>a. quiet E ic h a \<and> configured E h a) (EnsureRequestIsAllowed X E)
    (\<lambda>a. quiet E ic h a \<and> admitted E h a) (\<lambda>_. created E ic h)"
proof (rule specI)
  fix a assume q: "quiet E ic h a \<and> configured E h a"
  show "created E ic h (snd (EnsureRequestIsAllowed X E a))"
    using q quiet_op[OF request_allowed.operation_contract_axioms, of E ic h a X E]
    by (auto simp: writes_disjoint intro: quiet_created)
  assume "proceeds (EnsureRequestIsAllowed X E a)"
  then show "quiet E ic h (snd (EnsureRequestIsAllowed X E a)) \<and> admitted E h (snd (EnsureRequestIsAllowed X E a))"
    using q results_api.allowed_proceeds_admits[OF assms]
    by (fastforce simp: configured_def admitted_def admits_def)
qed

lemma spec_create:
  assumes "owner_api X"
  shows "spec (\<lambda>a. quiet E ic h a \<and> admitted E h a) (EnsurePipelineRunIsCreated X E)
    (created E ic h) (\<lambda>_. created E ic h)"
proof (rule spec_post)
  fix a assume q: "quiet E ic h a \<and> admitted E h a"
  then have ol: "object_loader (a_loader a)"
    using cluster_loader.object_loader_axioms by (simp add: quiet_def)
  then have g: "grows (\<lambda>e. is_read e \<or> creates_run e \<or> patches_status e) a
      (snd (EnsurePipelineRunIsCreated X E a))"
    by (rule run_created.op_grows)
  obtain new where n: "filter creates_run (a_trace (snd (EnsurePipelineRunIsCreated X E a))) =
      filter creates_run (a_trace a) @ new" "created_by X a new"
    using run_created_events[OF ol] by blast
  obtain cfg where c: "a_config a = Some cfg" "admits cfg (a_request a)" "config_read E (recent (length h) a) cfg"
    using q by (auto simp: admitted_def)
  have "justified E ic (recent (length h) a) new"
    using n(2) c q owner_api.admitted_run[OF assms]
    by (auto simp: created_by_def justified_def quiet_def)
  then show "created E ic h (snd (EnsurePipelineRunIsCreated X E a))"
    using n(1) q g justified_mono[OF _ grows_recent[OF g, of "length h"]]
    by (auto simp: created_def quiet_def grows_def)
qed

lemma reconcile_creations:
  assumes "reconcile_handler RH" and "results_api X" and "owner_api X"
    and "Reconcile X E RH r namespace name h = (res, h', calls)"
  shows "\<exists>new. filter creates_run h' = filter creates_run h @ new \<and>
    justified E (r_InternalClient r) (set (drop (length h) h')) new"
proof -
  obtain ir err where g: "srv_GetIR E h (r_Client r) namespace name = (ir, err)" by fastforce
  show ?thesis
  proof (cases err)
    case (Some e)
    with assms(4) g reconcile_handler.Reconcile_no_request[OF assms(1)] show ?thesis
      by (auto simp: justified_def)
  next
    case None
    let ?ic = "r_InternalClient r"
    let ?a = "NewAdapter (r_Client r) ?ic ir (NewLoader E)
      (h @ [GetIR (r_Client r) namespace name (ir, None)])"
    have "created E ?ic h (snd (RH (operations X E) ?a))"
    proof (rule reconcile_handler.reconcile_rule[OF assms(1), where Q = "\<lambda>_. created E ?ic h"])
      show "quiet E ?ic h ?a" by (simp add: quiet_def NewAdapter_def)
    qed (rule spec_quiet[OF finalizers_called.operation_contract_axioms]
          spec_quiet[OF finalizer_added.operation_contract_axioms]
          spec_quiet[OF request_not_completed.operation_contract_axioms]
          spec_config[OF assms(2)] spec_allowed[OF assms(2)] spec_create[OF assms(3)]
          spec_created[OF status_tracked.operation_contract_axioms]
          spec_created[OF run_deleted.operation_contract_axioms];
        auto simp: writes_disjoint)+
    then show ?thesis
      using assms(4) g None reconcile_handler.Reconcile_loop[OF assms(1), of E h r namespace name ir X]
      by (auto simp: created_def recent_def Let_def)
  qed
qed

section \<open>Properties\<close>

text \<open>
  C7: whatever the clusters answer, a reconcile creates at most one PipelineRun, through the
  client of the local cluster, and only one that a configuration it has just read admits:
  the run is in the namespace of the configuration, its request namespace is in the allow
  list, its service account and its git URL are allowed.
\<close>

theorem reconcile_creates_admitted:
  assumes "reconcile_handler RH" and "results_api X" and "owner_api X"
    and "Reconcile X E RH r namespace name h = (res, h', calls)"
  shows "filter creates_run h' = filter creates_run h \<or>
    (\<exists>cfg plr ans c ns n. filter creates_run h' = filter creates_run h @ [CreatePLR (r_InternalClient r) plr ans] \<and>
       GetConfig c ns n (cfg, None) \<in> set (drop (length h) h') \<and> run_admitted cfg plr)"
proof -
  obtain new where new: "filter creates_run h' = filter creates_run h @ new"
    and "justified E (r_InternalClient r) (set (drop (length h) h')) new"
    using reconcile_creations[OF assms] by blast
  then consider "new = []" | cfg plr ans c ns n where "new = [CreatePLR (r_InternalClient r) plr ans]"
    "GetConfig c ns n (cfg, None) \<in> set (drop (length h) h')" "run_admitted cfg plr"
    unfolding justified_def config_read_def by blast
  then show ?thesis
  proof cases
    case 1
    with new show ?thesis by simp
  next
    case 2
    with new show ?thesis by blast
  qed
qed

text \<open>
  C28: without an allow list nothing runs. If no configuration the local cluster answers with
  has an entry in its allow list, or the configuration is missing, no reconcile creates a
  PipelineRun.
\<close>

theorem no_allow_list_no_runs:
  assumes "reconcile_handler RH" and "results_api X" and "owner_api X"
    and "\<forall>h c ns n cfg. srv_GetConfig E h c ns n = (cfg, None) \<longrightarrow> AllowList (cfg_Spec cfg) = []"
    and "Reconcile X E RH r namespace name h = (res, h', calls)"
  shows "filter creates_run h' = filter creates_run h"
proof -
  obtain new where "filter creates_run h' = filter creates_run h @ new"
    and j: "justified E (r_InternalClient r) (set (drop (length h) h')) new"
    using reconcile_creations[OF assms(1,2,3,5)] by blast
  moreover have "new = []"
    using j assms(4) by (fastforce simp: justified_def config_read_def run_admitted_def)
  ultimately show ?thesis by simp
qed

text \<open>
  No second run. When the lookup finds a PipelineRun of the request, the operation that
  creates runs creates none.
\<close>

lemma no_second_run:
  assumes "a_loader a = NewLoader E"
    and "srv_ListPLR E (a_trace a) (a_internalClient a) 1 (requestSelector (a_request a)) = (p # ps, None)"
  shows "filter creates_run (a_trace (snd (EnsurePipelineRunIsCreated X E a))) =
    filter creates_run (a_trace a)"
proof -
  have "fst (fst (loadRun a)) = Some p"
    using assms by (simp add: loadRun_def GetInternalRequestPipelineRun_def Let_def)
  moreover have "object_loader (a_loader a)" using assms(1) cluster_loader.object_loader_axioms by simp
  ultimately show ?thesis using run_created_events[of a X E] by (auto simp: created_by_def)
qed

end
