(* ===== verification/Run_Shape.thy ===== *)
theory Run_Shape
  imports Reference
begin

text \<open>
  The PipelineRun built for a request: what it carries over from the request, that the
  lookups and event filters of the operator recognise it, and what is read back from it.
\<close>

section \<open>Lemmas\<close>

text \<open>\<open>main.go\<close>: the label selector of the manager's cache for PipelineRuns.\<close>

definition cacheSelector :: smap where
  "cacheSelector = fmupd PipelinesTypeLabel PipelineTypeRelease fmempty"

lemma selects_single: "selects (fmupd k v fmempty) labels \<longleftrightarrow> fmlookup labels k = Some v"
  by (auto simp: selects_def fmpred_iff)

lemma requestParam_mem:
  "\<lparr>tp_Name = n, tp_Value = string_value v\<rparr> \<in> set (map requestParam kvs) \<longleftrightarrow> (n, v) \<in> set kvs"
  by (force simp: requestParam_def)

context range_api
begin

lemma range_mem: "(n, v) \<in> set (RangeOrder X m) \<longleftrightarrow> fmlookup m n = Some v"
  by (metis fmlookup_of_list map_of_eq_Some_iff range_distinct range_entries)

end

lemma distinct_requestParams:
  "distinct (map fst kvs) \<Longrightarrow> distinct (map tp_Name (map requestParam kvs))"
  by (simp add: comp_def)

text \<open>The last string result of a name.\<close>

definition last_string_result :: "PipelineRunResult list \<Rightarrow> string \<Rightarrow> string option" where
  "last_string_result rs n =
     map_option (\<lambda>r. pv_StringVal (prr_Value r))
       (find (\<lambda>r. prr_Name r = n \<and> pv_Type (prr_Value r) = ParamTypeString) (rev rs))"

lemma last_string_result_snoc:
  "last_string_result (rs @ [r]) n =
     (if prr_Name r = n \<and> pv_Type (prr_Value r) = ParamTypeString
      then Some (pv_StringVal (prr_Value r)) else last_string_result rs n)"
  by (simp add: last_string_result_def)

lemma foldl_resultStep:
  "fmlookup (foldl resultStep fmempty rs) n = last_string_result rs n"
  by (induction rs rule: rev_induct)
    (simp_all add: last_string_result_snoc resultStep_def last_string_result_def[of "[]"])

lemma bindWorkspace_cases:
  "bindWorkspace X cfg ws i =
     (if vc_Name (Volume (cfg_Spec cfg)) \<in> set ws
      then (case claimWorkspace X cfg of
              Panic e \<Rightarrow> Panic e
            | Ret b \<Rightarrow> Ret (i\<lparr>plr_Spec := (plr_Spec i)\<lparr>prs_Workspaces := [b]\<rparr>\<rparr>))
      else Ret i)"
  by (induction X cfg ws i rule: bindWorkspace.induct) auto

section \<open>Properties\<close>

text \<open>
  C29: the PipelineRun created for a request is found again. Its labels are in the cache of the
  manager, and the lookup by labels selects it for a request exactly when that request has
  the same name and namespace, so never for another request, whatever labels users set.
\<close>

theorem created_run_found_again:
  assumes "owner_api X" and "requestPipelineRun X cfg ir = Ret plr"
  shows "selects cacheSelector (plr_Labels plr) \<and>
    (selects (requestSelector other) (plr_Labels plr) \<longleftrightarrow>
       ir_Name other = ir_Name ir \<and> ir_Namespace other = ir_Namespace ir)"
  using owner_api.requestPipelineRun_meta(1)[OF assms]
  by (auto simp: cacheSelector_def selects_single requestSelector_selects_iff fmlookup_requestLabels)

text \<open>
  The labels of the created PipelineRun are the user's labels of the request, overridden
  by the operator's own three labels.
\<close>

lemma created_run_labels:
  assumes "owner_api X" and "requestPipelineRun X cfg ir = Ret plr"
  shows "fmlookup (plr_Labels plr) k =
    (if k = PipelinesTypeLabel then Some PipelineTypeRelease
     else if k = InternalRequestNamespaceLabel then Some (ir_Namespace ir)
     else if k = InternalRequestNameLabel then Some (ir_Name ir)
     else fmlookup (om_Labels (ir_ObjectMeta ir)) k)"
  using owner_api.requestPipelineRun_meta(1)[OF assms] by (simp add: fmlookup_requestLabels)

text \<open>
  C30: the created PipelineRun has exactly the parameters of the request, each once and as a
  string, in whatever order the map was visited; the request's service account; its
  timeouts unless they are all unset; and it is not cancelled.
\<close>

theorem created_run_inputs:
  assumes "range_api X" and "requestPipelineRun X cfg ir = Ret plr"
  shows "distinct (map tp_Name (prs_Params (plr_Spec plr))) \<and>
    (\<forall>n v. \<lparr>tp_Name = n, tp_Value = string_value v\<rparr> \<in> set (prs_Params (plr_Spec plr)) \<longleftrightarrow>
       fmlookup (s_Params (ir_Spec ir)) n = Some v) \<and>
    prs_ServiceAccountName (plr_Spec plr) = s_ServiceAccount (ir_Spec ir) \<and>
    prs_Timeouts (plr_Spec plr) =
      (if s_Timeouts (ir_Spec ir) = zero_TimeoutFields then None else Some (s_Timeouts (ir_Spec ir))) \<and>
    prs_Status (plr_Spec plr) = []"
proof -
  note rd = distinct_requestParams[OF range_api.range_distinct[OF assms(1)]]
  note rm = range_api.range_mem[OF assms(1)]
  from assms(2) show ?thesis
    by (rule requestPipelineRun_spec)
      (simp only: requestParam_mem rm rd simp_thms)
qed


text \<open>
  \<open>WithPipeline\<close> binds the configured claim exactly when the pipeline declares a workspace
  of that name, and leaves the workspaces alone otherwise; it panics only on a size it
  cannot parse.
\<close>

lemma WithPipeline_workspaces:
  "(vc_Name (Volume (cfg_Spec cfg)) \<notin> set (tpl_Workspaces pipeline) \<longrightarrow>
      (\<exists>j. WithPipeline X pipeline cfg i = Ret j \<and>
         prs_Workspaces (plr_Spec j) = prs_Workspaces (plr_Spec i))) \<and>
   (vc_Name (Volume (cfg_Spec cfg)) \<in> set (tpl_Workspaces pipeline) \<longrightarrow>
      (case claimWorkspace X cfg of
         Panic e \<Rightarrow> WithPipeline X pipeline cfg i = Panic e
       | Ret b \<Rightarrow> \<exists>j. WithPipeline X pipeline cfg i = Ret j \<and> prs_Workspaces (plr_Spec j) = [b]))"
  by (auto simp: WithPipeline_def bindWorkspace_cases split: go.splits)

text \<open>
  C35: the results of a PipelineRun are its string results, the last one of a name winning;
  results of other types are left out.
\<close>

theorem results_last_string:
  "fmlookup (GetResultsFromPipelineRun p) n = last_string_result (pst_Results (plr_Status p)) n"
  by (simp add: GetResultsFromPipelineRun_def foldl_resultStep)

text \<open>
  The filter on events of PipelineRuns passes a run that becomes done by failing, not only one that
  succeeds.
\<close>

lemma failed_run_passes_filter:
  assumes "tekton_api X" and "isInternalRequestsPipelineRun X (PipelineRunObject new)"
    and "GetCondition X (plr_Conditions old) ConditionSucceeded = None"
    and "GetCondition X (plr_Conditions new) ConditionSucceeded = Some c"
    and "ac_Status c = ConditionFalse"
  shows "InternalRequestPipelineRunSucceededPredicate X
    (UpdateEvent (PipelineRunObject old) (PipelineRunObject new))"
  using assms by (simp add: hasPipelineSucceeded_def tekton_api.done_iff[OF assms(1)])

end
