(* ===== verification/Finalization.thy ===== *)
theory Finalization
  imports Tracking
begin

text \<open>
  Deletion of a request: what its finalizer does to the PipelineRun, that the finalizer goes
  away only after the run is settled, and what a reconcile does with requests that are being
  deleted or have completed.
\<close>

section \<open>Settling the run\<close>

definition cancelled :: "PipelineRun \<Rightarrow> PipelineRun" where
  "cancelled p = p\<lparr>plr_Spec := (plr_Spec p)\<lparr>prs_Status := PipelineRunSpecStatusCancelled\<rparr>\<rparr>"

text \<open>
  Calls after which no run of the request is left running: it does not exist, it is done, or
  its cancellation was accepted.
\<close>

fun settled :: "ext \<Rightarrow> event \<Rightarrow> bool" where
  "settled X (GetPLR _ _ _ (_, Some e)) = IsNotFound X e"
| "settled X (GetPLR _ _ _ (p, None)) = IsDone X p"
| "settled X (ListPLR _ _ _ ([], None)) = True"
| "settled X (ListPLR _ _ _ (p # _, None)) = IsDone X p"
| "settled X (PatchPLR _ p p' (_, None)) = (p' = cancelled p)"
| "settled X _ = False"

definition settles :: "ext \<Rightarrow> Adapter \<Rightarrow> Adapter \<Rightarrow> bool" where
  "settles X a b \<longleftrightarrow> a_request b = a_request a \<and> a_client b = a_client a \<and> a_spawned b = a_spawned a \<and>
     (\<exists>pre e. a_trace b = a_trace a @ pre @ [e] \<and> settled X e \<and>
        (\<forall>e'\<in>set (pre @ [e]). \<not> patches_meta e'))"

lemma cancel_settles:
  assumes "cancelPipelineRun X E p (a\<lparr>a_trace := a_trace a @ [e]\<rparr>) = (None, b)"
    and "p = None \<Longrightarrow> settled X e" and "\<And>q. p = Some q \<Longrightarrow> IsDone X q \<Longrightarrow> settled X e"
    and "\<not> patches_meta e"
  shows "settles X a b"
proof (cases "\<exists>q. p = Some q \<and> \<not> IsDone X q")
  case False
  then have "b = a\<lparr>a_trace := a_trace a @ [e]\<rparr>" and "settled X e"
    using assms by (auto simp: cancelPipelineRun_def split: option.splits)
  with assms(4) show ?thesis
    by (auto simp: settles_def intro!: exI[of _ "[]"])
next
  case True
  then obtain q where q: "p = Some q" "\<not> IsDone X q" by blast
  let ?r = "srv_PatchPLR E (a_trace a @ [e]) (a_internalClient a) q (cancelled q)"
  from q assms(1) have "snd ?r = None"
    and b: "b = a\<lparr>a_trace := a_trace a @ [e, PatchPLR (a_internalClient a) q (cancelled q) ?r]\<rparr>"
    by (simp_all add: cancelPipelineRun_def cancelled_def Let_def)
  then have "settled X (PatchPLR (a_internalClient a) q (cancelled q) ?r)"
    by (cases ?r) simp
  with assms(4) show ?thesis
    by (auto simp: settles_def b intro!: exI[of _ "[e]"])
qed

lemma finalizeByRef_settles:
  assumes "finalizeByRef X E ns n a = (None, b)"
  shows "settles X a b"
proof -
  obtain p err where r: "srv_GetPLR E (a_trace a) (a_internalClient a) ns n = (p, err)" by fastforce
  show ?thesis
  proof (cases err)
    case None
    with r assms show ?thesis
      by (intro cancel_settles[of X E "Some p" a "GetPLR (a_internalClient a) ns n (p, None)"])
        (simp_all add: finalizeByRef_def Let_def)
  next
    case (Some e)
    with r assms show ?thesis
      by (auto simp: finalizeByRef_def Let_def settles_def split: if_splits intro!: exI[of _ "[]"])
  qed
qed

lemma finalizeByLabels_settles:
  assumes "finalizeByLabels X E a = (None, b)" and "a_loader a = NewLoader E"
  shows "settles X a b"
proof -
  let ?c = "a_internalClient a" and ?sel = "requestSelector (a_request a)"
  have l: "loadRun a = (let r = GetInternalRequestPipelineRun E ?c (a_request a) (a_trace a)
      in (fst r, a\<lparr>a_trace := snd r\<rparr>))"
    using assms(2) by (simp add: loadRun_def)
  show ?thesis
  proof (cases rule: GetInternalRequestPipelineRun_cases[where E = E and cli = ?c
        and ir = "a_request a" and h = "a_trace a"])
    case (found p items)
    with l assms(1) show ?thesis
      by (intro cancel_settles[of X E "Some p" a "ListPLR ?c 1 ?sel (p # items, None)"])
        (simp_all add: finalizeByLabels_def)
  next
    case absent
    with l assms(1) show ?thesis
      by (intro cancel_settles[of X E None a "ListPLR ?c 1 ?sel ([], None)"])
        (simp_all add: finalizeByLabels_def)
  next
    case (failed e items)
    with l assms(1) show ?thesis by (simp add: finalizeByLabels_def)
  qed
qed

lemma finalize_settles:
  assumes "finalizeInternalRequest X E a = (None, b)" and "a_loader a = NewLoader E"
  shows "settles X a b"
  using assms finalizeByRef_settles finalizeByLabels_settles
  by (auto simp: finalizeInternalRequest_def Let_def split: list.splits if_splits)

section \<open>Properties of the operation\<close>


section \<open>Properties of a reconcile\<close>

lemma deletion_not_proceeds:
  assumes "results_api X" and "om_DeletionTimestamp (ir_ObjectMeta (a_request a)) \<noteq> None"
  shows "\<not> proceeds (EnsureFinalizersAreCalled X E a)" and "\<not> panics (fst (EnsureFinalizersAreCalled X E a))"
  using assms(2) results_api.not_continues_simps[OF assms(1)]
  by (auto simp: EnsureFinalizersAreCalled_def Let_def split: option.splits prod.splits)

text \<open>
  A request that is being deleted is only cleaned up after. Its reconcile never panics,
  and whatever it calls is a read, a patch of the PipelineRun or a patch of the request's
  metadata: no PipelineRun is created or deleted and no status is patched.
\<close>

lemma deleted_request_cleanup:
  assumes "reconcile_handler RH" and "results_api X"
    and "srv_GetIR E h (r_Client r) namespace name = (ir, None)"
    and "om_DeletionTimestamp (ir_ObjectMeta ir) \<noteq> None"
    and "Reconcile X E RH r namespace name h = (res, h', calls)"
  shows "\<not> panics res \<and> (\<exists>es. h' = h @ es \<and>
    (\<forall>e\<in>set es. is_read e \<or> patches_run e \<or> patches_meta e))"
proof -
  let ?a = "NewAdapter (r_Client r) (r_InternalClient r) ir (NewLoader E)
      (h @ [GetIR (r_Client r) namespace name (ir, None)])"
  have ol: "object_loader (a_loader ?a)"
    by (simp add: NewAdapter_def cluster_loader.object_loader_axioms)
  have np: "\<not> proceeds (EnsureFinalizersAreCalled X E ?a)" "\<not> panics (fst (EnsureFinalizersAreCalled X E ?a))"
    using assms(4) deletion_not_proceeds[OF assms(2)] by (simp_all add: NewAdapter_def)
  have "\<not> panics res" and h': "h' = a_trace (snd (EnsureFinalizersAreCalled X E ?a))"
    using assms(5) np reconcile_handler.Reconcile_loop[OF assms(1,3)]
      reconcile_handler.handle_cases[OF assms(1), of "EnsureFinalizersAreCalled X E" _ ?a]
    by (auto simp: operations_def Let_def)
  moreover have "\<exists>es. h' = h @ es \<and> (\<forall>e\<in>set es. is_read e \<or> patches_run e \<or> patches_meta e)"
  proof -
    from finalizers_called.op_grows[OF ol, of X E] obtain es
      where "h' = (h @ [GetIR (r_Client r) namespace name (ir, None)]) @ es"
        "\<forall>e\<in>set es. is_read e \<or> patches_run e \<or> patches_meta e"
      by (auto simp: grows_def h' NewAdapter_def)
    then show ?thesis
      by (intro exI[of _ "GetIR (r_Client r) namespace name (ir, None) # es"]) simp
  qed
  ultimately show ?thesis by blast
qed

text \<open>
  C16: deletion cancels a running PipelineRun and lets the request go. If the status refers to
  a run that is still running and both patches are accepted, the reconcile makes exactly
  four calls: it reads the request, gets the run the status refers to, patches the run to
  cancelled and takes the finalizer off; it registers the deletion and asks for a requeue.
\<close>

theorem deletion_cancels_run:
  assumes "reconcile_handler RH" and "results_api X" and "finalizer_api X"
    and "srv_GetIR E h (r_Client r) namespace name = (ir, None)"
    and "om_DeletionTimestamp (ir_ObjectMeta ir) \<noteq> None"
    and "InternalRequestFinalizer \<in> set (om_Finalizers (ir_ObjectMeta ir))"
    and "PipelineRunRef (ir_Status ir) = runReference p" and "matches_name (plr_Namespace p)"
    and "h1 = h @ [GetIR (r_Client r) namespace name (ir, None)]"
    and "srv_GetPLR E h1 (r_InternalClient r) (plr_Namespace p) (plr_Name p) = (q, None)" and "\<not> IsDone X q"
    and "h2 = h1 @ [GetPLR (r_InternalClient r) (plr_Namespace p) (plr_Name p) (q, None)]"
    and "srv_PatchPLR E h2 (r_InternalClient r) q (cancelled q) = (q', None)"
    and "h3 = h2 @ [PatchPLR (r_InternalClient r) q (cancelled q) (q', None)]"
    and "ir' = ir\<lparr>ir_ObjectMeta := (ir_ObjectMeta ir)\<lparr>om_Finalizers :=
      RemoveFinalizer X (om_Finalizers (ir_ObjectMeta ir)) InternalRequestFinalizer\<rparr>\<rparr>"
    and "srv_PatchIR E h3 (r_Client r) ir ir' = (answer, None)"
  shows "InternalRequestFinalizer \<notin> set (om_Finalizers (ir_ObjectMeta ir')) \<and>
    Reconcile X E RH r namespace name h =
      (Ret (\<lparr>Requeue = True\<rparr>, None), h3 @ [PatchIR (r_Client r) ir ir' (answer, None)],
       RegisterDeletion X (Now E h3) ir)"
proof -
  let ?a = "NewAdapter (r_Client r) (r_InternalClient r) ir (NewLoader E) h1"
  have ref: "SplitN2 (PipelineRunRef (ir_Status ir)) CHR ''/'' = [plr_Namespace p, plr_Name p]"
    using SplitN2_sep[OF slash_not_name[OF assms(8)]] assms(7) by (simp add: runReference_def Separator_def)
  then have ne: "PipelineRunRef (ir_Status ir) \<noteq> []" using assms(7) by (simp add: runReference_def)
  have fin: "finalizeInternalRequest X E ?a = (None, ?a\<lparr>a_trace := h3\<rparr>)"
    using assms(10-14) ref ne
    by (simp add: finalizeInternalRequest_def finalizeByRef_def cancelPipelineRun_def cancelled_def
        NewAdapter_def Let_def)
  have op: "EnsureFinalizersAreCalled X E ?a = (Ret (RequeueNow X),
      ?a\<lparr>a_request := answer, a_spawned := RegisterDeletion X (Now E h3) ir,
         a_trace := h3 @ [PatchIR (r_Client r) ir ir' (answer, None)]\<rparr>)"
    using assms(5,6,15,16) fin finalizer_api.contains_iff[OF assms(3)]
    by (auto simp: EnsureFinalizersAreCalled_def removeFinalizerPatch_def patchRequest_def
        NewAdapter_def Let_def)
  have "Reconcile X E RH r namespace name h =
      (Ret (\<lparr>Requeue = True\<rparr>, None), h3 @ [PatchIR (r_Client r) ir ir' (answer, None)],
       RegisterDeletion X (Now E h3) ir)"
    using reconcile_handler.Reconcile_loop[OF assms(1,4), of X] assms(9) op
      reconcile_handler.handle_requeue[OF assms(1), of "EnsureFinalizersAreCalled X E" ?a "RequeueNow X"]
      results_api.requeue_requeues[OF assms(2)]
    by (simp add: operations_def Let_def)
  then show ?thesis
    using finalizer_api.set_remove[OF assms(3)] assms(15) by simp
qed


end
