(* ===== verification/Mock_Loader.thy ===== *)
theory Mock_Loader
  imports Adapter_Contract
begin

text \<open>
  \<open>loader/loader_mock.go\<close>: the loader of the tests, which answers from values in the context
  and falls back to the cluster. It keeps the contract of the interface, so what
  \<open>Adapter_Contract\<close> shows of the operations holds with it as well.
\<close>

datatype ContextKey =
    InternalRequestContextKey
  | InternalRequestPipelineContextKey
  | InternalRequestPipelineRunContextKey
  | InternalRequestPipelineRunTaskRunsContextKey
  | InternalServicesConfigContextKey

text \<open>
  A context maps keys to values. How a mocked resource and error are read from such a value
  is \<open>toolkit.GetMockedResourceAndErrorFromContext\<close>, a parameter at each resource type.
\<close>

type_synonym 'v ctx = "ContextKey \<Rightarrow> 'v option"

record 'v mock_api =
  mocked_InternalRequest :: "'v ctx \<Rightarrow> ContextKey \<Rightarrow> InternalRequest \<times> go_error option"
  mocked_Pipeline :: "'v ctx \<Rightarrow> ContextKey \<Rightarrow> TektonPipeline \<times> go_error option"
  mocked_PipelineRun :: "'v ctx \<Rightarrow> ContextKey \<Rightarrow> PipelineRun option \<times> go_error option"
  mocked_TaskRuns :: "'v ctx \<Rightarrow> ContextKey \<Rightarrow> TaskRun list \<times> go_error option"
  mocked_Config :: "'v ctx \<Rightarrow> ContextKey \<Rightarrow> InternalServicesConfig \<times> go_error option"

section \<open>The loader\<close>

definition mock_GetInternalRequest ::
  "'v mock_api \<Rightarrow> 'v ctx \<Rightarrow> ObjectLoader \<Rightarrow> client \<Rightarrow> string \<Rightarrow> string \<Rightarrow> InternalRequest call" where
  "mock_GetInternalRequest M ctx l cli name namespace h =
     (if ctx InternalRequestContextKey = None then ld_GetInternalRequest l cli name namespace h
      else (mocked_InternalRequest M ctx InternalRequestContextKey, h))"

definition mock_GetInternalRequestPipeline ::
  "'v mock_api \<Rightarrow> 'v ctx \<Rightarrow> ObjectLoader \<Rightarrow> client \<Rightarrow> string \<Rightarrow> string \<Rightarrow> TektonPipeline call" where
  "mock_GetInternalRequestPipeline M ctx l cli name namespace h =
     (if ctx InternalRequestPipelineContextKey = None
      then ld_GetInternalRequestPipeline l cli name namespace h
      else (mocked_Pipeline M ctx InternalRequestPipelineContextKey, h))"

definition mock_GetInternalRequestPipelineRun ::
  "'v mock_api \<Rightarrow> 'v ctx \<Rightarrow> ObjectLoader \<Rightarrow> client \<Rightarrow> InternalRequest \<Rightarrow> PipelineRun option call" where
  "mock_GetInternalRequestPipelineRun M ctx l cli ir h =
     (if ctx InternalRequestPipelineRunContextKey = None
      then ld_GetInternalRequestPipelineRun l cli ir h
      else (mocked_PipelineRun M ctx InternalRequestPipelineRunContextKey, h))"

definition mock_GetInternalRequestPipelineRunTaskRuns ::
  "'v mock_api \<Rightarrow> 'v ctx \<Rightarrow> ObjectLoader \<Rightarrow> client \<Rightarrow> PipelineRun \<Rightarrow> TaskRun list call" where
  "mock_GetInternalRequestPipelineRunTaskRuns M ctx l cli p h =
     (if ctx InternalRequestPipelineRunTaskRunsContextKey = None
      then ld_GetInternalRequestPipelineRunTaskRuns l cli p h
      else (mocked_TaskRuns M ctx InternalRequestPipelineRunTaskRunsContextKey, h))"

definition mock_GetInternalServicesConfig ::
  "'v mock_api \<Rightarrow> 'v ctx \<Rightarrow> ObjectLoader \<Rightarrow> client \<Rightarrow> string \<Rightarrow> string \<Rightarrow> InternalServicesConfig call" where
  "mock_GetInternalServicesConfig M ctx l cli name namespace h =
     (if ctx InternalServicesConfigContextKey = None
      then ld_GetInternalServicesConfig l cli name namespace h
      else (mocked_Config M ctx InternalServicesConfigContextKey, h))"

definition NewMockLoader :: "'v mock_api \<Rightarrow> 'v ctx \<Rightarrow> env \<Rightarrow> ObjectLoader" where
  "NewMockLoader M ctx E =
     (let l = NewLoader E in
      \<lparr>ld_GetInternalRequest = mock_GetInternalRequest M ctx l,
       ld_GetInternalRequestPipeline = mock_GetInternalRequestPipeline M ctx l,
       ld_GetInternalRequestPipelineRun = mock_GetInternalRequestPipelineRun M ctx l,
       ld_GetInternalRequestPipelineRunTaskRuns = mock_GetInternalRequestPipelineRunTaskRuns M ctx l,
       ld_GetInternalServicesConfig = mock_GetInternalServicesConfig M ctx l\<rparr>)"

lemmas mock_defs =
  mock_GetInternalRequest_def mock_GetInternalRequestPipeline_def
  mock_GetInternalRequestPipelineRun_def mock_GetInternalRequestPipelineRunTaskRuns_def
  mock_GetInternalServicesConfig_def

section \<open>It keeps the contract\<close>

lemma reads_nothing [simp]: "reads_through c req h h"
  by (simp add: reads_through_def)

interpretation mock_loader: object_loader "NewMockLoader M ctx E" for M ctx E
  using cluster_loader.request_reads[of _ _ E] cluster_loader.pipeline_reads[of _ _ E]
    cluster_loader.run_reads[of _ _ E] cluster_loader.taskruns_reads[of _ _ E]
    cluster_loader.config_reads[of _ _ E]
  by unfold_locales (simp_all add: NewMockLoader_def mock_defs Let_def)


text \<open>
  Whichever loader the adapter has, an operation keeps to its kinds of calls and to the
  cluster of each call. Here for creation: with any mocked values, the operation only reads,
  creates PipelineRuns or patches the status of the request, requests on one cluster and
  everything else on the other.
\<close>

lemma mocked_creation_contract:
  assumes "a_loader a = NewMockLoader M ctx E'"
  shows "\<exists>es. a_trace (snd (EnsurePipelineRunIsCreated X E a)) = a_trace a @ es \<and>
    (\<forall>e\<in>set es. (is_read e \<or> creates_run e \<or> patches_status e) \<and>
       event_client e = (if on_request e then a_client a else a_internalClient a))"
proof -
  have "object_loader (a_loader a)" using assms mock_loader.object_loader_axioms by simp
  from run_created.op_grows[OF this, of X E] show ?thesis by (auto simp: grows_def disciplined_def)
qed

end
