(* ===== verification/Witnesses.thy ===== *)
theory Witnesses
  imports Operation_Properties Run_Creation Run_Shape Finalization Mock_Loader
begin

text \<open>
  The hypotheses of the properties hold at concrete inputs: each theorem here applies one
  property to the reference values of \<open>Reference\<close> and evaluates the definitions there.
\<close>

section \<open>Evaluation of the reference values\<close>

abbreviation ref_allowed :: InternalServicesConfig where
  "ref_allowed \<equiv> ref_config [''dev'']"

abbreviation ref_open_run :: PipelineRun where
  "ref_open_run \<equiv> ref_run []"

abbreviation ref_true_run :: PipelineRun where
  "ref_true_run \<equiv> ref_run [ref_run_cond ConditionTrue]"

abbreviation ref_false_run :: PipelineRun where
  "ref_false_run \<equiv> ref_run [ref_run_cond ConditionFalse]"

lemma ref_state [simp]:
  "IsRunning ref_ext ref_running" "IsRunning ref_ext ref_deleting" "HasCompleted ref_ext ref_completed"
  "succeededCondition ref_ext ref_fresh = None" "\<not> IsRunning ref_ext ref_fresh"
  "\<not> HasCompleted ref_ext ref_fresh"
  by (simp_all add: query_defs succeededCondition_def ref_ext_def ref_defs)

lemma ref_meta [simp]:
  "om_DeletionTimestamp (ir_ObjectMeta ref_fresh) = None" "om_Finalizers (ir_ObjectMeta ref_fresh) = []"
  "om_DeletionTimestamp (ir_ObjectMeta ref_running) = None"
  "om_Finalizers (ir_ObjectMeta ref_running) = [InternalRequestFinalizer]"
  "om_DeletionTimestamp (ir_ObjectMeta ref_deleting) = Some 7"
  "om_Finalizers (ir_ObjectMeta ref_deleting) = [InternalRequestFinalizer]"
  "om_DeletionTimestamp (ir_ObjectMeta ref_completed) = None"
  "om_Finalizers (ir_ObjectMeta ref_completed) = [InternalRequestFinalizer]"
  "s_Pipeline (ir_Spec (ref_request fs del cs st)) = Some ref_pipeline"
  "s_Pipeline (ir_Spec ref_fresh) = Some ref_pipeline" "s_Pipeline (ir_Spec ref_running) = Some ref_pipeline"
  "ir_StartTime ref_fresh = None" "ir_StartTime ref_running = Some 0" "ir_StartTime ref_deleting = Some 0"
  by (simp_all add: ref_defs)

lemma ref_admits [simp]:
  "admits ref_allowed ref_running" "admits ref_allowed ref_fresh" "\<not> admits (ref_config []) ref_fresh"
  "\<not> Debug (cfg_Spec (ref_config allow))" "AllowList (cfg_Spec (ref_config allow)) = allow"
  by (simp_all add: admits_def url_admitted_def account_admitted_def firstURL_def ref_defs)

lemma ref_size [simp]: "matches_size (vc_Size (Volume (cfg_Spec (ref_config allow))))"
  by (simp add: matches_size_def is_digit_def ref_defs)

lemma ref_answers [simp]:
  "srv_GetIR (ref_env ir cfg runs) h c ns n = (ir, None)"
  "srv_GetConfig (ref_env ir cfg runs) h c ns n = (cfg, None)"
  "srv_ListPLR (ref_env ir cfg runs) h c k sel = (runs, None)"
  "srv_CreatePLR (ref_env ir cfg runs) h c p = (p, None)"
  "srv_DeletePLR (ref_env ir cfg runs) h c op = None"
  "srv_PatchPLR (ref_env ir cfg runs) h c p p' = (p', None)"
  "srv_GetPLR (ref_env ir cfg (p # runs)) h c ns n = (p, None)"
  "srv_PatchIR (ref_env ir cfg runs) h c base ir' = (ir', None)"
  "srv_PatchIRStatus (ref_env ir cfg runs) h c base ir' = (ir', None)"
  "srv_ListTR (ref_env ir cfg runs) h c ns sel = ([], None)"
  "Now (ref_env ir cfg runs) h = int (length h)"
  by (simp_all add: ref_env_def)

lemma ref_accepts [simp]: "accepts_patches (ref_env ir cfg runs)"
  by (simp add: accepts_patches_def)

lemma ref_conditions [simp]:
  "GetCondition ref_ext (plr_Conditions ref_true_run) ConditionSucceeded = Some (ref_run_cond ConditionTrue)"
  "GetCondition ref_ext (plr_Conditions ref_false_run) ConditionSucceeded = Some (ref_run_cond ConditionFalse)"
  "GetCondition ref_ext (plr_Conditions ref_open_run) ConditionSucceeded = None"
  "ac_Status (ref_run_cond s) = s"
  "IsDone ref_ext ref_true_run" "IsDone ref_ext ref_false_run" "\<not> IsDone ref_ext ref_open_run"
  by (simp_all add: ref_ext_def ref_condition_def ref_done_def ref_defs)

lemma ref_balanced [simp]: "balanced ref_ext ref_running [New 0 (Some 0)]"
  by (simp add: balanced_def ref.running_not_completed)

lemma ref_built: "\<exists>plr. requestPipelineRun ref_ext ref_allowed ref_fresh = Ret plr"
  using panics_requestPipelineRun[of ref_ext ref_allowed ref_fresh] ref.parse_size[OF ref_size, of "[''dev'']"]
  by (simp add: not_panics_iff)

text \<open>A fresh adapter on the reference clusters.\<close>

definition ref_adapter :: "InternalRequest \<Rightarrow> InternalServicesConfig \<Rightarrow> PipelineRun list \<Rightarrow> Adapter" where
  "ref_adapter ir cfg runs =
     (NewAdapter RemoteClient LocalClient ir (NewLoader (ref_env ir cfg runs)) [])\<lparr>a_config := Some cfg\<rparr>"

lemma ref_adapter_sel [simp]:
  "a_request (ref_adapter ir cfg runs) = ir" "a_loader (ref_adapter ir cfg runs) = NewLoader (ref_env ir cfg runs)"
  "a_config (ref_adapter ir cfg runs) = Some cfg" "a_trace (ref_adapter ir cfg runs) = []"
  "a_spawned (ref_adapter ir cfg runs) = []" "a_client (ref_adapter ir cfg runs) = RemoteClient"
  "a_internalClient (ref_adapter ir cfg runs) = LocalClient"
  by (simp_all add: ref_adapter_def NewAdapter_def)

lemmas ref_apis =
  ref.conditions_api_axioms ref.finalizer_api_axioms ref.results_api_axioms ref.tekton_api_axioms
  ref.owner_api_axioms ref.quantity_api_axioms ref.range_api_axioms ref_loop.reconcile_handler_axioms

section \<open>Reconciles\<close>

theorem reconcile_creates_admitted_witness:
  "\<exists>res h' calls. Reconcile ref_ext (ref_env ref_fresh ref_allowed []) ref_handler registered ''dev'' ''sign'' [] =
       (res, h', calls) \<and>
     (filter creates_run h' = [] \<or> (\<exists>cfg plr ans c ns n.
        filter creates_run h' = [CreatePLR LocalClient plr ans] \<and>
        GetConfig c ns n (cfg, None) \<in> set h' \<and> run_admitted cfg plr))"
proof -
  obtain res h' calls where "Reconcile ref_ext (ref_env ref_fresh ref_allowed []) ref_handler registered
      ''dev'' ''sign'' [] = (res, h', calls)" by (metis prod_cases3)
  with reconcile_creates_admitted[OF ref_loop.reconcile_handler_axioms ref.results_api_axioms
      ref.owner_api_axioms this] show ?thesis by (simp add: registered_def)
qed

theorem no_allow_list_no_runs_witness:
  "filter creates_run (fst (snd (Reconcile ref_ext (ref_env ref_fresh (ref_config []) []) ref_handler
     registered ''dev'' ''sign'' []))) = []"
proof -
  obtain res h' calls where r: "Reconcile ref_ext (ref_env ref_fresh (ref_config []) []) ref_handler registered
      ''dev'' ''sign'' [] = (res, h', calls)" by (metis prod_cases3)
  have "\<forall>h c ns n cfg. srv_GetConfig (ref_env ref_fresh (ref_config []) []) h c ns n = (cfg, None) \<longrightarrow>
      AllowList (cfg_Spec cfg) = []" by auto
  from no_allow_list_no_runs[OF ref_loop.reconcile_handler_axioms ref.results_api_axioms
      ref.owner_api_axioms this r] r show ?thesis by simp
qed

theorem admission_decision_witness:
  "EnsureRequestIsAllowed ref_ext (ref_env ref_fresh ref_allowed []) (ref_adapter ref_fresh ref_allowed []) =
     (Ret (ContinueProcessing ref_ext), ref_adapter ref_fresh ref_allowed []) \<and>
   \<not> proceeds (EnsureRequestIsAllowed ref_ext (ref_env ref_fresh (ref_config []) [])
     (ref_adapter ref_fresh (ref_config []) []))"
  using admission_decision[OF ref.results_api_axioms, of "ref_adapter ref_fresh ref_allowed []" ref_allowed
      ref_pipeline "ref_env ref_fresh ref_allowed []"]
    admission_decision[OF ref.results_api_axioms, of "ref_adapter ref_fresh (ref_config []) []" "ref_config []"
      ref_pipeline "ref_env ref_fresh (ref_config []) []"]
  by simp

theorem reconcile_never_panics_witness:
  "\<not> panics (fst (Reconcile ref_ext (ref_env ref_fresh ref_allowed []) ref_handler registered ''dev'' ''sign'' []))"
proof -
  obtain res h' calls where r: "Reconcile ref_ext (ref_env ref_fresh ref_allowed []) ref_handler registered
      ''dev'' ''sign'' [] = (res, h', calls)" by (metis prod_cases3)
  have "keeps_pipeline (ref_env ref_fresh ref_allowed [])" "valid_configs (ref_env ref_fresh ref_allowed [])"
    by (auto simp: keeps_pipeline_def valid_configs_def)
  from reconcile_never_panics[OF ref_loop.reconcile_handler_axioms ref.results_api_axioms
      ref.tekton_api_axioms ref.quantity_api_axioms this _ r] r show ?thesis by simp
qed

theorem reconcile_keeps_books_witness:
  "\<exists>res a. ref_handler (operations ref_ext (ref_env ref_running ref_allowed [ref_true_run]))
       (NewAdapter RemoteClient LocalClient ref_running
          (NewLoader (ref_env ref_running ref_allowed [ref_true_run])) []) = (res, a) \<and>
     (if let_go (a_request a) then closed_books ([New 0 (Some 0)] @ a_spawned a)
      else balanced ref_ext (a_request a) ([New 0 (Some 0)] @ a_spawned a))"
proof -
  let ?E = "ref_env ref_running ref_allowed [ref_true_run]"
  obtain res a where r: "ref_handler (operations ref_ext ?E)
      (NewAdapter RemoteClient LocalClient ref_running (NewLoader ?E) []) = (res, a)" by fastforce
  have "\<not> let_go ref_running" "stays_admitted ref_ext ?E ref_running"
    by (simp_all add: let_go_def stays_admitted_def)
  from reconcile_keeps_books[OF ref_loop.reconcile_handler_axioms ref.conditions_api_axioms
      ref.results_api_axioms ref.finalizer_api_axioms ref.tekton_api_axioms ref_accepts ref_balanced this r] r
  show ?thesis by blast
qed

theorem reconcile_clusters_witness:
  "filter (\<lambda>e. event_client e \<noteq> (if on_request e then RemoteClient else LocalClient))
     (fst (snd (Reconcile ref_ext (ref_env ref_fresh ref_allowed []) ref_handler registered
       ''dev'' ''sign'' []))) = []"
proof -
  obtain res h' calls where r: "Reconcile ref_ext (ref_env ref_fresh ref_allowed []) ref_handler registered
      ''dev'' ''sign'' [] = (res, h', calls)" by (metis prod_cases3)
  from reconcile_clusters[OF ref_loop.reconcile_handler_axioms r] r
  show ?thesis by (simp add: registered_def filter_empty_conv)
qed

section \<open>Deletion and completion\<close>

lemma ref_deleting_patches:
  "filter patches_meta (a_trace (snd (EnsureFinalizersAreCalled ref_ext
     (ref_env ref_deleting ref_allowed [ref_open_run]) (ref_adapter ref_deleting ref_allowed [ref_open_run])))) \<noteq> []"
proof -
  have "PipelineRunRef (ir_Status ref_deleting) = []" by (simp add: ref_deleting_def ref_request_def)
  then show ?thesis
    by (simp add: EnsureFinalizersAreCalled_def finalizeInternalRequest_def finalizeByLabels_def
        loadRun_def GetInternalRequestPipelineRun_def cancelPipelineRun_def removeFinalizerPatch_def
        patchRequest_def ref.contains_iff Let_def)
qed


text \<open>A deleting request whose status refers to the open run.\<close>

definition ref_referring :: InternalRequest where
  "ref_referring = ref_deleting\<lparr>ir_Status := (ir_Status ref_deleting)\<lparr>PipelineRunRef := runReference ref_open_run\<rparr>\<rparr>"

lemma ref_referring_sel [simp]:
  "om_DeletionTimestamp (ir_ObjectMeta ref_referring) = Some 7"
  "om_Finalizers (ir_ObjectMeta ref_referring) = [InternalRequestFinalizer]"
  "PipelineRunRef (ir_Status ref_referring) = runReference ref_open_run"
  by (simp_all add: ref_referring_def)

lemma ref_run_namespace [simp]: "matches_name (plr_Namespace (ref_run cs))"
  by (simp add: matches_name_def is_alnum_def is_digit_def ref_defs)

theorem deletion_cancels_run_witness:
  "fst (Reconcile ref_ext (ref_env ref_referring ref_allowed [ref_open_run]) ref_handler registered
     ''dev'' ''sign'' []) = Ret (\<lparr>Requeue = True\<rparr>, None)"
proof -
  let ?E = "ref_env ref_referring ref_allowed [ref_open_run]"
  note w = deletion_cancels_run[OF ref_loop.reconcile_handler_axioms ref.results_api_axioms
      ref.finalizer_api_axioms, of ?E "[]" registered "''dev''" "''sign''" ref_referring ref_open_run,
      OF ref_answers(1) _ _ _ _ refl ref_answers(7) _ refl ref_answers(6) refl refl ref_answers(8)]
  show ?thesis using w by simp
qed






section \<open>Operations\<close>

theorem status_is_tracked_witness:
  "\<exists>ir' res mid. reports ref_ext ref_running ref_true_run ir' \<and>
     a_trace (snd (EnsureStatusIsTracked ref_ext (ref_env ref_running ref_allowed [ref_true_run])
       (ref_adapter ref_running ref_allowed [ref_true_run]))) =
       mid @ [PatchIRStatus RemoteClient ref_running ir' res]"
  using status_is_tracked[OF ref.conditions_api_axioms ref.tekton_api_axioms, of
      "ref_adapter ref_running ref_allowed [ref_true_run]" "ref_env ref_running ref_allowed [ref_true_run]"
      ref_true_run "[]"] ref.running_not_completed[OF ref_state(1)]
  by auto

theorem failure_message_witness:
  "length (fst (failedTaskRunMessage ref_ext ref_false_run (ref_adapter ref_running ref_allowed [ref_false_run]))) \<le> 4096"
proof -
  let ?a = "ref_adapter ref_running ref_allowed [ref_false_run]"
  obtain trs err h where "ld_GetInternalRequestPipelineRunTaskRuns (a_loader ?a) (a_internalClient ?a)
      ref_false_run (a_trace ?a) = ((trs, err), h)" by (metis prod.collapse)
  from failure_message[OF ref.tekton_api_axioms this] show ?thesis by simp
qed

theorem run_reference_roundtrip_witness:
  "finalizeInternalRequest ref_ext (ref_env ref_referring ref_allowed [ref_open_run])
     (ref_adapter ref_referring ref_allowed [ref_open_run]) =
   finalizeByRef ref_ext (ref_env ref_referring ref_allowed [ref_open_run]) (plr_Namespace ref_open_run)
     (plr_Name ref_open_run) (ref_adapter ref_referring ref_allowed [ref_open_run])"
  by (rule run_reference_roundtrip) simp_all

theorem attempt_registered_before_patch_witness:
  "attempts (a_spawned (snd (EnsureStatusIsTracked ref_ext (ref_env ref_running ref_allowed [ref_false_run])
     (ref_adapter ref_running ref_allowed [ref_false_run])))) = 1"
  using attempt_registered_before_patch[OF ref.conditions_api_axioms ref.tekton_api_axioms, of
      "ref_adapter ref_running ref_allowed [ref_false_run]" "ref_env ref_running ref_allowed [ref_false_run]"
      ref_false_run "[]"]
  by simp

section \<open>Life cycle and metrics\<close>


theorem rejection_while_running_leaks_witness:
  "gauge_total ([New 0 (Some 0)] @ snd (run_marks ref_ext [DoRejected ''m'', DoSucceeded 9] ref_running)) = 1"
  using rejection_while_running_leaks[OF ref.conditions_api_axioms ref_balanced ref_state(1), of "''m''" "[DoSucceeded 9]"]
  by blast

theorem metrics_any_interleaving_witness:
  "reg_gauge (fold ref_apply [GaugeInc, CounterInc \<lparr>l_request = ''p'', l_namespace = ''n'', l_reason = ''r'',
       l_succeeded = ''false''\<rparr>, GaugeInc]
     \<lparr>reg_gauge = 0, reg_counter = (\<lambda>_. 0), reg_observed = (\<lambda>_. {#})\<rparr>) = 2"
  using metrics_any_interleaving[OF ref_registry.prometheus_api_axioms, of
      "[GaugeInc, CounterInc \<lparr>l_request = ''p'', l_namespace = ''n'', l_reason = ''r'',
         l_succeeded = ''false''\<rparr>, GaugeInc]"
      "[New 0 (Some 1), New 0 (Some 2), Rejected ''p'' ''n'' ''r'']"
      "\<lparr>reg_gauge = 0, reg_counter = (\<lambda>_. 0), reg_observed = (\<lambda>_. {#})\<rparr>"]
  by (simp add: metric_ops_def register_defs FormatBool_def del: fold_simps)

section \<open>The PipelineRun\<close>

theorem created_run_found_again_witness:
  "\<exists>plr. requestPipelineRun ref_ext ref_allowed ref_fresh = Ret plr \<and> selects cacheSelector (plr_Labels plr) \<and>
     selects (requestSelector ref_fresh) (plr_Labels plr)"
proof -
  obtain plr where r: "requestPipelineRun ref_ext ref_allowed ref_fresh = Ret plr" using ref_built by blast
  from created_run_found_again[OF ref.owner_api_axioms r, of ref_fresh] r show ?thesis by simp
qed

theorem created_run_inputs_witness:
  "\<exists>plr. requestPipelineRun ref_ext ref_allowed ref_fresh = Ret plr \<and>
     \<lparr>tp_Name = ''image'', tp_Value = string_value ''quay.io/app''\<rparr> \<in> set (prs_Params (plr_Spec plr))"
proof -
  obtain plr where r: "requestPipelineRun ref_ext ref_allowed ref_fresh = Ret plr" using ref_built by blast
  from created_run_inputs[OF ref.range_api_axioms r] r
  show ?thesis by (simp add: ref_fresh_def ref_request_def)
qed



section \<open>Loader\<close>

definition ref_mock :: "unit mock_api" where
  "ref_mock =
     \<lparr>mocked_InternalRequest = (\<lambda>_ _. (ref_fresh, None)),
      mocked_Pipeline = (\<lambda>_ _. (\<lparr>tpl_ObjectMeta = zero_ObjectMeta, tpl_Workspaces = []\<rparr>, None)),
      mocked_PipelineRun = (\<lambda>_ _. (Some ref_open_run, None)),
      mocked_TaskRuns = (\<lambda>_ _. ([], None)),
      mocked_Config = (\<lambda>_ _. (ref_allowed, None))\<rparr>"


end
