(* ===== verification/Watches.thy ===== *)
theory Watches
  imports Run_Shape Reconciler
begin

text \<open>
  \<open>controllers/internalrequest/controller.go\<close>, the watches \<open>Register\<close> sets up: where events
  come from, which pass, and which requests they put in the queue. The handlers of
  controller-runtime and operator-lib that turn an event into queue entries are an interface.
\<close>

section \<open>Watches\<close>

text \<open>A queue entry is the namespace and name of a request.\<close>

type_synonym queue_key = "string \<times> string"

definition request_key :: "InternalRequest \<Rightarrow> queue_key" where
  "request_key ir = (ir_Namespace ir, ir_Name ir)"

text \<open>Events on local InternalRequests, on those of the remote cluster and on PipelineRuns.\<close>

datatype cluster_event =
    LocalRequestEvent "InternalRequest watch_event"
  | RemoteRequestEvent "InternalRequest watch_event"
  | PipelineRunEvent "Object watch_event"

record watch_ops =
  GenerationChangedPredicate :: "InternalRequest watch_event \<Rightarrow> bool"
  IgnoreAllPredicate :: "InternalRequest watch_event \<Rightarrow> bool"
  EnqueueRequestForObject :: "InternalRequest watch_event \<Rightarrow> queue_key list"
  \<comment> \<open>kind and group of the owner whose annotations are looked for\<close>
  EnqueueRequestForAnnotation :: "string \<Rightarrow> string \<Rightarrow> Object watch_event \<Rightarrow> queue_key list"

fun dispatch :: "ext \<Rightarrow> watch_ops \<Rightarrow> cluster_event \<Rightarrow> queue_key list" where
  "dispatch X W (LocalRequestEvent e) =
     (if GenerationChangedPredicate W e \<and> IgnoreAllPredicate W e then EnqueueRequestForObject W e else [])"
| "dispatch X W (RemoteRequestEvent e) =
     (if remoteRequestFilter e then EnqueueRequestForObject W e else [])"
| "dispatch X W (PipelineRunEvent e) =
     (if InternalRequestPipelineRunSucceededPredicate X e
      then EnqueueRequestForAnnotation W ''InternalRequest'' ''appstudio.redhat.com'' e else [])"

section \<open>What the handlers promise\<close>

fun object_meta :: "Object \<Rightarrow> ObjectMeta" where
  "object_meta (PipelineRunObject p) = plr_ObjectMeta p"
| "object_meta (OtherObject m) = m"

text \<open>The type that the clusters' own copies of a request carry.\<close>

definition request_type :: TypeMeta where
  "request_type = \<lparr>tm_Kind = internalRequestKind, tm_APIVersion = ''appstudio.redhat.com/v1alpha1''\<rparr>"

text \<open>The owner of a kind and group that an object is annotated with.\<close>

type_synonym owner_reader = "string \<Rightarrow> string \<Rightarrow> smap \<Rightarrow> queue_key option"

definition APIVersionOf :: "string \<Rightarrow> string" where
  "APIVersionOf grp = grp @ ''/v1alpha1''"

locale watch_api =
  fixes X :: ext and W :: watch_ops and owner :: owner_reader
  assumes ignore_all: "\<not> IgnoreAllPredicate W e"
    and object_create: "EnqueueRequestForObject W (CreateEvent ir) = [request_key ir]"
    and object_update: "EnqueueRequestForObject W (UpdateEvent old new) = [request_key new]"
    and annotation_update: "set (EnqueueRequestForAnnotation W k g (UpdateEvent obj obj')) =
      set_option (owner k g (om_Annotations (object_meta obj))) \<union> set_option (owner k g (om_Annotations (object_meta obj')))"
    and annotated: "tm_Kind tm = k \<Longrightarrow> tm_APIVersion tm = APIVersionOf g \<Longrightarrow> Separator \<notin> set g \<Longrightarrow> k \<noteq> [] \<Longrightarrow> om_Name m \<noteq> [] \<Longrightarrow>
      Separator \<notin> set (om_Namespace m) \<Longrightarrow> owner k g (om_Annotations (fst (SetOwnerAnnotations X tm m om))) = Some (om_Namespace m, om_Name m)"
begin

text \<open>Only the remote cluster's requests and PipelineRuns that become done fill the queue.\<close>

lemma local_ignored: "dispatch X W (LocalRequestEvent e) = []"
  using ignore_all by simp

lemma annotated_request:
  assumes "om_Name m \<noteq> []" and "CHR ''/'' \<notin> set (om_Namespace m)"
  shows "owner internalRequestKind ''appstudio.redhat.com''
    (om_Annotations (fst (SetOwnerAnnotations X request_type m obj))) = Some (om_Namespace m, om_Name m)"
  by (rule annotated) (use assms in \<open>simp_all add: request_type_def Separator_def const_defs APIVersionOf_def\<close>)

text \<open>An update of a run annotated with a request wakes up the request as the run becomes done.\<close>

lemma annotated_run_update:
  assumes "owner_api X" and "om_Name m \<noteq> []" and "CHR ''/'' \<notin> set (om_Namespace m)"
    and old: "om_Annotations (plr_ObjectMeta old) = om_Annotations (fst (SetOwnerAnnotations X request_type m obj))"
    and new: "om_Annotations (plr_ObjectMeta new) = om_Annotations (fst (SetOwnerAnnotations X request_type m obj))"
  shows "set (dispatch X W (PipelineRunEvent (UpdateEvent (PipelineRunObject old) (PipelineRunObject new)))) =
    (if \<not> IsDone X old \<and> IsDone X new then {(om_Namespace m, om_Name m)} else {})"
proof -
  have k: "internalRequestKind = ''InternalRequest''" by (simp add: const_defs)
  obtain g where "fmlookup (om_Annotations (plr_ObjectMeta new)) (TypeAnnotation X) = Some (internalRequestKind @ g)"
    using owner_api.type_annotation[OF assms(1), of request_type m obj] assms(2) new
    by (auto simp: request_type_def const_defs)
  then have "isInternalRequestsPipelineRun X (PipelineRunObject new)"
    by (simp add: isInternalRequestsPipelineRun_def)
  with annotated_request[OF assms(2,3), of obj] old new show ?thesis
    by (simp add: annotation_update hasPipelineSucceeded_def k)
qed

end

section \<open>Properties\<close>

text \<open>
  C23: a finished run wakes up its request and no other. An update of the PipelineRun built for
  a request, its annotations untouched, puts the key of this request in the queue, and
  nothing else, when the run becomes done, and nothing at all otherwise.
\<close>

theorem finished_run_wakes_owner:
  assumes "watch_api X W owner" and "owner_api X" and "requestPipelineRun X cfg ir = Ret plr"
    and "ir_TypeMeta ir = \<lparr>tm_Kind = ''InternalRequest'', tm_APIVersion = ''appstudio.redhat.com/v1alpha1''\<rparr>"
    and "ir_Name ir \<noteq> []" and "CHR ''/'' \<notin> set (ir_Namespace ir)"
    and "om_Annotations (plr_ObjectMeta old) = om_Annotations (plr_ObjectMeta plr)"
    and "om_Annotations (plr_ObjectMeta new) = om_Annotations (plr_ObjectMeta plr)"
  shows "set (dispatch X W (PipelineRunEvent (UpdateEvent (PipelineRunObject old) (PipelineRunObject new)))) =
    (if \<not> IsDone X old \<and> IsDone X new then {(ir_Namespace ir, ir_Name ir)} else {})"
proof -
  have tm: "ir_TypeMeta ir = request_type" using assms(4) by (simp add: request_type_def const_defs)
  then obtain obj where "om_Annotations (plr_ObjectMeta plr) =
      om_Annotations (fst (SetOwnerAnnotations X request_type (ir_ObjectMeta ir) obj))"
    using assms(3) by (metis requestPipelineRun_spec)
  with watch_api.annotated_run_update[OF assms(1,2), of "ir_ObjectMeta ir" old obj new] assms(5-8) show ?thesis
    by simp
qed

end
