(* ===== verification/Cluster_State.thy ===== *)
theory Cluster_State
  imports Adapter_Frames Finalization Watches
begin

text \<open>
  Clusters with a state, as an instance of the answer functions of \<open>Cluster\<close>: one request key
  is followed, PipelineRuns are stored, patched and deleted, reads return what is stored, and
  any call may fail without effect. The state after a sequence of calls is computed from the
  calls, so the answers are functions of the trace as the model of the operator requires.
\<close>

section \<open>The state\<close>

record world =
  w_request :: "InternalRequest option"
  w_config :: "InternalServicesConfig option"
  w_runs :: "PipelineRun list"
  \<comment> \<open>namespaces and names of all runs there ever were\<close>
  w_used :: "(string \<times> string) list"

definition run_id :: "PipelineRun \<Rightarrow> string \<times> string" where
  "run_id p = (plr_Namespace p, plr_Name p)"

text \<open>
  What an accepted call does. An object marked for deletion goes away with its last
  finalizer.
\<close>

definition stored :: "InternalRequest \<Rightarrow> InternalRequest option" where
  "stored ir =
     (if om_DeletionTimestamp (ir_ObjectMeta ir) \<noteq> None \<and> om_Finalizers (ir_ObjectMeta ir) = []
      then None else Some ir)"

fun apply_event :: "event \<Rightarrow> world \<Rightarrow> world" where
  "apply_event (PatchIR _ _ _ (ir, None)) w = w\<lparr>w_request := stored ir\<rparr>"
| "apply_event (PatchIRStatus _ _ _ (ir, None)) w = w\<lparr>w_request := Some ir\<rparr>"
| "apply_event (CreatePLR _ _ (p, None)) w = w\<lparr>w_runs := w_runs w @ [p], w_used := run_id p # w_used w\<rparr>"
| "apply_event (PatchPLR _ _ _ (p, None)) w =
     w\<lparr>w_runs := map (\<lambda>q. if run_id q = run_id p then p else q) (w_runs w)\<rparr>"
| "apply_event (DeletePLR _ (Some p) None) w =
     w\<lparr>w_runs := filter (\<lambda>q. run_id q \<noteq> run_id p) (w_runs w)\<rparr>"
| "apply_event _ w = w"

definition world_after :: "world \<Rightarrow> trace \<Rightarrow> world" where
  "world_after w h = fold apply_event h w"

lemma world_after_simps [simp]:
  "world_after w [] = w" "world_after w (h @ es) = world_after (world_after w h) es"
  "world_after w (e # es) = world_after (apply_event e w) es"
  by (simp_all add: world_after_def)

lemma apply_read: "is_read e \<Longrightarrow> apply_event e w = w"
  by (cases e) auto

lemma world_after_reads: "\<forall>e\<in>set es. is_read e \<Longrightarrow> world_after w es = w"
  by (induction es arbitrary: w) (auto simp: apply_read)

lemma apply_config [simp]: "w_config (apply_event e w) = w_config w"
  by (induction e w rule: apply_event.induct) auto

section \<open>The answers\<close>

definition zero_InternalRequest :: InternalRequest where
  "zero_InternalRequest =
     \<lparr>ir_TypeMeta = \<lparr>tm_Kind = [], tm_APIVersion = []\<rparr>, ir_ObjectMeta = zero_ObjectMeta,
      ir_Spec = \<lparr>s_Pipeline = None, s_Params = fmempty, s_Timeouts = zero_TimeoutFields, s_ServiceAccount = []\<rparr>,
      ir_Status = \<lparr>StartTime = None, CompletionTime = None, PipelineRunRef = [], Conditions = [],
        Results = fmempty\<rparr>\<rparr>"

definition zero_InternalServicesConfig :: InternalServicesConfig where
  "zero_InternalServicesConfig = \<lparr>cfg_ObjectMeta = zero_ObjectMeta, cfg_Spec = zero_InternalServicesConfigSpec\<rparr>"

text \<open>
  A name for a created run that no run ever had: the suffix the server generates is random, and
  names that come back are left out.
\<close>

definition fresh_name :: "string \<Rightarrow> (string \<times> string) list \<Rightarrow> string" where
  "fresh_name prefix used = prefix @ replicate (Suc (sum_list (map (\<lambda>i. length (snd i)) used))) CHR ''x''"

definition named :: "(string \<times> string) list \<Rightarrow> PipelineRun \<Rightarrow> PipelineRun" where
  "named used p = p\<lparr>plr_ObjectMeta := (plr_ObjectMeta p)
     \<lparr>om_Name := fresh_name (om_GenerateName (plr_ObjectMeta p)) used\<rparr>\<rparr>"

text \<open>
  \<open>server nf f w\<close> answers from the state reached by the trace from \<open>w\<close>. \<open>f\<close> says which calls
  fail, and with what error; \<open>nf\<close> is the error for an object that is not there. The patch of
  a request takes the finalizers of the object that was sent, the patch of its status the
  status, the patch of a run its \<open>spec.status\<close>.
\<close>

definition server :: "go_error \<Rightarrow> (trace \<Rightarrow> go_error option) \<Rightarrow> world \<Rightarrow> env" where
  "server nf f w =
     \<lparr>srv_GetIR = (\<lambda>h _ ns n. case f h of Some e \<Rightarrow> (zero_InternalRequest, Some e) | None \<Rightarrow>
         (case w_request (world_after w h) of
            Some ir \<Rightarrow> if ir_Namespace ir = ns \<and> ir_Name ir = n then (ir, None) else (zero_InternalRequest, Some nf)
          | None \<Rightarrow> (zero_InternalRequest, Some nf))),
      srv_PatchIR = (\<lambda>h _ _ ir. case f h of Some e \<Rightarrow> (ir, Some e) | None \<Rightarrow>
         (case w_request (world_after w h) of
            Some cur \<Rightarrow> (cur\<lparr>ir_ObjectMeta := (ir_ObjectMeta cur)
                          \<lparr>om_Finalizers := om_Finalizers (ir_ObjectMeta ir)\<rparr>\<rparr>, None)
          | None \<Rightarrow> (ir, Some nf))),
      srv_PatchIRStatus = (\<lambda>h _ _ ir. case f h of Some e \<Rightarrow> (ir, Some e) | None \<Rightarrow>
         (case w_request (world_after w h) of
            Some cur \<Rightarrow> (cur\<lparr>ir_Status := ir_Status ir\<rparr>, None)
          | None \<Rightarrow> (ir, Some nf))),
      srv_GetConfig = (\<lambda>h _ ns n. case f h of Some e \<Rightarrow> (zero_InternalServicesConfig, Some e) | None \<Rightarrow>
         (case w_config (world_after w h) of
            Some cfg \<Rightarrow> if om_Namespace (cfg_ObjectMeta cfg) = ns \<and> om_Name (cfg_ObjectMeta cfg) = n then (cfg, None)
                        else (zero_InternalServicesConfig, Some nf)
          | None \<Rightarrow> (zero_InternalServicesConfig, Some nf))),
      srv_GetTektonPipeline = (\<lambda>h _ ns n. (\<lparr>tpl_ObjectMeta = zero_ObjectMeta, tpl_Workspaces = []\<rparr>, Some nf)),
      srv_GetPLR = (\<lambda>h _ ns n. case f h of Some e \<Rightarrow> (zero_PipelineRun, Some e) | None \<Rightarrow>
         (case find (\<lambda>p. run_id p = (ns, n)) (w_runs (world_after w h)) of
            Some p \<Rightarrow> (p, None) | None \<Rightarrow> (zero_PipelineRun, Some nf))),
      srv_ListPLR = (\<lambda>h _ limit sel. case f h of Some e \<Rightarrow> ([], Some e) | None \<Rightarrow>
         (take limit (filter (\<lambda>p. selects sel (plr_Labels p)) (w_runs (world_after w h))), None)),
      srv_ListTR = (\<lambda>h _ _ _. case f h of Some e \<Rightarrow> ([], Some e) | None \<Rightarrow> ([], None)),
      srv_CreatePLR = (\<lambda>h _ p. case f h of Some e \<Rightarrow> (p, Some e) | None \<Rightarrow>
         (named (w_used (world_after w h)) p, None)),
      srv_PatchPLR = (\<lambda>h _ _ p. case f h of Some e \<Rightarrow> (p, Some e) | None \<Rightarrow>
         (case find (\<lambda>q. run_id q = run_id p) (w_runs (world_after w h)) of
            Some q \<Rightarrow> (q\<lparr>plr_Spec := (plr_Spec q)\<lparr>prs_Status := prs_Status (plr_Spec p)\<rparr>\<rparr>, None)
          | None \<Rightarrow> (p, Some nf))),
      srv_DeletePLR = (\<lambda>h _ op. case f h of Some e \<Rightarrow> Some e | None \<Rightarrow>
         (case op of
            Some p \<Rightarrow> if run_id p \<in> run_id ` set (w_runs (world_after w h)) then None else Some nf
          | None \<Rightarrow> Some nf)),
      Now = (\<lambda>h. int (length h)),
      Getenv = (\<lambda>_. [])\<rparr>"

lemma fresh_name_length:
  "i \<in> set used \<Longrightarrow> length (snd i) < length (fresh_name prefix used)"
proof -
  assume "i \<in> set used"
  then have "length (snd i) \<le> sum_list (map (\<lambda>i. length (snd i)) used)"
    by (induction used) auto
  then show ?thesis by (simp add: fresh_name_def)
qed

lemma named_fresh: "run_id (named used p) \<notin> set used"
  using fresh_name_length[of "run_id (named used p)" used "om_GenerateName (plr_ObjectMeta p)"]
  by (auto simp: run_id_def named_def)

section \<open>Runs of one request\<close>

type_synonym key = "string \<times> string"

definition owned_by :: "key \<Rightarrow> PipelineRun \<Rightarrow> bool" where
  "owned_by k p \<longleftrightarrow> fmlookup (plr_Labels p) InternalRequestNamespaceLabel = Some (fst k) \<and>
     fmlookup (plr_Labels p) InternalRequestNameLabel = Some (snd k)"

definition mine :: "key \<Rightarrow> world \<Rightarrow> PipelineRun list" where
  "mine k w = filter (owned_by k) (w_runs w)"

definition keyed :: "key \<Rightarrow> InternalRequest \<Rightarrow> bool" where
  "keyed k ir \<longleftrightarrow> ir_Namespace ir = fst k \<and> ir_Name ir = snd k"

lemma selector_owned: "keyed k ir \<Longrightarrow> selects (requestSelector ir) (plr_Labels p) \<longleftrightarrow> owned_by k p"
  by (auto simp: requestSelector_selects_iff owned_by_def keyed_def)

definition settled_run :: "ext \<Rightarrow> PipelineRun \<Rightarrow> bool" where
  "settled_run X p \<longleftrightarrow> IsDone X p \<or> prs_Status (plr_Spec p) = PipelineRunSpecStatusCancelled"

definition others :: "key \<Rightarrow> world \<Rightarrow> PipelineRun list" where
  "others k w = filter (\<lambda>p. \<not> owned_by k p) (w_runs w)"

lemma owner_unique: "owned_by k p \<Longrightarrow> owned_by j p \<Longrightarrow> k = j"
  by (auto simp: owned_by_def prod_eq_iff)

section \<open>The invariant\<close>

text \<open>
  Runs have distinct names and at most one belongs to the request, which is annotated as its
  owner; the reference in the status is that of this run, and stays after the run is gone only
  on a completed request; without the finalizer, or without the request, the run is settled.
  No run of anybody else has the name the reference gives.
\<close>

definition annotated_for :: "ext \<Rightarrow> key \<Rightarrow> PipelineRun \<Rightarrow> bool" where
  "annotated_for X k p \<longleftrightarrow>
     (\<exists>m obj. om_Namespace m = fst k \<and> om_Name m = snd k \<and>
        om_Annotations (plr_ObjectMeta p) = om_Annotations (fst (SetOwnerAnnotations X request_type m obj)))"

definition ids_ok :: "world \<Rightarrow> bool" where
  "ids_ok w \<longleftrightarrow> distinct (map run_id (w_runs w)) \<and> run_id ` set (w_runs w) \<subseteq> set (w_used w)"

definition runs_ok :: "ext \<Rightarrow> key \<Rightarrow> world \<Rightarrow> bool" where
  "runs_ok X k w \<longleftrightarrow> ids_ok w \<and> length (mine k w) \<le> 1 \<and>
     (\<forall>p\<in>set (mine k w). CHR ''/'' \<notin> set (plr_Namespace p) \<and> annotated_for X k p)"

definition ref_ok :: "ext \<Rightarrow> PipelineRun list \<Rightarrow> InternalRequest \<Rightarrow> bool" where
  "ref_ok X runs ir \<longleftrightarrow>
     PipelineRunRef (ir_Status ir) = [] \<or>
     (\<exists>ns n. CHR ''/'' \<notin> set ns \<and> PipelineRunRef (ir_Status ir) = ns @ CHR ''/'' # n \<and>
        (\<forall>p\<in>set runs. run_id p = (ns, n)) \<and> (runs = [] \<longrightarrow> HasCompleted X ir))"

definition request_ok :: "ext \<Rightarrow> key \<Rightarrow> PipelineRun list \<Rightarrow> InternalRequest \<Rightarrow> bool" where
  "request_ok X k runs ir \<longleftrightarrow> keyed k ir \<and> ir_TypeMeta ir = request_type \<and> ref_ok X runs ir \<and>
     (InternalRequestFinalizer \<in> set (om_Finalizers (ir_ObjectMeta ir)) \<or> (\<forall>p\<in>set runs. settled_run X p))"

definition refers :: "InternalRequest \<Rightarrow> string \<times> string \<Rightarrow> bool" where
  "refers ir i \<longleftrightarrow> CHR ''/'' \<notin> set (fst i) \<and> PipelineRunRef (ir_Status ir) = fst i @ CHR ''/'' # snd i"

definition own_ref :: "key \<Rightarrow> world \<Rightarrow> InternalRequest \<Rightarrow> bool" where
  "own_ref k w ir \<longleftrightarrow> (\<forall>i. refers ir i \<longrightarrow> i \<in> set (w_used w) \<and> i \<notin> run_id ` set (others k w))"

definition config_ok :: "world \<Rightarrow> bool" where
  "config_ok w \<longleftrightarrow> (\<forall>cfg. w_config w = Some cfg \<longrightarrow> CHR ''/'' \<notin> set (om_Namespace (cfg_ObjectMeta cfg)))"

definition world_ok :: "ext \<Rightarrow> key \<Rightarrow> world \<Rightarrow> bool" where
  "world_ok X k w \<longleftrightarrow> runs_ok X k w \<and> config_ok w \<and>
     (case w_request w of
        None \<Rightarrow> \<forall>p\<in>set (mine k w). settled_run X p
      | Some ir \<Rightarrow> request_ok X k (mine k w) ir \<and> own_ref k w ir)"

lemma ids_ok_cong:
  "map run_id (w_runs v) = map run_id (w_runs w) \<Longrightarrow> w_used v = w_used w \<Longrightarrow> ids_ok v = ids_ok w"
  unfolding ids_ok_def by (simp flip: set_map)

lemma own_ref_cong:
  "PipelineRunRef (ir_Status ir') = PipelineRunRef (ir_Status ir) \<Longrightarrow> own_ref k w ir' = own_ref k w ir"
  by (simp add: own_ref_def refers_def)

lemma own_ref_none [simp]: "PipelineRunRef (ir_Status ir) = [] \<Longrightarrow> own_ref k w ir"
  by (simp add: own_ref_def refers_def)

lemma refers_unique: "refers ir i \<Longrightarrow> refers ir j \<Longrightarrow> i = j"
  by (auto simp: refers_def prod_eq_iff append_eq_append_conv2 Cons_eq_append_conv append_eq_Cons_conv)
    (metis in_set_conv_decomp)+

lemma world_parts [simp]:
  "mine k (w\<lparr>w_request := r\<rparr>) = mine k w" "others k (w\<lparr>w_request := r\<rparr>) = others k w"
  "runs_ok X k (w\<lparr>w_request := r\<rparr>) = runs_ok X k w" "own_ref k (w\<lparr>w_request := r\<rparr>) ir = own_ref k w ir"
  "ids_ok (w\<lparr>w_request := r\<rparr>) = ids_ok w"
  "config_ok (w\<lparr>w_request := r\<rparr>) = config_ok w" "config_ok (w\<lparr>w_runs := rs\<rparr>) = config_ok w"
  "config_ok (w\<lparr>w_used := us\<rparr>) = config_ok w"
  by (simp_all add: mine_def others_def runs_ok_def ids_ok_def own_ref_def config_ok_def)

section \<open>What the work on one request may change\<close>

text \<open>
  From \<open>w\<close> to \<open>v\<close> at most the request itself and its own runs change, and a run that appears
  has a new name.
\<close>

definition evolves :: "key \<Rightarrow> world \<Rightarrow> world \<Rightarrow> bool" where
  "evolves k w v \<longleftrightarrow> w_config v = w_config w \<and> others k v = others k w \<and> set (w_used w) \<subseteq> set (w_used v) \<and>
     (\<forall>p\<in>set (mine k v). run_id p \<in> run_id ` set (mine k w) \<or> run_id p \<notin> set (w_used w))"

lemma evolves_refl [simp]: "evolves k w w"
  by (simp add: evolves_def)

lemma evolves_trans: "evolves k w u \<Longrightarrow> evolves k u v \<Longrightarrow> evolves k w v"
  unfolding evolves_def by (fastforce simp: image_iff)

lemma evolves_request [simp]: "evolves k w (v\<lparr>w_request := r\<rparr>) = evolves k w v"
  by (simp add: evolves_def)

lemma evolves_create:
  assumes "owned_by k p" and "run_id p \<notin> set (w_used w)"
  shows "evolves k w (w\<lparr>w_runs := w_runs w @ [p], w_used := run_id p # w_used w\<rparr>)"
  using assms by (auto simp: evolves_def mine_def others_def)

lemma evolves_update:
  assumes "\<forall>q\<in>set (w_runs w). run_id q = run_id p \<longrightarrow> owned_by k q" and "owned_by k p"
  shows "evolves k w (w\<lparr>w_runs := map (\<lambda>q. if run_id q = run_id p then p else q) (w_runs w)\<rparr>)"
proof -
  have "filter (\<lambda>p. \<not> owned_by k p) (map (\<lambda>q. if run_id q = run_id p then p else q) qs) =
      filter (\<lambda>p. \<not> owned_by k p) qs" if "set qs \<subseteq> set (w_runs w)" for qs
    using that assms by (induction qs) auto
  then show ?thesis using assms by (fastforce simp: evolves_def mine_def others_def image_iff)
qed

lemma evolves_delete:
  assumes "\<forall>q\<in>set (w_runs w). run_id q = i \<longrightarrow> owned_by k q"
  shows "evolves k w (w\<lparr>w_runs := filter (\<lambda>q. run_id q \<noteq> i) (w_runs w)\<rparr>)"
proof -
  have "filter (\<lambda>p. \<not> owned_by k p) (filter (\<lambda>q. run_id q \<noteq> i) qs) = filter (\<lambda>p. \<not> owned_by k p) qs"
    if "set qs \<subseteq> set (w_runs w)" for qs
    using that assms by (induction qs) auto
  then show ?thesis by (auto simp: evolves_def mine_def others_def)
qed

definition kept :: "ext \<Rightarrow> key \<Rightarrow> world \<Rightarrow> world \<Rightarrow> bool" where
  "kept X k w v \<longleftrightarrow> world_ok X k v \<and> evolves k w v"

end
