(* ===== verification/System_Operations.thy ===== *)
theory System_Operations
  imports Cluster_State
begin

text \<open>
  The operations of the adapter on the clusters of \<open>Cluster_State\<close>: each keeps the invariant
  \<open>world_ok\<close>, whichever calls fail, and while the reconcile goes on the request in memory is
  the stored one.
\<close>

abbreviation world_of :: "world \<Rightarrow> Adapter \<Rightarrow> world" where
  "world_of w a \<equiv> world_after w (a_trace a)"

definition synced :: "ext \<Rightarrow> key \<Rightarrow> env \<Rightarrow> world \<Rightarrow> Adapter \<Rightarrow> bool" where
  "synced X k E w a \<longleftrightarrow> a_loader a = NewLoader E \<and> kept X k w (world_of w a) \<and>
     w_request (world_of w a) = Some (a_request a)"

lemma syncedD:
  assumes "synced X k E w a"
  shows "a_loader a = NewLoader E" "w_request (world_of w a) = Some (a_request a)"
    "world_ok X k (world_of w a)" "runs_ok X k (world_of w a)" "config_ok (world_of w a)"
    "request_ok X k (mine k (world_of w a)) (a_request a)" "keyed k (a_request a)"
    "own_ref k (world_of w a) (a_request a)" "evolves k w (world_of w a)" "kept X k w (world_of w a)"
  using assms by (auto simp: synced_def kept_def world_ok_def request_ok_def)

lemma synced_reads:
  "synced X k E w a \<Longrightarrow> \<forall>e\<in>set es. is_read e \<Longrightarrow> synced X k E w (a\<lparr>a_trace := a_trace a @ es\<rparr>)"
  by (simp add: synced_def world_after_reads)

section \<open>Loading the run\<close>

lemma server_load:
  assumes "synced X k E w a" and "E = server nf f w"
  obtains (fault) e es where "f (a_trace a) = Some e" "\<forall>e\<in>set es. is_read e"
      "loadRun a = ((None, Some e), a\<lparr>a_trace := a_trace a @ es\<rparr>)"
  | (absent) es where "mine k (world_of w a) = []" "\<forall>e\<in>set es. is_read e"
      "loadRun a = ((None, None), a\<lparr>a_trace := a_trace a @ es\<rparr>)"
  | (found) p es where "mine k (world_of w a) = [p]" "\<forall>e\<in>set es. is_read e"
      "loadRun a = ((Some p, None), a\<lparr>a_trace := a_trace a @ es\<rparr>)"
proof -
  let ?sel = "requestSelector (a_request a)" and ?c = "a_internalClient a"
  note d = syncedD[OF assms(1)]
  have m: "filter (\<lambda>p. selects ?sel (plr_Labels p)) (w_runs (world_of w a)) = mine k (world_of w a)"
    using selector_owned[OF d(7)] by (simp add: mine_def)
  have le: "length (mine k (world_of w a)) \<le> 1" using d(4) by (simp add: runs_ok_def)
  have l: "loadRun a = (let r = GetInternalRequestPipelineRun E ?c (a_request a) (a_trace a)
      in (fst r, a\<lparr>a_trace := snd r\<rparr>))"
    using d(1) by (simp add: loadRun_def)
  show thesis
  proof (cases "f (a_trace a)")
    case (Some e)
    then show thesis
      by (intro fault[of e "[ListPLR ?c 1 ?sel ([], Some e)]"])
        (simp_all add: l GetInternalRequestPipelineRun_def assms(2) server_def)
  next
    case None
    then have s: "srv_ListPLR E (a_trace a) ?c 1 ?sel = (mine k (world_of w a), None)"
      using le by (simp add: assms(2) server_def m)
    show thesis
    proof (cases "mine k (world_of w a)")
      case Nil
      with s show thesis
        by (intro absent[of "[ListPLR ?c 1 ?sel ([], None)]"]) (simp_all add: l GetInternalRequestPipelineRun_def)
    next
      case (Cons p ps)
      with le have "ps = []" by simp
      with Cons s show thesis
        by (intro found[of p "[ListPLR ?c 1 ?sel ([p], None)]"]) (simp_all add: l GetInternalRequestPipelineRun_def)
    qed
  qed
qed

section \<open>Cancelling a run\<close>

definition cancel_in :: "world \<Rightarrow> PipelineRun \<Rightarrow> world" where
  "cancel_in w p = w\<lparr>w_runs := map (\<lambda>q. if run_id q = run_id p then cancelled p else q) (w_runs w)\<rparr>"

lemma run_id_cancelled [simp]: "run_id (cancelled p) = run_id p" "plr_Labels (cancelled p) = plr_Labels p"
  "owned_by k (cancelled p) = owned_by k p" "plr_Namespace (cancelled p) = plr_Namespace p"
  "settled_run X (cancelled p)" "annotated_for X k (cancelled p) = annotated_for X k p"
  by (simp_all add: cancelled_def run_id_def owned_by_def settled_run_def annotated_for_def)

lemma run_unique:
  "runs_ok X k w \<Longrightarrow> p \<in> set (w_runs w) \<Longrightarrow> q \<in> set (w_runs w) \<Longrightarrow> run_id q = run_id p \<Longrightarrow> q = p"
  by (auto simp: runs_ok_def ids_ok_def distinct_map dest: inj_onD)

lemma run_find:
  assumes "runs_ok X k w" and "p \<in> set (w_runs w)"
  shows "find (\<lambda>q. run_id q = run_id p) (w_runs w) = Some p"
proof -
  have "find (\<lambda>q. run_id q = run_id p) (w_runs w) \<noteq> None"
    using assms(2) by (auto simp: find_None_iff)
  then obtain q where "find (\<lambda>q. run_id q = run_id p) (w_runs w) = Some q" by blast
  with run_unique[OF assms, of q] find_Some_mem[OF this] show ?thesis by auto
qed

lemma mine_runs: "q \<in> set (mine k w) \<Longrightarrow> q \<in> set (w_runs w)"
  by (simp add: mine_def)

lemma own_ref_run:
  assumes "runs_ok X k w" and "p \<in> set (mine k w)" and "PipelineRunRef (ir_Status ir) = runReference p"
  shows "own_ref k w ir"
proof -
  have p: "p \<in> set (w_runs w)" "owned_by k p" and ns: "CHR ''/'' \<notin> set (plr_Namespace p)"
    using assms(1,2) by (auto simp: mine_def runs_ok_def)
  then have "refers ir (run_id p)" using assms(3) by (simp add: refers_def run_id_def runReference_def Separator_def)
  then have "i = run_id p" if "refers ir i" for i using refers_unique[OF that] by simp
  moreover have "run_id p \<in> set (w_used w)" using assms(1) p(1) by (auto simp: runs_ok_def ids_ok_def)
  moreover have "run_id p \<notin> run_id ` set (others k w)"
    using run_unique[OF assms(1) p(1)] p(2) by (auto simp: others_def)
  ultimately show ?thesis by (auto simp: own_ref_def)
qed

lemma mine_cancel:
  assumes "runs_ok X k w" and "p \<in> set (w_runs w)"
  shows "mine k (cancel_in w p) = map (\<lambda>q. if run_id q = run_id p then cancelled p else q) (mine k w)"
proof -
  have "filter (owned_by k) (map (\<lambda>q. if run_id q = run_id p then cancelled p else q) qs) =
      map (\<lambda>q. if run_id q = run_id p then cancelled p else q) (filter (owned_by k) qs)"
    if "set qs \<subseteq> set (w_runs w)" for qs
    using that run_unique[OF assms] by (induction qs) auto
  then show ?thesis by (simp add: mine_def cancel_in_def)
qed

lemma runs_ok_cancel:
  assumes "runs_ok X k w" and "p \<in> set (w_runs w)"
  shows "runs_ok X k (cancel_in w p)"
proof -
  have ids: "map run_id (w_runs (cancel_in w p)) = map run_id (w_runs w)" by (simp add: cancel_in_def)
  have same: "q = p" if "q \<in> set (mine k w)" "run_id q = run_id p" for q
    by (rule run_unique[OF assms mine_runs[OF that(1)] that(2)])
  let ?ok = "\<lambda>q. CHR ''/'' \<notin> set (plr_Namespace q) \<and> annotated_for X k q"
  have "?ok (if run_id q = run_id p then cancelled p else q)" if "q \<in> set (mine k w)" for q
  proof -
    have "?ok q" using assms(1) that by (simp add: runs_ok_def)
    then show ?thesis using same[OF that] by (cases "run_id q = run_id p") simp_all
  qed
  then have "\<forall>q\<in>set (mine k (cancel_in w p)). ?ok q"
    unfolding mine_cancel[OF assms] set_map by blast
  moreover have "length (mine k (cancel_in w p)) = length (mine k w)" by (simp add: mine_cancel[OF assms])
  moreover have "ids_ok (cancel_in w p)" 
    using assms(1) ids_ok_cong[OF ids] by (simp add: runs_ok_def) (simp add: cancel_in_def)
  ultimately show ?thesis using assms(1) by (simp add: runs_ok_def)
qed

lemma request_ok_cancel:
  assumes "runs_ok X k w" and "p \<in> set (w_runs w)" and "request_ok X k (mine k w) ir"
  shows "request_ok X k (mine k (cancel_in w p)) ir"
proof -
  have "ref_ok X (mine k (cancel_in w p)) ir"
    using assms(3) by (fastforce simp: request_ok_def ref_ok_def mine_cancel[OF assms(1,2)])
  then show ?thesis
    using assms(3) by (auto simp: request_ok_def mine_cancel[OF assms(1,2)])
qed

lemma cancel_synced:
  assumes "synced X k E w a" and "E = server nf f w" and "p \<in> set (w_runs (world_of w a))"
    and "cancelPipelineRun X E (Some p) a = (err, b)"
    and own: "owned_by k p"
  shows "synced X k E w b \<and>
    (err = None \<longrightarrow> (\<forall>q\<in>set (w_runs (world_of w b)). run_id q = run_id p \<longrightarrow> settled_run X q)) \<and>
    map run_id (mine k (world_of w b)) = map run_id (mine k (world_of w a))"
proof -
  note d = syncedD[OF assms(1)]
  show ?thesis
  proof (cases "IsDone X p")
    case True
    with assms(1,3,4) run_unique[OF d(4) assms(3)] show ?thesis
      by (auto simp: cancelPipelineRun_def settled_run_def)
  next
    case False
    let ?r = "srv_PatchPLR E (a_trace a) (a_internalClient a) p (cancelled p)"
    have b: "b = a\<lparr>a_trace := a_trace a @ [PatchPLR (a_internalClient a) p (cancelled p) ?r]\<rparr>" "err = snd ?r"
      using False assms(4) by (simp_all add: cancelPipelineRun_def cancelled_def Let_def)
    show ?thesis
    proof (cases "f (a_trace a)")
      case (Some e)
      then show ?thesis using b assms(1) by (simp add: assms(2) server_def synced_def)
    next
      case None
      have "?r = (cancelled p, None)"
        using None run_find[OF d(4) assms(3)] by (simp add: assms(2) server_def) (simp add: cancelled_def)
      then have w: "world_of w b = cancel_in (world_of w a) p" "err = None"
        using b by (simp_all add: cancel_in_def)
      have ev: "evolves k (world_of w a) (world_of w b)"
        unfolding w cancel_in_def using evolves_update[of "world_of w a" "cancelled p" k] run_unique[OF d(4) assms(3)] own
        by auto
      then have "own_ref k (world_of w b) (a_request a)"
        using d(8) by (auto simp: own_ref_def evolves_def)
      then have "world_ok X k (world_of w b)"
        using d runs_ok_cancel[OF d(4) assms(3)] request_ok_cancel[OF d(4) assms(3) d(6)] w
        by (simp add: world_ok_def) (simp add: cancel_in_def)
      then have "kept X k w (world_of w b)" using evolves_trans[OF d(9) ev] by (simp add: kept_def)
      moreover have "w_request (world_of w b) = Some (a_request b)" using d(2) w b by (simp add: cancel_in_def)
      moreover have "map run_id (mine k (world_of w b)) = map run_id (mine k (world_of w a))"
        using w mine_cancel[OF d(4) assms(3)] by simp
      ultimately show ?thesis using d(1) b w by (auto simp: synced_def cancel_in_def)
    qed
  qed
qed

lemma mine_id: "map run_id (mine k w) = map run_id rs \<Longrightarrow> q \<in> set (mine k w) \<Longrightarrow> run_id q \<in> run_id ` set rs"
  by (metis image_eqI list.set_map)

section \<open>Finalizing\<close>

text \<open>The errors calls may fail with are not the error of a missing object.\<close>

definition proper_faults :: "ext \<Rightarrow> go_error \<Rightarrow> (trace \<Rightarrow> go_error option) \<Rightarrow> bool" where
  "proper_faults X nf f \<longleftrightarrow> IsNotFound X nf \<and> (\<forall>h e. f h = Some e \<longrightarrow> \<not> IsNotFound X e)"

definition finalized :: "ext \<Rightarrow> key \<Rightarrow> env \<Rightarrow> world \<Rightarrow> go_error option \<times> Adapter \<Rightarrow> bool" where
  "finalized X k E w r \<longleftrightarrow> synced X k E w (snd r) \<and>
     (fst r = None \<longrightarrow> (\<forall>p\<in>set (mine k (world_of w (snd r))). settled_run X p))"

lemma finalizeByLabels_synced:
  assumes "synced X k E w a" and "E = server nf f w"
  shows "finalized X k E w (finalizeByLabels X E a)"
  using assms
proof (cases rule: server_load)
  case (fault e es)
  then show ?thesis using synced_reads[OF assms(1)] by (simp add: finalizeByLabels_def finalized_def)
next
  case (absent es)
  then show ?thesis
    using synced_reads[OF assms(1)]
    by (simp add: finalizeByLabels_def finalized_def cancelPipelineRun_def world_after_reads)
next
  case (found p es)
  let ?b = "a\<lparr>a_trace := a_trace a @ es\<rparr>"
  have w: "world_of w ?b = world_of w a" using found by (simp add: world_after_reads)
  obtain err c where c: "cancelPipelineRun X E (Some p) ?b = (err, c)" by fastforce
  have "p \<in> set (w_runs (world_of w ?b))" unfolding w using found(1) by (intro mine_runs[of p k]) simp
  note cs = cancel_synced[OF synced_reads[OF assms(1) found(2)] assms(2) this c]
  have "owned_by k p" using found(1) by (auto simp: mine_def filter_eq_Cons_iff)
  note cs = cs[OF this]
  have "run_id q = run_id p" if "q \<in> set (mine k (world_of w c))" for q
    using mine_id[of k "world_of w c" "[p]", OF _ that] cs found(1) w by simp
  then show ?thesis
    using cs found(3) c by (auto simp: finalizeByLabels_def finalized_def dest: mine_runs)
qed

lemma finalizeByRef_synced:
  assumes "synced X k E w a" and "E = server nf f w" and "proper_faults X nf f"
    and ids: "\<forall>p\<in>set (mine k (world_of w a)). run_id p = (ns, n)"
    and own: "(ns, n) \<notin> run_id ` set (others k (world_of w a))"
  shows "finalized X k E w (finalizeByRef X E ns n a)"
proof -
  note d = syncedD[OF assms(1)]
  let ?r = "srv_GetPLR E (a_trace a) (a_internalClient a) ns n"
  let ?b = "a\<lparr>a_trace := a_trace a @ [GetPLR (a_internalClient a) ns n ?r]\<rparr>"
  have sb: "synced X k E w ?b" and w: "world_of w ?b = world_of w a"
    using synced_reads[OF assms(1), of "[GetPLR (a_internalClient a) ns n ?r]"] by simp_all
  show ?thesis
  proof (cases "f (a_trace a)")
    case (Some e)
    then have "?r = (zero_PipelineRun, Some e)" "\<not> IsNotFound X e"
      using assms(3) by (simp_all add: assms(2) server_def proper_faults_def)
    with sb show ?thesis by (simp add: finalizeByRef_def finalized_def)
  next
    case None
    show ?thesis
    proof (cases "find (\<lambda>p. run_id p = (ns, n)) (w_runs (world_of w a))")
      case nf: None
      then have "mine k (world_of w a) = []" using ids by (auto simp: find_None_iff mine_def filter_empty_conv)
      moreover have "?r = (zero_PipelineRun, Some nf)" using None nf by (simp add: assms(2) server_def)
      ultimately show ?thesis
        using sb w assms(3) by (simp add: finalizeByRef_def finalized_def proper_faults_def)
    next
      case (Some p)
      then have p: "p \<in> set (w_runs (world_of w a))" "run_id p = (ns, n)" using find_Some_mem[OF Some] by simp_all
      have r: "?r = (p, None)" using None Some by (simp add: assms(2) server_def)
      obtain err c where c: "cancelPipelineRun X E (Some p) ?b = (err, c)" by fastforce
      have "owned_by k p" using own p by (force simp: others_def)
      note cs = cancel_synced[OF sb assms(2) _ c this]
      have "run_id q = run_id p" if "q \<in> set (mine k (world_of w c))" for q
        using mine_id[of k "world_of w c" "mine k (world_of w a)", OF _ that] cs p w ids by auto
      then show ?thesis
        using cs c r p(1) w by (auto simp: finalizeByRef_def finalized_def dest: mine_runs)
    qed
  qed
qed

lemma finalize_synced:
  assumes "synced X k E w a" and "E = server nf f w" and "proper_faults X nf f"
  shows "finalized X k E w (finalizeInternalRequest X E a)"
proof (cases "PipelineRunRef (ir_Status (a_request a)) = []")
  case True
  then show ?thesis using finalizeByLabels_synced[OF assms(1,2)] by (simp add: finalizeInternalRequest_def)
next
  case False
  with syncedD(6)[OF assms(1)] obtain ns n where r: "CHR ''/'' \<notin> set ns"
    "PipelineRunRef (ir_Status (a_request a)) = ns @ CHR ''/'' # n"
    "\<forall>p\<in>set (mine k (world_of w a)). run_id p = (ns, n)"
    by (auto simp: request_ok_def ref_ok_def)
  then have own: "(ns, n) \<notin> run_id ` set (others k (world_of w a))"
    using syncedD(8)[OF assms(1)] by (simp add: own_ref_def refers_def)
  from r show ?thesis
    using finalizeByRef_synced[OF assms r(3) own] SplitN2_sep[OF r(1), of n] by (simp add: finalizeInternalRequest_def)
qed

end
