(* ===== verification/System_Specs.thy ===== *)
theory System_Specs
  imports System_Operations Scenarios Run_Creation
begin

text \<open>
  Specifications of the eight operations on clusters with a state, in the form the rule for
  the reconcile loop takes them.
\<close>

section \<open>Finalizers\<close>

lemma finalizers_world:
  assumes "finalizer_api X" and "synced X k E w a" and "E = server nf f w" and "proper_faults X nf f"
  shows "kept X k w (world_of w (snd (EnsureFinalizersAreCalled X E a)))"
proof -
  let ?meta = "ir_ObjectMeta (a_request a)"
  obtain err b where f: "finalizeInternalRequest X E a = (err, b)" by fastforce
  have fin: "synced X k E w b" "err = None \<Longrightarrow> \<forall>p\<in>set (mine k (world_of w b)). settled_run X p"
    using finalize_synced[OF assms(2-4)] f by (simp_all add: finalized_def)
  show ?thesis
  proof (cases "om_DeletionTimestamp ?meta = None \<or>
      \<not> ContainsFinalizer X (om_Finalizers ?meta) InternalRequestFinalizer \<or> err \<noteq> None")
    case True
    then show ?thesis
      using syncedD(10)[OF assms(2)] syncedD(10)[OF fin(1)] f
      by (auto simp: EnsureFinalizersAreCalled_def Let_def)
  next
    case False
    note d = syncedD[OF fin(1)]
    let ?ir = "a_request b" and ?fs = "RemoveFinalizer X (om_Finalizers (ir_ObjectMeta (a_request b))) InternalRequestFinalizer"
    let ?ir' = "?ir\<lparr>ir_ObjectMeta := (ir_ObjectMeta ?ir)\<lparr>om_Finalizers := ?fs\<rparr>\<rparr>"
    let ?r = "srv_PatchIR E (a_trace b) (a_client b) ?ir ?ir'"
    have w: "world_of w (snd (EnsureFinalizersAreCalled X E a)) =
        apply_event (PatchIR (a_client b) ?ir ?ir' ?r) (world_of w b)"
      using False f by (auto simp: EnsureFinalizersAreCalled_def removeFinalizerPatch_def patchRequest_def Let_def
          split: option.splits)
    show ?thesis
    proof (cases "f (a_trace b)")
      case (Some e)
      then have "?r = (?ir', Some e)" by (simp add: assms(3) server_def)
      then show ?thesis using w d(10) by simp
    next
      case None
      then have "?r = (?ir', None)" using d(2) by (simp add: assms(3) server_def)
      moreover have "request_ok X k (mine k (world_of w b)) ?ir'"
        using d(6) fin(2) False by (auto simp: request_ok_def keyed_def ref_ok_def HasCompleted_def succeededCondition_def)
      ultimately show ?thesis
        using w d fin(2) False own_ref_cong[of ?ir' ?ir] by (simp add: kept_def world_ok_def stored_def)
    qed
  qed
qed

lemma added_synced:
  assumes "finalizer_api X" and "results_api X" and "synced X k E w a" and "E = server nf f w"
  shows "kept X k w (world_of w (snd (EnsureFinalizerIsAdded X E a)))"
    and "proceeds (EnsureFinalizerIsAdded X E a) \<Longrightarrow> synced X k E w (snd (EnsureFinalizerIsAdded X E a)) \<and>
      InternalRequestFinalizer \<in> set (om_Finalizers (ir_ObjectMeta (a_request (snd (EnsureFinalizerIsAdded X E a)))))"
proof -
  note d = syncedD[OF assms(3)]
  let ?ir = "a_request a" and ?r' = "with_finalizer X (a_request a)"
  have "kept X k w (world_of w (snd (EnsureFinalizerIsAdded X E a))) \<and>
    (proceeds (EnsureFinalizerIsAdded X E a) \<longrightarrow> synced X k E w (snd (EnsureFinalizerIsAdded X E a)) \<and>
      InternalRequestFinalizer \<in> set (om_Finalizers (ir_ObjectMeta (a_request (snd (EnsureFinalizerIsAdded X E a))))))"
  proof (cases "InternalRequestFinalizer \<in> set (om_Finalizers (ir_ObjectMeta ?ir))")
    case True
    then show ?thesis using assms(3) d(10) finalizer_api.contains_iff[OF assms(1)]
      by (simp add: EnsureFinalizerIsAdded_def)
  next
    case False
    let ?r = "srv_PatchIR E (a_trace a) (a_client a) ?ir ?r'"
    have op: "EnsureFinalizerIsAdded X E a = (Ret (RequeueOnErrorOrContinue X (snd ?r)),
        a\<lparr>a_request := fst ?r, a_trace := a_trace a @ [PatchIR (a_client a) ?ir ?r' ?r]\<rparr>)"
      using False finalizer_api.contains_iff[OF assms(1)]
      by (simp add: EnsureFinalizerIsAdded_def patchRequest_def with_finalizer_def Let_def)
    show ?thesis
    proof (cases "f (a_trace a)")
      case (Some e)
      then have "?r = (?r', Some e)" by (simp add: assms(4) server_def)
      then show ?thesis using op d(10) results_api.continues_or_continue_iff[OF assms(2)] by simp
    next
      case None
      then have r: "?r = (?r', None)" using d(2) by (simp add: assms(4) server_def) (simp add: with_finalizer_def)
      have fin: "InternalRequestFinalizer \<in> set (om_Finalizers (ir_ObjectMeta ?r'))"
        using finalizer_api.set_add[OF assms(1)] by (simp add: with_finalizer_def)
      then have st: "stored ?r' = Some ?r'" by (auto simp: stored_def)
      have "request_ok X k (mine k (world_of w a)) ?r'"
        using d(6) fin by (simp add: request_ok_def keyed_def ref_ok_def) (simp add: with_finalizer_def)
      then have "kept X k w ((world_of w a)\<lparr>w_request := Some ?r'\<rparr>)"
        using d(4,5,8,9) own_ref_cong[of ?r' ?ir] by (simp add: kept_def world_ok_def)
      then show ?thesis using op r fin st d(1) by (simp add: synced_def)
    qed
  qed
  then show "kept X k w (world_of w (snd (EnsureFinalizerIsAdded X E a)))"
    "proceeds (EnsureFinalizerIsAdded X E a) \<Longrightarrow> synced X k E w (snd (EnsureFinalizerIsAdded X E a)) \<and>
      InternalRequestFinalizer \<in> set (om_Finalizers (ir_ObjectMeta (a_request (snd (EnsureFinalizerIsAdded X E a)))))"
    by blast+
qed

section \<open>Status patches\<close>

text \<open>The status of a stored request replaced by that of another one.\<close>

definition status_only :: "InternalRequest \<Rightarrow> InternalRequest \<Rightarrow> bool" where
  "status_only ir ir' \<longleftrightarrow> ir' = ir\<lparr>ir_Status := ir_Status ir'\<rparr>"

lemma status_onlyI:
  "ir_TypeMeta ir' = ir_TypeMeta ir \<Longrightarrow> ir_ObjectMeta ir' = ir_ObjectMeta ir \<Longrightarrow> ir_Spec ir' = ir_Spec ir \<Longrightarrow>
     status_only ir ir'"
  unfolding status_only_def by (rule InternalRequest.equality) simp_all

lemma status_only_frame:
  assumes "status_only ir ir'"
  shows "ir_ObjectMeta ir' = ir_ObjectMeta ir" "ir_TypeMeta ir' = ir_TypeMeta ir" "ir_Spec ir' = ir_Spec ir"
proof -
  obtain s where "ir' = ir\<lparr>ir_Status := s\<rparr>" using assms unfolding status_only_def by blast
  then show "ir_ObjectMeta ir' = ir_ObjectMeta ir" "ir_TypeMeta ir' = ir_TypeMeta ir" "ir_Spec ir' = ir_Spec ir" by simp_all
qed

lemma patchStatus_world:
  assumes "w_request (world_of w a) = Some base" and "kept X k w (world_of w a)" and "E = server nf f w"
    and "status_only base (a_request a)" and "request_ok X k (mine k (world_of w a)) (a_request a)"
    and "own_ref k (world_of w a) (a_request a)"
    and "patchRequestStatus E base a = (err, b)"
  shows "kept X k w (world_of w b)" and "err = None \<Longrightarrow> a_loader a = NewLoader E \<Longrightarrow> synced X k E w b \<and> a_request b = a_request a"
proof -
  let ?r = "srv_PatchIRStatus E (a_trace a) (a_client a) base (a_request a)"
  have b: "err = snd ?r" "b = a\<lparr>a_request := fst ?r,
      a_trace := a_trace a @ [PatchIRStatus (a_client a) base (a_request a) ?r]\<rparr>"
    using assms(7) by (simp_all add: patchRequestStatus_def Let_def)
  have "kept X k w (world_of w b) \<and> (err = None \<longrightarrow> a_loader a = NewLoader E \<longrightarrow> synced X k E w b \<and> a_request b = a_request a)"
  proof (cases "f (a_trace a)")
    case (Some e)
    then have "?r = (a_request a, Some e)" by (simp add: assms(3) server_def)
    then show ?thesis using b assms(2) by simp
  next
    case None
    then have r: "?r = (a_request a, None)"
      using assms(1,4) by (simp add: assms(3) server_def status_only_def)
    then have w: "world_of w b = (world_of w a)\<lparr>w_request := Some (a_request a)\<rparr>" using b by simp
    have "kept X k w (world_of w b)" using assms(2,5,6) by (simp add: w kept_def world_ok_def)
    then show ?thesis using b r w by (simp add: synced_def)
  qed
  then show "kept X k w (world_of w b)"
    "err = None \<Longrightarrow> a_loader a = NewLoader E \<Longrightarrow> synced X k E w b \<and> a_request b = a_request a" by blast+
qed

lemma request_ok_status:
  assumes "request_ok X k runs ir" and "ir_ObjectMeta ir' = ir_ObjectMeta ir" and "ir_TypeMeta ir' = ir_TypeMeta ir"
    and "PipelineRunRef (ir_Status ir') = PipelineRunRef (ir_Status ir)"
    and "HasCompleted X ir \<longrightarrow> HasCompleted X ir'"
  shows "request_ok X k runs ir'"
  using assms by (auto simp: request_ok_def keyed_def ref_ok_def)

lemma rejected_ref [simp]:
  "PipelineRunRef (ir_Status (fst (MarkRejected X msg ir))) = PipelineRunRef (ir_Status ir)"
  "PipelineRunRef (ir_Status (fst (MarkRunning X now ir))) = PipelineRunRef (ir_Status ir)"
  by (simp_all add: MarkRejected_def MarkRunning_def Let_def)

lemma reject_world:
  assumes "conditions_api X" and "synced X k E w a" and "E = server nf f w"
  shows "kept X k w (world_of w (snd (reject X E msg a)))"
proof -
  note d = syncedD[OF assms(2)]
  let ?t = "MarkRejected X msg (a_request a)"
  have c: "HasCompleted X (a_request a) \<longrightarrow> HasCompleted X (fst ?t)" by simp
  obtain err b where p: "patchRequestStatus E (a_request a) (transition ?t a) = (err, b)" by fastforce
  have "kept X k w (world_of w b)"
    by (rule patchStatus_world(1)[OF _ _ assms(3) _ _ _ p])
      (use d request_ok_status[OF d(6) _ _ _ c] own_ref_cong[of "fst ?t" "a_request a"] in \<open>simp_all add: status_onlyI\<close>)
  then show ?thesis using p by (simp add: reject_def)
qed

lemma allowed_cases:
  assumes "results_api X" and "a_config a = Some cfg"
  obtains (panic) pm where "EnsureRequestIsAllowed X E a = (Panic pm, a)"
  | (rejected) msg where "EnsureRequestIsAllowed X E a = reject X E msg a"
  | (admitted) "EnsureRequestIsAllowed X E a = (Ret (ContinueProcessing X), a)"
proof (cases "s_Pipeline (ir_Spec (a_request a))")
  case None
  then have "EnsureRequestIsAllowed X E a = (Panic ''nil pointer dereference'', a) \<or>
      (\<exists>msg. EnsureRequestIsAllowed X E a = reject X E msg a)"
    using assms(2) by (auto simp: EnsureRequestIsAllowed_def allowLoop_member ensureGitResolverURLIsAllowed_def)
  then show ?thesis using panic rejected by blast
next
  case (Some p)
  then show ?thesis
    using admitted rejected results_api.allowed_admitted[OF assms] results_api.allowed_rejected[OF assms _ Some, of E]
    by (cases "admits cfg (a_request a)") auto
qed

lemma allowed_world:
  assumes "conditions_api X" and "results_api X" and "synced X k E w a" and "E = server nf f w"
    and "a_config a = Some cfg"
  shows "kept X k w (world_of w (snd (EnsureRequestIsAllowed X E a)))"
  by (rule allowed_cases[OF assms(2,5), of E])
    (use reject_world[OF assms(1,3,4)] syncedD(10)[OF assms(3)] in simp_all)

section \<open>Creating the run\<close>

lemma register_world:
  assumes "conditions_api X" and "synced X k E w a" and "E = server nf f w"
    and "registerInternalRequestStatus X E (Some p) a = (err, b)"
  shows "kept X k w (world_of w b)" and "err = None \<Longrightarrow> synced X k E w b \<and>
    om_Finalizers (ir_ObjectMeta (a_request b)) = om_Finalizers (ir_ObjectMeta (a_request a))"
proof -
  note d = syncedD[OF assms(2)]
  let ?t = "MarkRunning X (Now E (a_trace a)) (a_request a)"
  have p: "patchRequestStatus E (a_request a) (transition ?t a) = (err, b)"
    using assms(4) by (simp add: registerInternalRequestStatus_def Let_def)
  have c: "HasCompleted X (a_request a) \<longrightarrow> HasCompleted X (fst ?t)" by simp
  have "kept X k w (world_of w b) \<and> (err = None \<longrightarrow> synced X k E w b \<and> a_request b = fst ?t)"
    using patchStatus_world[OF _ _ assms(3) _ _ _ p] d request_ok_status[OF d(6) _ _ _ c] own_ref_cong[of "fst ?t" "a_request a"] by (simp add: status_onlyI)
  then show "kept X k w (world_of w b)" and "err = None \<Longrightarrow> synced X k E w b \<and>
    om_Finalizers (ir_ObjectMeta (a_request b)) = om_Finalizers (ir_ObjectMeta (a_request a))" by auto
qed

lemma named_sel [simp]:
  "plr_Labels (named runs p) = plr_Labels p" "plr_Namespace (named runs p) = plr_Namespace p"
  "owned_by k (named runs p) = owned_by k p" "annotated_for X k (named runs p) = annotated_for X k p"
  by (simp_all add: named_def owned_by_def annotated_for_def)

lemma created_run_owned:
  assumes "owner_api X" and "requestPipelineRun X cfg ir = Ret plr" and "keyed k ir"
  shows "owned_by k plr" and "plr_Namespace plr = om_Namespace (cfg_ObjectMeta cfg)"
    and "ir_TypeMeta ir = request_type \<Longrightarrow> annotated_for X k plr"
proof -
  show "owned_by k plr" "plr_Namespace plr = om_Namespace (cfg_ObjectMeta cfg)"
    using owner_api.requestPipelineRun_meta[OF assms(1,2)] assms(3)
    by (simp_all add: owned_by_def keyed_def fmlookup_requestLabels)
  have "\<exists>obj. plr_ObjectMeta plr = fst (SetOwnerAnnotations X (ir_TypeMeta ir) (ir_ObjectMeta ir) obj)"
    using assms(2) by (metis requestPipelineRun_spec)
  then show "annotated_for X k plr" if "ir_TypeMeta ir = request_type"
    using assms(3) that unfolding annotated_for_def keyed_def by (metis (no_types))
qed

lemma create_world:
  assumes "owner_api X" and "synced X k E w a" and "E = server nf f w" and "mine k (world_of w a) = []"
    and "\<not> HasCompleted X (a_request a)" and "a_config a = Some cfg"
    and "CHR ''/'' \<notin> set (om_Namespace (cfg_ObjectMeta cfg))"
    and fin: "InternalRequestFinalizer \<in> set (om_Finalizers (ir_ObjectMeta (a_request a)))"
  shows "synced X k E w (snd (createInternalRequestPipelineRun X E a))"
proof (cases "requestPipelineRun X cfg (a_request a)")
  case (Panic e)
  with assms(2,6) show ?thesis by (simp add: createInternalRequestPipelineRun_def)
next
  case (Ret plr)
  note d = syncedD[OF assms(2)]
  let ?r = "srv_CreatePLR E (a_trace a) (a_internalClient a) plr"
  have b: "snd (createInternalRequestPipelineRun X E a) =
      a\<lparr>a_trace := a_trace a @ [CreatePLR (a_internalClient a) plr ?r]\<rparr>"
    using Ret assms(6) by (simp add: createInternalRequestPipelineRun_def Let_def)
  show ?thesis
  proof (cases "f (a_trace a)")
    case (Some e)
    then have "?r = (plr, Some e)" by (simp add: assms(3) server_def)
    then show ?thesis using b assms(2) by (simp add: synced_def)
  next
    case None
    let ?p = "named (w_used (world_of w a)) plr" and ?w = "world_of w a"
    have "?r = (?p, None)" using None by (simp add: assms(3) server_def)
    then have w: "world_of w (snd (createInternalRequestPipelineRun X E a)) = ?w\<lparr>w_runs := w_runs ?w @ [?p], w_used := run_id ?p # w_used ?w\<rparr>"
      using b by simp
    have m: "mine k (?w\<lparr>w_runs := w_runs ?w @ [?p], w_used := run_id ?p # w_used ?w\<rparr>) = [?p]"
      using assms(4) created_run_owned(1)[OF assms(1) Ret d(7)] by (simp add: mine_def)
    have "ids_ok (?w\<lparr>w_runs := w_runs ?w @ [?p], w_used := run_id ?p # w_used ?w\<rparr>)"
      using d(4) named_fresh[of "w_used ?w" plr] by (auto simp: runs_ok_def ids_ok_def)
    then have "runs_ok X k (?w\<lparr>w_runs := w_runs ?w @ [?p], w_used := run_id ?p # w_used ?w\<rparr>)"
      using d(4,6) assms(7) created_run_owned(2,3)[OF assms(1) Ret d(7)]
      by (simp add: runs_ok_def m request_ok_def)
    moreover have "evolves k w (?w\<lparr>w_runs := w_runs ?w @ [?p], w_used := run_id ?p # w_used ?w\<rparr>)"
      using created_run_owned(1)[OF assms(1) Ret d(7)] named_fresh
      by (intro evolves_trans[OF d(9) evolves_create]) simp_all
    moreover have nr: "PipelineRunRef (ir_Status (a_request a)) = []"
      using d(6) assms(4,5) by (auto simp: request_ok_def ref_ok_def)
    then have "request_ok X k [?p] (a_request a)" using d(6) fin by (simp add: request_ok_def ref_ok_def)
    ultimately show ?thesis using d b w m nr by (simp add: synced_def kept_def world_ok_def)
  qed
qed

lemma created_world:
  assumes "conditions_api X" and "owner_api X" and "results_api X" and "synced X k E w a" and "E = server nf f w"
    and "proper_faults X nf f" and "\<not> HasCompleted X (a_request a)" and "a_config a = Some cfg"
    and "CHR ''/'' \<notin> set (om_Namespace (cfg_ObjectMeta cfg))"
    and "InternalRequestFinalizer \<in> set (om_Finalizers (ir_ObjectMeta (a_request a)))"
  shows "kept X k w (world_of w (snd (EnsurePipelineRunIsCreated X E a))) \<and>
    (proceeds (EnsurePipelineRunIsCreated X E a) \<longrightarrow> synced X k E w (snd (EnsurePipelineRunIsCreated X E a)))"
  using assms(4,5)
proof (cases rule: server_load)
  case (fault e es)
  then have "hardError X (Some e) = Some e" using assms(6) by (simp add: hardError_def proper_faults_def)
  with fault show ?thesis
    using syncedD(10)[OF synced_reads[OF assms(4) fault(2)]] results_api.not_continues_simps(3)[OF assms(3)]
    by (simp add: EnsurePipelineRunIsCreated_def)
next
  case (absent es)
  let ?b = "a\<lparr>a_trace := a_trace a @ es\<rparr>"
  have sb: "synced X k E w ?b" and "mine k (world_of w ?b) = []"
    using synced_reads[OF assms(4) absent(2)] absent by (simp_all add: world_after_reads)
  then have sc: "synced X k E w (snd (createInternalRequestPipelineRun X E ?b))"
    using create_world[OF assms(2) sb assms(5)] assms(7-10) by simp
  note op = EnsurePipelineRunIsCreated_def hardError_def absent(3)
  show ?thesis
  proof (cases rule: create_cases[where X = X and E = E and b = ?b])
    case (panic e c)
    with sc show ?thesis by (simp add: op syncedD(10))
  next
    case (refused e c)
    with sc show ?thesis using results_api.not_continues_simps(3)[OF assms(3)] by (simp add: op syncedD(10))
  next
    case (made q c)
    obtain err e where g: "registerInternalRequestStatus X E (Some q) c = (err, e)" by fastforce
    show ?thesis
      using made sc g register_world[OF assms(1) _ assms(5) g] results_api.continues_or_continue_iff[OF assms(3)]
      by (simp add: op)
  qed
next
  case (found p es)
  let ?b = "a\<lparr>a_trace := a_trace a @ es\<rparr>"
  have sb: "synced X k E w ?b" using synced_reads[OF assms(4) found(2)] .
  obtain err e where g: "registerInternalRequestStatus X E (Some p) ?b = (err, e)" by fastforce
  show ?thesis
    using found sb syncedD(10)[OF sb] g register_world[OF assms(1) sb assms(5) g]
      results_api.continues_or_continue_iff[OF assms(3)]
    by (simp add: EnsurePipelineRunIsCreated_def hardError_def)
qed

section \<open>Tracking and deleting the run\<close>

lemma tracked_status_only:
  assumes "tekton_api X"
  shows "status_only (a_request a) (a_request (tracked X E p a)) \<and>
    PipelineRunRef (ir_Status (a_request (tracked X E p a))) = runReference p"
proof -
  obtain trs err h where l: "ld_GetInternalRequestPipelineRunTaskRuns (a_loader a) (a_internalClient a) p
      (a_trace a) = ((trs, err), h)" by (metis prod.collapse)
  from assms show ?thesis
  proof (cases rule: run_cases[where p = p])
    case running_run
    then show ?thesis by (simp add: tekton_api.tracked_open[OF assms] status_onlyI)
  next
    case (succeeded_run c)
    then show ?thesis by (simp add: tekton_api.tracked_succeeded[OF assms succeeded_run] status_onlyI)
  next
    case (failed_run c)
    then show ?thesis by (simp add: tekton_api.tracked_failed[OF assms failed_run l] status_onlyI Let_def)
  qed
qed

lemma tracked_world:
  assumes "tekton_api X" and "synced X k E w a" and "E = server nf f w"
    and m: "mine k (world_of w a) = [p]" and es: "\<forall>e\<in>set es. is_read e"
    and p: "patchRequestStatus E (a_request a) (tracked X E p (a\<lparr>a_trace := a_trace a @ es\<rparr>)) = (err, c)"
  shows "kept X k w (world_of w c) \<and> (err = None \<longrightarrow> synced X k E w c)"
proof -
  let ?b = "a\<lparr>a_trace := a_trace a @ es\<rparr>"
  let ?t = "tracked X E p ?b"
  note d = syncedD[OF synced_reads[OF assms(2) es]]
  have ol: "object_loader (a_loader ?b)" using d(1) cluster_loader.object_loader_axioms by simp
  obtain ts where "a_trace ?t = a_trace ?b @ ts" "local_reads ?b ts"
    using tracked_frame(1)[OF assms(1) ol] by blast
  then have wt: "world_of w ?t = world_of w a"
    using es by (simp add: world_after_reads local_reads_def)
  have ref: "status_only (a_request a) (a_request ?t)" "PipelineRunRef (ir_Status (a_request ?t)) = runReference p"
    using tracked_status_only[OF assms(1), of ?b E p] by simp_all
  have da: "w_request (world_of w a) = Some (a_request a)" "kept X k w (world_of w a)" "runs_ok X k (world_of w a)"
    "request_ok X k (mine k (world_of w a)) (a_request a)"
    using syncedD[OF assms(2)] by simp_all
  have ns: "CHR ''/'' \<notin> set (plr_Namespace p)" using da(3) m by (simp add: runs_ok_def)
  have "ref_ok X [p] (a_request ?t)"
    using ref(2) ns by (auto simp: ref_ok_def runReference_def Separator_def run_id_def)
  then have ok: "request_ok X k (mine k (world_of w a)) (a_request ?t)"
    using da(4) status_only_frame[OF ref(1)] m by (simp add: request_ok_def keyed_def)
  have own: "own_ref k (world_of w a) (a_request ?t)" using own_ref_run[OF da(3) _ ref(2)] m by simp
  show ?thesis
    using patchStatus_world[OF _ _ assms(3) _ _ _ p] da wt ref(1) ok own d(1) tracked_config(2)[OF assms(1)] by simp
qed

lemma tracking_world:
  assumes "tekton_api X" and "results_api X" and "synced X k E w a" and "E = server nf f w"
    and "proper_faults X nf f"
  shows "kept X k w (world_of w (snd (EnsureStatusIsTracked X E a))) \<and>
    (proceeds (EnsureStatusIsTracked X E a) \<longrightarrow> synced X k E w (snd (EnsureStatusIsTracked X E a)))"
  using assms(3,4)
proof (cases rule: server_load)
  case (fault e es)
  then have "hardError X (Some e) = Some e" using assms(5) by (simp add: hardError_def proper_faults_def)
  with fault show ?thesis
    using syncedD(10)[OF synced_reads[OF assms(3) fault(2)]] results_api.not_continues_simps(3)[OF assms(2)]
    by (simp add: EnsureStatusIsTracked_def)
next
  case (absent es)
  then show ?thesis
    using synced_reads[OF assms(3) absent(2)] syncedD(10)[OF synced_reads[OF assms(3) absent(2)]]
    by (simp add: EnsureStatusIsTracked_def hardError_def)
next
  case (found p es)
  let ?b = "a\<lparr>a_trace := a_trace a @ es\<rparr>"
  obtain err c where p: "patchRequestStatus E (a_request a) (tracked X E p ?b) = (err, c)" by fastforce
  show ?thesis
    using tracked_world[OF assms(1,3,4) found(1,2) p] p found(3) results_api.continues_or_continue_iff[OF assms(2)]
    by (simp add: EnsureStatusIsTracked_def hardError_def tekton_api.register_tracked[OF assms(1)])
qed

lemma delete_world:
  assumes "synced X k E w a" and "E = server nf f w" and "mine k (world_of w a) = [p]"
    and "HasCompleted X (a_request a)"
  shows "kept X k w (apply_event (DeletePLR c (Some p) None) (world_of w a))"
proof -
  note d = syncedD[OF assms(1)]
  let ?w = "(world_of w a)\<lparr>w_runs := filter (\<lambda>q. run_id q \<noteq> run_id p) (w_runs (world_of w a))\<rparr>"
  have p: "p \<in> set (w_runs (world_of w a))" using assms(3) by (intro mine_runs[of p k]) simp
  have "owned_by k q \<Longrightarrow> q \<in> set (w_runs (world_of w a)) \<Longrightarrow> q = p" for q
  proof -
    assume "owned_by k q" "q \<in> set (w_runs (world_of w a))"
    then have "q \<in> set (mine k (world_of w a))" by (simp add: mine_def)
    then show "q = p" by (simp add: assms(3))
  qed
  then have m: "mine k ?w = []" by (auto simp: mine_def filter_empty_conv)
  have "ids_ok ?w" using d(4) by (auto simp: runs_ok_def ids_ok_def distinct_map_filter)
  then have "runs_ok X k ?w" by (simp add: runs_ok_def m)
  moreover have "own_ref k ?w (a_request a)" using d(8) by (auto simp: own_ref_def others_def)
  moreover have "evolves k w ?w"
    using run_unique[OF d(4) p] assms(3) by (intro evolves_trans[OF d(9) evolves_delete]) (auto simp: mine_def filter_eq_Cons_iff)
  moreover have "request_ok X k [] (a_request a)"
    using d(6) assms(4) by (auto simp: request_ok_def ref_ok_def)
  ultimately show ?thesis using d m by (simp add: kept_def world_ok_def)
qed

lemma deleted_world:
  assumes "synced X k E w a" and "E = server nf f w"
  shows "kept X k w (world_of w (snd (EnsurePipelineRunIsDeleted X E a)))"
proof (cases "\<exists>cfg. HasCompleted X (a_request a) \<and> a_config a = Some cfg \<and> \<not> Debug (cfg_Spec cfg)")
  case False
  then show ?thesis
    using syncedD(10)[OF assms(1)] by (auto simp: EnsurePipelineRunIsDeleted_def split: option.splits)
next
  case True
  then obtain cfg where c: "HasCompleted X (a_request a)" "a_config a = Some cfg" "\<not> Debug (cfg_Spec cfg)" by blast
  from assms show ?thesis
  proof (cases rule: server_load)
    case (fault e es)
    with c show ?thesis using syncedD(10)[OF synced_reads[OF assms(1) fault(2)]]
      by (simp add: EnsurePipelineRunIsDeleted_def)
  next
    case (absent es)
    let ?b = "a\<lparr>a_trace := a_trace a @ es\<rparr>"
    have sb: "synced X k E w ?b" using synced_reads[OF assms(1) absent(2)] .
    show ?thesis
      using syncedD(10)[OF sb] op_run_deleted[OF absent(3) c, of E] by (simp add: Let_def)
  next
    case (found p es)
    let ?b = "a\<lparr>a_trace := a_trace a @ es\<rparr>"
    have sb: "synced X k E w ?b" using synced_reads[OF assms(1) found(2)] .
    let ?err = "srv_DeletePLR E (a_trace ?b) (a_internalClient ?b) (Some p)"
    have "world_of w (snd (EnsurePipelineRunIsDeleted X E a)) =
        apply_event (DeletePLR (a_internalClient a) (Some p) ?err) (world_of w ?b)"
      using op_run_deleted[OF found(3) c, of E] by (simp add: Let_def)
    then show ?thesis
      using delete_world[OF sb assms(2), of p "a_internalClient a"] syncedD(10)[OF sb] found(1,2) c(1)
      by (cases ?err) (simp_all add: world_after_reads)
  qed
qed

end
