(* ===== verification/System.thy ===== *)
theory System
  imports System_Specs
begin

text \<open>
  The operator and its surroundings as one transition system: reconciles of a request, in which
  any call may fail, interleaved with what users, administrators and Tekton do. The invariant
  of \<open>Cluster_State\<close> holds in every reachable state.
\<close>

section \<open>A reconcile keeps the invariant\<close>

definition ready :: "ext \<Rightarrow> key \<Rightarrow> env \<Rightarrow> world \<Rightarrow> Adapter \<Rightarrow> bool" where
  "ready X k E w a \<longleftrightarrow> synced X k E w a \<and>
     InternalRequestFinalizer \<in> set (om_Finalizers (ir_ObjectMeta (a_request a)))"

definition configured_run :: "Adapter \<Rightarrow> bool" where
  "configured_run a \<longleftrightarrow> (\<exists>cfg. a_config a = Some cfg \<and> CHR ''/'' \<notin> set (om_Namespace (cfg_ObjectMeta cfg)))"

lemma config_step:
  assumes "ready X k E w a" and "E = server nf f w"
  shows "ready X k E w (snd (EnsureConfigIsLoaded X E a)) \<and> configured_run (snd (EnsureConfigIsLoaded X E a))"
proof -
  note d = syncedD[OF conjunct1[OF assms(1)[unfolded ready_def]]]
  let ?n = InternalServicesConfigResourceName
  let ?r = "srv_GetConfig E (a_trace a) (a_internalClient a) (serviceNamespace E) ?n"
  let ?es = "[GetConfig (a_internalClient a) (serviceNamespace E) ?n ?r]"
  have "CHR ''/'' \<notin> set (om_Namespace (cfg_ObjectMeta (fst ?r)))"
    using d(5) by (auto simp: assms(2) server_def config_ok_def zero_InternalServicesConfig_def zero_ObjectMeta_def
        split: option.splits)
  moreover have "serviceNamespace E = ''default''" by (simp add: serviceNamespace_def assms(2) server_def)
  moreover have "a_trace (snd (EnsureConfigIsLoaded X E a)) = a_trace a @ ?es"
    using d(1) by (auto simp: EnsureConfigIsLoaded_def GetInternalServicesConfig_def Let_def split: option.splits prod.splits)
  moreover have "a_config (snd (EnsureConfigIsLoaded X E a)) \<in>
      {Some (fst ?r), Some (getDefaultInternalServicesConfig (serviceNamespace E))}"
    using d(1) by (auto simp: EnsureConfigIsLoaded_def GetInternalServicesConfig_def Let_def split: option.splits prod.splits)
  ultimately show ?thesis
    using assms(1) by (auto simp: ready_def synced_def configured_run_def getDefaultInternalServicesConfig_def)
qed

lemma spec_world:
  assumes apis: "conditions_api X" "results_api X" "finalizer_api X" "tekton_api X" "owner_api X"
    and E: "E = server nf f w" and pf: "proper_faults X nf f"
  shows "spec (synced X k E w) (EnsureFinalizersAreCalled X E) (synced X k E w) (\<lambda>_ a. kept X k w (world_of w a))"
    and "spec (synced X k E w) (EnsureFinalizerIsAdded X E) (ready X k E w) (\<lambda>_ a. kept X k w (world_of w a))"
    and "spec (ready X k E w) (EnsureRequestINotCompleted X)
      (\<lambda>a. ready X k E w a \<and> \<not> HasCompleted X (a_request a)) (\<lambda>_ a. kept X k w (world_of w a))"
    and "spec (\<lambda>a. ready X k E w a \<and> \<not> HasCompleted X (a_request a)) (EnsureConfigIsLoaded X E)
      (\<lambda>a. ready X k E w a \<and> \<not> HasCompleted X (a_request a) \<and> configured_run a) (\<lambda>_ a. kept X k w (world_of w a))"
    and "spec (\<lambda>a. ready X k E w a \<and> \<not> HasCompleted X (a_request a) \<and> configured_run a) (EnsureRequestIsAllowed X E)
      (\<lambda>a. ready X k E w a \<and> \<not> HasCompleted X (a_request a) \<and> configured_run a) (\<lambda>_ a. kept X k w (world_of w a))"
    and "spec (\<lambda>a. ready X k E w a \<and> \<not> HasCompleted X (a_request a) \<and> configured_run a)
      (EnsurePipelineRunIsCreated X E) (synced X k E w) (\<lambda>_ a. kept X k w (world_of w a))"
    and "spec (synced X k E w) (EnsureStatusIsTracked X E) (synced X k E w) (\<lambda>_ a. kept X k w (world_of w a))"
    and "spec (synced X k E w) (EnsurePipelineRunIsDeleted X E) (\<lambda>a. kept X k w (world_of w a))
      (\<lambda>_ a. kept X k w (world_of w a))"
proof -
  show "spec (synced X k E w) (EnsureFinalizersAreCalled X E) (synced X k E w) (\<lambda>_ a. kept X k w (world_of w a))"
    using finalizers_world[OF apis(3) _ E pf] finalizers_continue(1)[OF apis(2)] by (intro specI) simp_all
  show "spec (synced X k E w) (EnsureFinalizerIsAdded X E) (ready X k E w) (\<lambda>_ a. kept X k w (world_of w a))"
    using added_synced[OF apis(3,2) _ E] by (intro specI) (simp_all add: ready_def)
  show "spec (ready X k E w) (EnsureRequestINotCompleted X)
      (\<lambda>a. ready X k E w a \<and> \<not> HasCompleted X (a_request a)) (\<lambda>_ a. kept X k w (world_of w a))"
    using results_api.not_continues_simps(1)[OF apis(2)]
    by (auto intro!: specI simp: ready_def EnsureRequestINotCompleted_def syncedD(10) split: if_splits)
  show "spec (\<lambda>a. ready X k E w a \<and> \<not> HasCompleted X (a_request a)) (EnsureConfigIsLoaded X E)
      (\<lambda>a. ready X k E w a \<and> \<not> HasCompleted X (a_request a) \<and> configured_run a) (\<lambda>_ a. kept X k w (world_of w a))"
    using config_step[OF _ E, where X = X and k = k] syncedD(10)
    by (intro specI) (fastforce simp: ready_def)+
  show "spec (\<lambda>a. ready X k E w a \<and> \<not> HasCompleted X (a_request a) \<and> configured_run a) (EnsureRequestIsAllowed X E)
      (\<lambda>a. ready X k E w a \<and> \<not> HasCompleted X (a_request a) \<and> configured_run a) (\<lambda>_ a. kept X k w (world_of w a))"
  proof (rule specI)
    fix a :: Adapter assume a: "ready X k E w a \<and> \<not> HasCompleted X (a_request a) \<and> configured_run a"
    then obtain cfg where c: "a_config a = Some cfg" by (auto simp: configured_run_def)
    show "kept X k w (world_of w (snd (EnsureRequestIsAllowed X E a)))"
      using allowed_world[OF apis(1,2) _ E c] a by (simp add: ready_def)
    assume "proceeds (EnsureRequestIsAllowed X E a)"
    then have "snd (EnsureRequestIsAllowed X E a) = a"
      using results_api.allowed_proceeds_admits[OF apis(2) _ c] by blast
    with a show "ready X k E w (snd (EnsureRequestIsAllowed X E a)) \<and>
      \<not> HasCompleted X (a_request (snd (EnsureRequestIsAllowed X E a))) \<and>
      configured_run (snd (EnsureRequestIsAllowed X E a))" by simp
  qed
  show "spec (\<lambda>a. ready X k E w a \<and> \<not> HasCompleted X (a_request a) \<and> configured_run a)
      (EnsurePipelineRunIsCreated X E) (synced X k E w) (\<lambda>_ a. kept X k w (world_of w a))"
    using created_world[OF apis(1,5,2) _ E pf] unfolding ready_def configured_run_def by (intro specI) blast+
  show "spec (synced X k E w) (EnsureStatusIsTracked X E) (synced X k E w) (\<lambda>_ a. kept X k w (world_of w a))"
    using tracking_world[OF apis(4,2) _ E pf] by (intro specI) blast+
  show "spec (synced X k E w) (EnsurePipelineRunIsDeleted X E) (\<lambda>a. kept X k w (world_of w a))
      (\<lambda>_ a. kept X k w (world_of w a))"
    using deleted_world[OF _ E] by (intro specI) blast+
qed

lemma reconcile_world:
  assumes "reconcile_handler RH"
    and apis: "conditions_api X" "results_api X" "finalizer_api X" "tekton_api X" "owner_api X"
    and pf: "proper_faults X nf f" and ok: "world_ok X k w"
    and r: "Reconcile X (server nf f w) RH rec (fst k) (snd k) [] = (res, h, calls)"
  shows "kept X k w (world_after w h)"
proof -
  let ?E = "server nf f w" and ?c = "r_Client rec"
  obtain ir err where g: "srv_GetIR ?E [] ?c (fst k) (snd k) = (ir, err)" by fastforce
  show ?thesis
  proof (cases err)
    case (Some e)
    with r g ok reconcile_handler.Reconcile_no_request[OF assms(1)] show ?thesis by (auto simp: kept_def)
  next
    case None
    then have "w_request w = Some ir"
      using g by (auto simp: server_def split: option.splits if_splits)
    let ?a = "NewAdapter ?c (r_InternalClient rec) ir (NewLoader ?E) [GetIR ?c (fst k) (snd k) (ir, None)]"
    have s: "synced X k ?E w ?a" using ok \<open>w_request w = Some ir\<close> by (simp add: synced_def kept_def NewAdapter_def)
    have "kept X k w (world_of w (snd (RH (operations X ?E) ?a)))"
      by (rule reconcile_handler.reconcile_rule[OF assms(1), where Q = "\<lambda>_ a. kept X k w (world_of w a)",
            OF spec_world[OF apis refl pf]]) (use s in simp_all)
    then show ?thesis
      using r g None reconcile_handler.Reconcile_loop[OF assms(1), of ?E "[]" rec "fst k" "snd k" ir X]
      by (auto simp: Let_def)
  qed
qed

section \<open>The transition system\<close>

definition edited :: "int \<Rightarrow> InternalRequestSpec \<Rightarrow> InternalRequest \<Rightarrow> InternalRequest" where
  "edited g s ir = ir\<lparr>ir_Spec := s, ir_ObjectMeta := (ir_ObjectMeta ir)\<lparr>om_Generation := g\<rparr>\<rparr>"

definition marked :: "time \<Rightarrow> InternalRequest \<Rightarrow> InternalRequest" where
  "marked t ir = ir\<lparr>ir_ObjectMeta := (ir_ObjectMeta ir)\<lparr>om_DeletionTimestamp := Some t\<rparr>\<rparr>"

text \<open>
  What others do to the clusters, with the event the watches see. A new request has no status;
  a change of the specification gets a new generation; an object without finalizers that is
  deleted is gone at once; Tekton moves a run on without touching its metadata or its
  specification, and never from done to not done.
\<close>

inductive env_step :: "ext \<Rightarrow> key \<Rightarrow> world \<Rightarrow> cluster_event option \<Rightarrow> world \<Rightarrow> bool" for X k where
  submit: "w_request w = None \<Longrightarrow> keyed k ir \<Longrightarrow> ir_TypeMeta ir = request_type \<Longrightarrow> PipelineRunRef (ir_Status ir) = [] \<Longrightarrow>
    env_step X k w (Some (RemoteRequestEvent (CreateEvent ir))) (w\<lparr>w_request := Some ir\<rparr>)"
| edit: "w_request w = Some ir \<Longrightarrow> g \<noteq> om_Generation (ir_ObjectMeta ir) \<Longrightarrow> ir' = edited g s ir \<Longrightarrow>
    env_step X k w (Some (RemoteRequestEvent (UpdateEvent ir ir'))) (w\<lparr>w_request := Some ir'\<rparr>)"
| mark_deleted: "w_request w = Some ir \<Longrightarrow> ir' = marked t ir \<Longrightarrow>
    env_step X k w (Some (RemoteRequestEvent (case stored ir' of Some _ \<Rightarrow> UpdateEvent ir ir' | None \<Rightarrow> DeleteEvent ir)))
      (w\<lparr>w_request := stored ir'\<rparr>)"
| configure: "config_ok (w\<lparr>w_config := c\<rparr>) \<Longrightarrow> env_step X k w None (w\<lparr>w_config := c\<rparr>)"
| progress: "i < length (w_runs w) \<Longrightarrow> plr_ObjectMeta p = plr_ObjectMeta (w_runs w ! i) \<Longrightarrow>
    plr_Spec p = plr_Spec (w_runs w ! i) \<Longrightarrow> (IsDone X (w_runs w ! i) \<longrightarrow> IsDone X p) \<Longrightarrow>
    env_step X k w (Some (PipelineRunEvent (UpdateEvent (PipelineRunObject (w_runs w ! i)) (PipelineRunObject p))))
      (w\<lparr>w_runs := (w_runs w)[i := p]\<rparr>)"
| foreign: "run_id p \<notin> set (w_used w) \<Longrightarrow> \<not> owned_by k p \<Longrightarrow>
    env_step X k w (Some (PipelineRunEvent (CreateEvent (PipelineRunObject p)))) (w\<lparr>w_runs := w_runs w @ [p], w_used := run_id p # w_used w\<rparr>)"
| prune: "\<not> owned_by k p \<Longrightarrow>
    env_step X k w (Some (PipelineRunEvent (DeleteEvent (PipelineRunObject p))))
      (w\<lparr>w_runs := filter (\<lambda>q. q \<noteq> p) (w_runs w)\<rparr>)"

inductive sys_step :: "ext \<Rightarrow> handler \<Rightarrow> Reconciler \<Rightarrow> key \<Rightarrow> world \<Rightarrow> world \<Rightarrow> bool" for X RH rec k where
  reconcile: "proper_faults X nf f \<Longrightarrow>
    Reconcile X (server nf f w) RH rec (fst k) (snd k) [] = (res, h, calls) \<Longrightarrow>
    sys_step X RH rec k w (world_after w h)"
| others: "env_step X k w ev w' \<Longrightarrow> sys_step X RH rec k w w'"

inductive_cases sys_stepE: "sys_step X RH rec k w w'"

inductive_simps silent_step: "env_step X k w None w'"

lemma owned_meta: "plr_ObjectMeta p = plr_ObjectMeta q \<Longrightarrow> owned_by k p = owned_by k q"
  "plr_ObjectMeta p = plr_ObjectMeta q \<Longrightarrow> run_id p = run_id q"
  by (simp_all add: owned_by_def run_id_def)

lemma filter_update:
  "i < length xs \<Longrightarrow> P y = P (xs ! i) \<Longrightarrow>
     (\<exists>as bs. filter P (xs[i := y]) = as @ (if P y then [y] else []) @ bs \<and>
        filter P xs = as @ (if P y then [xs ! i] else []) @ bs)"
proof -
  assume i: "i < length xs" and P: "P y = P (xs ! i)"
  have "xs = take i xs @ xs ! i # drop (Suc i) xs" using i by (rule id_take_nth_drop)
  then have "filter P xs = filter P (take i xs) @ (if P (xs ! i) then [xs ! i] else []) @ filter P (drop (Suc i) xs)"
    by (rule ssubst[where P = "\<lambda>ys. filter P ys = _"]) simp
  moreover have "filter P (xs[i := y]) = filter P (take i xs) @ (if P y then [y] else []) @ filter P (drop (Suc i) xs)"
    using i by (simp add: upd_conv_take_nth_drop)
  ultimately show ?thesis using P by auto
qed

lemma progress_ok:
  assumes "world_ok X k w" and "i < length (w_runs w)" and "plr_ObjectMeta p = plr_ObjectMeta (w_runs w ! i)"
    and "plr_Spec p = plr_Spec (w_runs w ! i)" and "IsDone X (w_runs w ! i) \<longrightarrow> IsDone X p"
  shows "world_ok X k (w\<lparr>w_runs := (w_runs w)[i := p]\<rparr>)"
proof -
  let ?q = "w_runs w ! i" and ?w = "w\<lparr>w_runs := (w_runs w)[i := p]\<rparr>"
  note same = owned_meta[OF assms(3)]
  have set: "settled_run X ?q \<longrightarrow> settled_run X p" using assms(4,5) by (auto simp: settled_run_def)
  obtain as bs where m: "mine k ?w = as @ (if owned_by k p then [p] else []) @ bs"
    "mine k w = as @ (if owned_by k p then [?q] else []) @ bs"
    using filter_update[OF assms(2), of "owned_by k" p] same(1) by (auto simp: mine_def)
  have ids: "map run_id (w_runs ?w) = map run_id (w_runs w)"
    using assms(2) same(2) by (simp add: map_update) (metis list_update_id nth_map)
  have "runs_ok X k w" using assms(1) by (simp add: world_ok_def)
  then have "runs_ok X k ?w"
    using ids_ok_cong[OF ids] m assms(3) by (auto simp: runs_ok_def annotated_for_def split: if_splits)
  moreover have "ref_ok X (mine k w) ir \<Longrightarrow> ref_ok X (mine k ?w) ir" for ir
    unfolding m using same(2) by (auto simp: ref_ok_def split: if_splits)
  moreover have "(\<forall>q\<in>set (mine k w). settled_run X q) \<Longrightarrow> (\<forall>q\<in>set (mine k ?w). settled_run X q)"
    unfolding m using set by (auto split: if_splits)
  moreover have "run_id ` set (others k ?w) = run_id ` set (others k w)"
  proof -
    obtain cs ds where "others k ?w = cs @ (if \<not> owned_by k p then [p] else []) @ ds"
      "others k w = cs @ (if \<not> owned_by k p then [?q] else []) @ ds"
      using filter_update[OF assms(2), of "\<lambda>p. \<not> owned_by k p" p] same(1) by (auto simp: others_def)
    then show ?thesis using same(2) by (cases "owned_by k p") simp_all
  qed
  then have "own_ref k ?w ir = own_ref k w ir" for ir by (simp add: own_ref_def)
  ultimately show ?thesis
    using assms(1) by (auto simp: world_ok_def request_ok_def split: option.splits)
qed

lemma mine_elsewhere:
  "\<not> owned_by k p \<Longrightarrow> mine k (w\<lparr>w_runs := w_runs w @ [p], w_used := run_id p # w_used w\<rparr>) = mine k w"
  "\<not> owned_by k p \<Longrightarrow> mine k (w\<lparr>w_runs := filter (\<lambda>q. q \<noteq> p) (w_runs w)\<rparr>) = mine k w"
  by (auto simp: mine_def intro: filter_cong)

lemma request_ok_others:
  "request_ok X k runs ir \<Longrightarrow> request_ok X k runs (marked t ir)"
  "request_ok X k runs ir \<Longrightarrow> request_ok X k runs (edited g s ir)"
  "own_ref k w (marked t ir) = own_ref k w ir" "own_ref k w (edited g s ir) = own_ref k w ir"
  by (simp_all add: marked_def edited_def request_ok_def keyed_def ref_ok_def HasCompleted_def succeededCondition_def
      own_ref_def refers_def)

lemma env_step_ok:
  assumes "env_step X k w ev w'" and ok: "world_ok X k w"
  shows "world_ok X k w'"
  using assms(1)
proof cases
  case (submit ir)
  then show ?thesis using ok by (simp add: world_ok_def request_ok_def ref_ok_def)
next
  case (edit ir g ir' s)
  then show ?thesis using ok request_ok_others(2,4) by (simp add: world_ok_def)
next
  case (mark_deleted ir ir' t)
  then show ?thesis
    using ok request_ok_others(1)[of X k "mine k w" ir t] request_ok_others(3)
    by (auto simp: world_ok_def stored_def) (auto simp: request_ok_def marked_def)
next
  case (configure c)
  moreover have "mine k (w\<lparr>w_config := c\<rparr>) = mine k w" "runs_ok X k (w\<lparr>w_config := c\<rparr>) = runs_ok X k w"
    "own_ref k (w\<lparr>w_config := c\<rparr>) = own_ref k w"
    by (auto simp: mine_def runs_ok_def ids_ok_def own_ref_def others_def)
  ultimately show ?thesis using ok by (cases "w_request w") (simp_all add: world_ok_def)
next
  case (progress i p)
  then show ?thesis using progress_ok[OF ok] by blast
next
  case (foreign p)
  let ?w = "w\<lparr>w_runs := w_runs w @ [p], w_used := run_id p # w_used w\<rparr>"
  have "ids_ok w \<Longrightarrow> ids_ok ?w" using foreign(3) by (auto simp: ids_ok_def)
  moreover have "own_ref k w ir \<Longrightarrow> own_ref k ?w ir" for ir using foreign(3) unfolding own_ref_def others_def by auto metis
  ultimately show ?thesis
    using foreign ok mine_elsewhere(1)[OF foreign(4)] by (cases "w_request w") (simp_all add: world_ok_def runs_ok_def)
next
  case (prune p)
  let ?w = "w\<lparr>w_runs := filter (\<lambda>q. q \<noteq> p) (w_runs w)\<rparr>"
  have "ids_ok w \<Longrightarrow> ids_ok ?w" by (auto simp: ids_ok_def distinct_map_filter)
  moreover have "own_ref k w ir \<Longrightarrow> own_ref k ?w ir" for ir by (auto simp: own_ref_def others_def)
  ultimately show ?thesis
    using prune ok mine_elsewhere(2)[OF prune(3)] by (cases "w_request w") (simp_all add: world_ok_def runs_ok_def)
qed

lemma sys_step_ok:
  assumes "reconcile_handler RH"
    and apis: "conditions_api X" "results_api X" "finalizer_api X" "tekton_api X" "owner_api X"
    and "sys_step X RH rec k w w'" and ok: "world_ok X k w"
  shows "world_ok X k w'"
  using assms(7) reconcile_world[OF assms(1) apis _ ok] env_step_ok[OF _ ok] by (auto simp: kept_def elim!: sys_stepE)

definition initial :: "key \<Rightarrow> world \<Rightarrow> bool" where
  "initial k w \<longleftrightarrow> w_request w = None \<and> mine k w = [] \<and> ids_ok w \<and> config_ok w"

lemma initial_ok: "initial k w \<Longrightarrow> world_ok X k w"
  by (simp add: initial_def world_ok_def runs_ok_def)

lemma reachable_ok:
  assumes "reconcile_handler RH" and "conditions_api X" and "results_api X" and "finalizer_api X"
    and "tekton_api X" and "owner_api X"
    and "initial k w0" and "(sys_step X RH rec k)\<^sup>*\<^sup>* w0 w"
  shows "world_ok X k w"
  using assms(8)
proof (induction rule: rtranclp_induct)
  case base
  show ?case by (rule initial_ok[OF assms(7)])
next
  case (step w1 w2)
  then show ?case using sys_step_ok[OF assms(1-6)] by blast
qed

text \<open>What the invariant says of the runs.\<close>

lemma world_ok_safe:
  assumes ok: "world_ok X k w"
  shows "length (mine k w) \<le> 1 \<and> (w_request w = None \<longrightarrow> (\<forall>p\<in>set (mine k w). settled_run X p)) \<and>
    (\<forall>ir p. w_request w = Some ir \<and> p \<in> set (mine k w) \<and> PipelineRunRef (ir_Status ir) \<noteq> [] \<longrightarrow>
       PipelineRunRef (ir_Status ir) = runReference p)"
proof -
  have "PipelineRunRef (ir_Status ir) = runReference p"
    if "w_request w = Some ir" "p \<in> set (mine k w)" "PipelineRunRef (ir_Status ir) \<noteq> []" for ir p
    using ok that by (auto simp: world_ok_def request_ok_def ref_ok_def run_id_def runReference_def Separator_def)
  then show ?thesis using ok by (auto simp: world_ok_def runs_ok_def)
qed

lemma no_orphaned_runs:
  assumes "reconcile_handler RH" and "conditions_api X" and "results_api X" and "finalizer_api X"
    and "tekton_api X" and "owner_api X"
    and "initial k w0" and "(sys_step X RH rec k)\<^sup>*\<^sup>* w0 w"
  shows "length (mine k w) \<le> 1 \<and>
    (w_request w = None \<longrightarrow> (\<forall>p\<in>set (mine k w). settled_run X p)) \<and>
    (\<forall>ir p. w_request w = Some ir \<and> p \<in> set (mine k w) \<and> PipelineRunRef (ir_Status ir) \<noteq> [] \<longrightarrow>
       PipelineRunRef (ir_Status ir) = runReference p)"
  by (rule world_ok_safe[OF reachable_ok[OF assms]])

end
