(* ===== verification/Served.thy ===== *)
theory Served
  imports System
begin

text \<open>
  The operations on clusters with a state, in more detail than \<open>System_Specs\<close>: what holds when an
  operation lets the reconcile go on although some calls may fail, and that it does go on when
  none fails.
\<close>

section \<open>States a reconcile leaves alone\<close>

abbreviation steady :: "go_error \<Rightarrow> world \<Rightarrow> env" where
  "steady nf w \<equiv> server nf (\<lambda>_. None) w"

definition current_config :: "world \<Rightarrow> InternalServicesConfig" where
  "current_config w =
     (case w_config w of
        None \<Rightarrow> getDefaultInternalServicesConfig ''default''
      | Some cfg \<Rightarrow>
          if om_Namespace (cfg_ObjectMeta cfg) = ''default'' \<and> om_Name (cfg_ObjectMeta cfg) = InternalServicesConfigResourceName
          then cfg else getDefaultInternalServicesConfig ''default'')"

definition tracking :: "ext \<Rightarrow> key \<Rightarrow> world \<Rightarrow> InternalRequest \<Rightarrow> bool" where
  "tracking X k w ir \<longleftrightarrow> IsRunning X ir \<and> admits (current_config w) ir \<and>
     (\<exists>p. mine k w = [p] \<and> \<not> IsDone X p \<and> PipelineRunRef (ir_Status ir) = runReference p)"

definition at_rest :: "ext \<Rightarrow> key \<Rightarrow> world \<Rightarrow> bool" where
  "at_rest X k w \<longleftrightarrow>
     (case w_request w of
        None \<Rightarrow> True
      | Some ir \<Rightarrow>
          if om_DeletionTimestamp (ir_ObjectMeta ir) \<noteq> None
          then InternalRequestFinalizer \<notin> set (om_Finalizers (ir_ObjectMeta ir))
          else InternalRequestFinalizer \<in> set (om_Finalizers (ir_ObjectMeta ir)) \<and>
            (HasCompleted X ir \<or> tracking X k w ir))"

lemma config_world_after [simp]: "w_config (world_after w h) = w_config w"
  unfolding world_after_def by (induction h arbitrary: w) auto

lemma current_config_after [simp]:
  "current_config (world_after w h) = current_config w" "current_config (w\<lparr>w_request := r\<rparr>) = current_config w"
  by (simp_all add: current_config_def)

lemma server_config:
  "srv_GetConfig (server nf f w) h c (serviceNamespace (server nf f w)) InternalServicesConfigResourceName = (cfg, err) \<Longrightarrow>
     (err = None \<and> cfg = current_config w) \<or> (\<exists>e. f h = Some e \<and> err = Some e) \<or>
     (err = Some nf \<and> current_config w = getDefaultInternalServicesConfig ''default'')"
  by (auto simp: server_def serviceNamespace_def current_config_def split: option.splits if_splits)

lemma serviceNamespace_server [simp]: "serviceNamespace (server nf f w) = ''default''"
  by (simp add: server_def serviceNamespace_def)

section \<open>The operations\<close>

definition held :: "ext \<Rightarrow> key \<Rightarrow> env \<Rightarrow> world \<Rightarrow> Adapter \<Rightarrow> bool" where
  "held X k E w a \<longleftrightarrow> ready X k E w a \<and> om_DeletionTimestamp (ir_ObjectMeta (a_request a)) = None"

definition cleared :: "ext \<Rightarrow> key \<Rightarrow> env \<Rightarrow> world \<Rightarrow> Adapter \<Rightarrow> bool" where
  "cleared X k E w a \<longleftrightarrow> held X k E w a \<and> \<not> HasCompleted X (a_request a) \<and>
     a_config a = Some (current_config w) \<and> admits (current_config w) (a_request a)"

definition accounted :: "ext \<Rightarrow> key \<Rightarrow> env \<Rightarrow> world \<Rightarrow> Adapter \<Rightarrow> bool" where
  "accounted X k E w a \<longleftrightarrow> held X k E w a \<and>
     (HasCompleted X (a_request a) \<or> tracking X k (world_of w a) (a_request a))"

lemma held_synced: "held X k E w a \<Longrightarrow> synced X k E w a"
  by (simp add: held_def ready_def)

lemma cleared_synced: "cleared X k E w a \<Longrightarrow> synced X k E w a"
  by (simp add: cleared_def held_synced)

lemma accounted_rests: "accounted X k E w a \<Longrightarrow> at_rest X k (world_of w a)"
  by (auto simp: accounted_def held_def ready_def synced_def at_rest_def)

lemma cancel_steady:
  assumes "synced X k E w a" and "E = steady nf w" and "p \<in> set (w_runs (world_of w a))"
  shows "fst (cancelPipelineRun X E (Some p) a) = None"
  using run_find[OF syncedD(4)[OF assms(1)] assms(3)]
  by (simp add: cancelPipelineRun_def assms(2) Let_def) (simp add: server_def run_id_def)

lemma finalizeByLabels_steady:
  assumes "synced X k E w a" and "E = steady nf w"
  shows "fst (finalizeByLabels X E a) = None"
  using assms
proof (cases rule: server_load)
  case (found p es)
  have "p \<in> set (w_runs (world_of w (a\<lparr>a_trace := a_trace a @ es\<rparr>)))"
    using found(1,2) by (intro mine_runs[of p k]) (simp add: world_after_reads)
  from cancel_steady[OF synced_reads[OF assms(1) found(2)] assms(2) this] found(3) show ?thesis
    by (simp add: finalizeByLabels_def)
qed (simp_all add: finalizeByLabels_def cancelPipelineRun_def)

lemma finalize_steady:
  assumes "synced X k E w a" and "E = steady nf w" and "IsNotFound X nf"
  shows "fst (finalizeInternalRequest X E a) = None"
proof -
  have "fst (finalizeByRef X E ns n a) = None" for ns n
  proof (cases "find (\<lambda>p. run_id p = (ns, n)) (w_runs (world_of w a))")
    case None
    then show ?thesis using assms(3) by (simp add: finalizeByRef_def assms(2) server_def)
  next
    case (Some p)
    let ?r = "srv_GetPLR E (a_trace a) (a_internalClient a) ns n"
    have r: "?r = (p, None)" using Some by (simp add: assms(2) server_def)
    let ?b = "a\<lparr>a_trace := a_trace a @ [GetPLR (a_internalClient a) ns n ?r]\<rparr>"
    have "synced X k E w ?b" "p \<in> set (w_runs (world_of w ?b))"
      using synced_reads[OF assms(1), of "[GetPLR (a_internalClient a) ns n ?r]"] find_Some_mem[OF Some] by simp_all
    from cancel_steady[OF this(1) assms(2) this(2)] r show ?thesis by (simp add: finalizeByRef_def)
  qed
  then show ?thesis
    using finalizeByLabels_steady[OF assms(1,2)]
    by (auto simp: finalizeInternalRequest_def Let_def split: list.split)
qed

lemma finalizer_taken_off:
  assumes "finalizer_api X" and "synced X k E w a" and "E = steady nf w" and "IsNotFound X nf"
    and "om_DeletionTimestamp (ir_ObjectMeta (a_request a)) \<noteq> None"
    and "InternalRequestFinalizer \<in> set (om_Finalizers (ir_ObjectMeta (a_request a)))"
  obtains ir where "w_request (world_of w (snd (EnsureFinalizersAreCalled X E a))) = stored ir"
    and "om_DeletionTimestamp (ir_ObjectMeta ir) \<noteq> None"
    and "set (om_Finalizers (ir_ObjectMeta ir)) =
      set (om_Finalizers (ir_ObjectMeta (a_request a))) - {InternalRequestFinalizer}"
proof -
  obtain b where f: "finalizeInternalRequest X E a = (None, b)"
    using finalize_steady[OF assms(2-4)] by (metis prod.collapse)
  have "proper_faults X nf (\<lambda>_. None)" using assms(4) by (simp add: proper_faults_def)
  then have sb: "synced X k E w b" using finalize_synced[OF assms(2,3)] f by (simp add: finalized_def)
  have meta: "ir_ObjectMeta (a_request b) = ir_ObjectMeta (a_request a)"
    using finalize_frame(1)[of X E a] f by simp
  let ?ir = "a_request b"
  let ?ir' = "?ir\<lparr>ir_ObjectMeta := (ir_ObjectMeta ?ir)\<lparr>om_Finalizers :=
      RemoveFinalizer X (om_Finalizers (ir_ObjectMeta ?ir)) InternalRequestFinalizer\<rparr>\<rparr>"
  have "srv_PatchIR E h (a_client b) ?ir ?ir' = (?ir', None)" if "h = a_trace b" for h
    using syncedD(2)[OF sb] that by (simp add: assms(3) server_def)
  then have "world_of w (snd (EnsureFinalizersAreCalled X E a)) = (world_of w b)\<lparr>w_request := stored ?ir'\<rparr>"
    using assms(5,6) f finalizer_api.contains_iff[OF assms(1)]
    by (auto simp: EnsureFinalizersAreCalled_def removeFinalizerPatch_def patchRequest_def Let_def)
  then show thesis
    by (intro that[of ?ir']) (use assms(5) meta finalizer_api.set_remove[OF assms(1)] in simp_all)
qed

lemma finalizers_rests:
  assumes "finalizer_api X" and "synced X k E w a" and "E = steady nf w" and "IsNotFound X nf"
    and "om_DeletionTimestamp (ir_ObjectMeta (a_request a)) \<noteq> None"
  shows "at_rest X k (world_of w (snd (EnsureFinalizersAreCalled X E a)))"
proof (cases "InternalRequestFinalizer \<in> set (om_Finalizers (ir_ObjectMeta (a_request a)))")
  case False
  then show ?thesis
    using assms(5) syncedD(2)[OF assms(2)] finalizer_api.contains_iff[OF assms(1)]
    by (auto simp: EnsureFinalizersAreCalled_def at_rest_def)
next
  case True
  obtain ir where "w_request (world_of w (snd (EnsureFinalizersAreCalled X E a))) = stored ir"
    "om_DeletionTimestamp (ir_ObjectMeta ir) \<noteq> None"
    "InternalRequestFinalizer \<notin> set (om_Finalizers (ir_ObjectMeta ir))"
    by (rule finalizer_taken_off[OF assms True]) simp
  then show ?thesis by (auto simp: at_rest_def stored_def)
qed

text \<open>A status patch either is stored or fails without effect.\<close>

lemma patchStatus_server:
  assumes "w_request (world_of w a) = Some base" and "E = server nf f w" and "status_only base (a_request a)"
  shows "patchRequestStatus E base a = (f (a_trace a),
    a\<lparr>a_trace := a_trace a @ [PatchIRStatus (a_client a) base (a_request a) (a_request a, f (a_trace a))]\<rparr>)"
proof -
  have "srv_PatchIRStatus E (a_trace a) (a_client a) base (a_request a) = (a_request a, f (a_trace a))"
    using assms(1,3) by (simp add: assms(2) server_def status_only_def split: option.split)
  then show ?thesis by (simp add: patchRequestStatus_def)
qed

lemma added_held:
  assumes "finalizer_api X" and "results_api X" and "synced X k E w a" and "E = server nf f w"
    and "om_DeletionTimestamp (ir_ObjectMeta (a_request a)) = None"
  shows "proceeds (EnsureFinalizerIsAdded X E a) \<Longrightarrow> held X k E w (snd (EnsureFinalizerIsAdded X E a))"
    and "f = (\<lambda>_. None) \<Longrightarrow> proceeds (EnsureFinalizerIsAdded X E a)"
    and "ir_Spec (a_request (snd (EnsureFinalizerIsAdded X E a))) = ir_Spec (a_request a)"
proof -
  let ?op = "EnsureFinalizerIsAdded X E a" and ?r' = "with_finalizer X (a_request a)"
  have "(f = (\<lambda>_. None) \<longrightarrow> proceeds ?op) \<and> ir_Spec (a_request (snd ?op)) = ir_Spec (a_request a) \<and>
      om_DeletionTimestamp (ir_ObjectMeta (a_request (snd ?op))) = None"
  proof (cases "InternalRequestFinalizer \<in> set (om_Finalizers (ir_ObjectMeta (a_request a)))")
    case True
    then show ?thesis
      using op_has_finalizer[OF assms(1)] results_api.continue_continues[OF assms(2)] assms(5) by simp
  next
    case False
    have "srv_PatchIR E (a_trace a) (a_client a) (a_request a) ?r' = (?r', f (a_trace a))"
      using syncedD(2)[OF assms(3)] by (simp add: assms(4) server_def with_finalizer_def split: option.split)
    then have "?op = (Ret (RequeueOnErrorOrContinue X (f (a_trace a))), a\<lparr>a_request := ?r',
        a_trace := a_trace a @ [PatchIR (a_client a) (a_request a) ?r' (?r', f (a_trace a))]\<rparr>)"
      using False finalizer_api.contains_iff[OF assms(1)]
      by (simp add: EnsureFinalizerIsAdded_def patchRequest_def with_finalizer_def Let_def)
    then show ?thesis using assms(5) results_api.continues_or_continue_iff[OF assms(2)] by simp
  qed
  then show "proceeds ?op \<Longrightarrow> held X k E w (snd ?op)" "f = (\<lambda>_. None) \<Longrightarrow> proceeds ?op"
    "ir_Spec (a_request (snd ?op)) = ir_Spec (a_request a)"
    using added_synced(2)[OF assms(1-4)] by (simp_all add: held_def ready_def)
qed

lemma config_served:
  assumes "held X k E w a" and "results_api X" and "E = server nf f w" and "proper_faults X nf f"
  shows "proceeds (EnsureConfigIsLoaded X E a) \<Longrightarrow> a_config (snd (EnsureConfigIsLoaded X E a)) = Some (current_config w)"
    and "held X k E w (snd (EnsureConfigIsLoaded X E a))"
    and "a_request (snd (EnsureConfigIsLoaded X E a)) = a_request a"
    and "f = (\<lambda>_. None) \<Longrightarrow> proceeds (EnsureConfigIsLoaded X E a)"
proof -
  let ?op = "EnsureConfigIsLoaded X E a"
  let ?r = "srv_GetConfig E (a_trace a) (a_internalClient a) (serviceNamespace E) InternalServicesConfigResourceName"
  have r: "ready X k E w a" and l: "a_loader a = NewLoader E" using assms(1) by (simp_all add: held_def ready_def synced_def)
  have "(proceeds ?op \<longrightarrow> a_config (snd ?op) = Some (current_config w)) \<and> (f = (\<lambda>_. None) \<longrightarrow> proceeds ?op)"
    using server_config[of nf f w "a_trace a" "a_internalClient a" "fst ?r" "snd ?r"] assms(3,4) l
      results_api.continue_continues[OF assms(2)] results_api.not_continues_simps(3)[OF assms(2)]
    by (auto simp: EnsureConfigIsLoaded_def GetInternalServicesConfig_def proper_faults_def Let_def split: prod.splits)
  then show "proceeds ?op \<Longrightarrow> a_config (snd ?op) = Some (current_config w)" "f = (\<lambda>_. None) \<Longrightarrow> proceeds ?op" by simp_all
  show "held X k E w (snd ?op)" using config_step[OF r assms(3)] assms(1) by (simp add: held_def)
  show "a_request (snd ?op) = a_request a" by simp
qed

lemma reject_rests:
  assumes "conditions_api X" and "held X k E w a" and "E = server nf f w" and "\<not> HasCompleted X (a_request a)"
  shows "\<exists>err. fst (reject X E msg a) = Ret (RequeueOnErrorOrStop X err) \<and>
    (err = None \<longrightarrow> at_rest X k (world_of w (snd (reject X E msg a)))) \<and> (f = (\<lambda>_. None) \<longrightarrow> err = None)"
proof -
  let ?t = "MarkRejected X msg (a_request a)"
  have s: "w_request (world_of w (transition ?t a)) = Some (a_request a)"
    using assms(2) by (simp add: held_def ready_def synced_def)
  have "HasCompleted X (fst ?t)"
    using conditions_api.after_rejected(1)[OF assms(1,4)] by (simp add: conditions_api.completed_iff[OF assms(1)])
  moreover have "reject X E msg a = (Ret (RequeueOnErrorOrStop X (f (a_trace a))), (transition ?t a)\<lparr>a_trace := a_trace a @
      [PatchIRStatus (a_client a) (a_request a) (fst ?t) (fst ?t, f (a_trace a))]\<rparr>)"
    using patchStatus_server[OF s assms(3)] by (simp add: reject_def status_onlyI Let_def)
  ultimately show ?thesis using assms(2) by (auto simp: at_rest_def held_def ready_def)
qed

lemma cleared_reads:
  "cleared X k E w a \<Longrightarrow> \<forall>e\<in>set es. is_read e \<Longrightarrow> cleared X k E w (a\<lparr>a_trace := a_trace a @ es\<rparr>)"
  using synced_reads[of X k E w a es] by (simp add: cleared_def held_def ready_def)

lemma registered_served:
  assumes "conditions_api X" and "cleared X k E w a" and "E = server nf f w"
    and "registerInternalRequestStatus X E (Some q) a = (err, b)"
  shows "err = None \<Longrightarrow> cleared X k E w b \<and> IsRunning X (a_request b) \<and> mine k (world_of w b) = mine k (world_of w a)"
    and "f = (\<lambda>_. None) \<Longrightarrow> err = None"
proof -
  let ?cfg = "current_config w" and ?ir = "a_request a" and ?t = "MarkRunning X (Now E (a_trace a)) (a_request a)"
  have a: "synced X k E w a" "\<not> HasCompleted X ?ir" "admits ?cfg ?ir" using assms(2)
    by (simp_all add: cleared_def held_def ready_def)
  have "w_request (world_of w (transition ?t a)) = Some ?ir" using a(1) by (simp add: synced_def)
  from patchStatus_server[OF this assms(3)]
  have b: "err = f (a_trace a)" "b = (transition ?t a)\<lparr>a_trace := a_trace a @ [PatchIRStatus (a_client a) ?ir (fst ?t) (fst ?t, err)]\<rparr>"
    using assms(4) by (auto simp: registerInternalRequestStatus_def status_onlyI Let_def)
  then show "f = (\<lambda>_. None) \<Longrightarrow> err = None" by simp
  assume "err = None"
  then have "synced X k E w b" using register_world(2)[OF assms(1) a(1) assms(3,4)] by simp
  moreover have "admits ?cfg (fst ?t)" using a(3) by (subst admits_cong[of "fst ?t" ?ir]) simp_all
  ultimately show "cleared X k E w b \<and> IsRunning X (a_request b) \<and> mine k (world_of w b) = mine k (world_of w a)"
    using assms(2) b \<open>err = None\<close> conditions_api.after_running[OF assms(1) a(2), of "Now E (a_trace a)"]
    by (simp add: cleared_def held_def ready_def)
qed

lemma run_created_served:
  assumes "owner_api X" and a: "cleared X k E w a" and E: "E = server nf f w" and cok: "config_ok w"
    and m: "mine k (world_of w a) = []"
  shows "createInternalRequestPipelineRun X E a = (Ret (Some q, err), b) \<Longrightarrow>
      cleared X k E w b \<and> mine k (world_of w b) \<noteq> []"
    and "f = (\<lambda>_. None) \<Longrightarrow> MustParse X (vc_Size (Volume (cfg_Spec (current_config w)))) \<noteq> None \<Longrightarrow>
      \<exists>q b. createInternalRequestPipelineRun X E a = (Ret (Some q, None), b)"
proof -
  let ?cfg = "current_config w"
  have af: "synced X k E w a" "\<not> HasCompleted X (a_request a)" "a_config a = Some ?cfg"
    "InternalRequestFinalizer \<in> set (om_Finalizers (ir_ObjectMeta (a_request a)))"
    "s_Pipeline (ir_Spec (a_request a)) \<noteq> None"
    using a by (auto simp: cleared_def held_def ready_def admits_def)
  have ns: "CHR ''/'' \<notin> set (om_Namespace (cfg_ObjectMeta ?cfg))"
    using cok by (auto simp: current_config_def getDefaultInternalServicesConfig_def config_ok_def split: option.splits)
  have sy: "synced X k E w (snd (createInternalRequestPipelineRun X E a))"
    by (rule create_world[OF assms(1) af(1) E m af(2,3) ns af(4)])
  show "cleared X k E w b \<and> mine k (world_of w b) \<noteq> []"
    if c: "createInternalRequestPipelineRun X E a = (Ret (Some q, err), b)"
  proof -
    obtain plr where plr: "requestPipelineRun X ?cfg (a_request a) = Ret plr" and
      b: "srv_CreatePLR E (a_trace a) (a_internalClient a) plr = (q, None)"
      "b = a\<lparr>a_trace := a_trace a @ [CreatePLR (a_internalClient a) plr (q, None)]\<rparr>"
      using c af(3) by (auto simp: createInternalRequestPipelineRun_def Let_def split: go.splits option.splits)
        (metis prod.collapse)
    then have "q = named (w_used (world_of w a)) plr" by (simp add: E server_def split: option.splits)
    then have "owned_by k q" using created_run_owned(1)[OF assms(1) plr syncedD(7)[OF af(1)]] by simp
    then have "mine k (world_of w b) \<noteq> []" using b(2) by (simp add: mine_def)
    moreover have "cleared X k E w b" using sy c b(2) a by (simp add: cleared_def held_def ready_def)
    ultimately show ?thesis by simp
  qed
  assume f: "f = (\<lambda>_. None)" "MustParse X (vc_Size (Volume (cfg_Spec (current_config w)))) \<noteq> None"
  obtain plr where "requestPipelineRun X ?cfg (a_request a) = Ret plr"
    using panics_requestPipelineRun[of X ?cfg "a_request a"] af(5) f(2) by (auto simp: not_panics_iff)
  then show "\<exists>q b. createInternalRequestPipelineRun X E a = (Ret (Some q, None), b)"
    using af(3) f(1) by (simp add: createInternalRequestPipelineRun_def E Let_def) (simp add: server_def)
qed

lemma created_served:
  assumes "conditions_api X" and "owner_api X" and "results_api X" and adm: "cleared X k E w a" and E: "E = server nf f w"
    and pf: "proper_faults X nf f" and cok: "config_ok w"
  shows "(proceeds (EnsurePipelineRunIsCreated X E a) \<longrightarrow> cleared X k E w (snd (EnsurePipelineRunIsCreated X E a)) \<and>
      IsRunning X (a_request (snd (EnsurePipelineRunIsCreated X E a))) \<and>
      mine k (world_of w (snd (EnsurePipelineRunIsCreated X E a))) \<noteq> []) \<and>
    (f = (\<lambda>_. None) \<and> MustParse X (vc_Size (Volume (cfg_Spec (current_config w)))) \<noteq> None \<longrightarrow>
      proceeds (EnsurePipelineRunIsCreated X E a))"
  using cleared_synced[OF adm] E
proof (cases rule: server_load)
  case (fault e es)
  then have "hardError X (Some e) = Some e" using pf by (simp add: hardError_def proper_faults_def)
  then show ?thesis
    using fault results_api.not_continues_simps(3)[OF assms(3)] by (auto simp: EnsurePipelineRunIsCreated_def)
next
  case (found p es)
  let ?b = "a\<lparr>a_trace := a_trace a @ es\<rparr>"
  have b: "cleared X k E w ?b" using cleared_reads[OF adm found(2)] .
  have m: "mine k (world_of w ?b) = [p]" using found(1,2) by (simp add: world_after_reads)
  obtain err c where r: "registerInternalRequestStatus X E (Some p) ?b = (err, c)" by fastforce
  show ?thesis
    using op_run_known[OF found(3)] registered_served[OF assms(1) b E r] r b m found(3)
      results_api.continue_continues[OF assms(3)] results_api.continues_or_continue_iff[OF assms(3)]
    by (cases "IsRunning X (a_request a)") (simp_all add: EnsurePipelineRunIsCreated_def hardError_def)
next
  case (absent es)
  let ?b = "a\<lparr>a_trace := a_trace a @ es\<rparr>"
  have b: "cleared X k E w ?b" using cleared_reads[OF adm absent(2)] .
  have m: "mine k (world_of w ?b) = []" using absent(1,2) by (simp add: world_after_reads)
  note cr = run_created_served[OF assms(2) b E cok m]
  obtain r c where c: "createInternalRequestPipelineRun X E ?b = (r, c)" by fastforce
  then consider (no_run) "\<nexists>q. r = Ret (Some q, None)" "\<not> proceeds (EnsurePipelineRunIsCreated X E a)" | (run) q where "r = Ret (Some q, None)"
    using absent(3) results_api.not_continues_simps(3)[OF assms(3)]
    by (auto simp: createInternalRequestPipelineRun_def EnsurePipelineRunIsCreated_def hardError_def Let_def
        split: option.splits go.splits)
  then show ?thesis
  proof cases
    case no_run
    have "\<not> (f = (\<lambda>_. None) \<and> MustParse X (vc_Size (Volume (cfg_Spec (current_config w)))) \<noteq> None)"
      using cr(2) c no_run(1) by (metis prod.inject)
    then show ?thesis using no_run(2) by blast
  next
    case (run q)
    obtain err d where r: "registerInternalRequestStatus X E (Some q) c = (err, d)" by fastforce
    have cc: "cleared X k E w c" "mine k (world_of w c) \<noteq> []" using cr(1) c run by simp_all
    show ?thesis
      using absent(3) c run r registered_served[OF assms(1) cc(1) E r] cc(2) results_api.continues_or_continue_iff[OF assms(3)]
      by (simp add: EnsurePipelineRunIsCreated_def hardError_def)
  qed
qed

lemma tracked_outcome:
  assumes apis: "conditions_api X" "tekton_api X" and "IsRunning X (a_request b)" and "admits (current_config w) (a_request b)"
    and "mine k v = [p]" and "current_config v = current_config w"
  shows "HasCompleted X (a_request (tracked X E p b)) \<or> tracking X k v (a_request (tracked X E p b))"
proof (cases "IsDone X p")
  case True
  have "\<not> HasCompleted X (a_request b)" using conditions_api.running_not_completed[OF apis(1) assms(3)] .
  with True have "HasCompleted X (a_request (tracked X E p b))"
    using tracked_reports[OF apis, of b p E] tekton_api.done_iff[OF apis(2), of p]
    by (auto simp: reports_def conditions_api.completed_iff[OF apis(1)] split: if_splits)
  then show ?thesis ..
next
  case False
  have so: "status_only (a_request b) (a_request (tracked X E p b))"
    "PipelineRunRef (ir_Status (a_request (tracked X E p b))) = runReference p"
    using tracked_status_only[OF apis(2), of b E p] by simp_all
  have "admits (current_config w) (a_request (tracked X E p b))"
    using assms(4) status_only_frame[OF so(1)] by (subst admits_cong[of _ "a_request b"]) simp_all
  moreover have "IsRunning X (a_request (tracked X E p b))"
    using assms(3) by (simp add: tekton_api.tracked_open[OF apis(2) False])
  ultimately show ?thesis using False so(2) assms(5,6) by (simp add: tracking_def)
qed

lemma tracked_served:
  assumes "conditions_api X" and "tekton_api X" and "results_api X" and adm: "cleared X k E w a" and E: "E = server nf f w"
    and pf: "proper_faults X nf f" and run: "IsRunning X (a_request a)" and m: "mine k (world_of w a) \<noteq> []"
  shows "(proceeds (EnsureStatusIsTracked X E a) \<longrightarrow> accounted X k E w (snd (EnsureStatusIsTracked X E a)) \<and>
      mine k (world_of w (snd (EnsureStatusIsTracked X E a))) \<noteq> [] \<and> a_config (snd (EnsureStatusIsTracked X E a)) \<noteq> None) \<and>
    (f = (\<lambda>_. None) \<longrightarrow> proceeds (EnsureStatusIsTracked X E a))"
  using cleared_synced[OF adm] E
proof (cases rule: server_load)
  case (fault e es)
  then have "hardError X (Some e) = Some e" using pf by (simp add: hardError_def proper_faults_def)
  then show ?thesis
    using fault results_api.not_continues_simps(3)[OF assms(3)] by (auto simp: EnsureStatusIsTracked_def)
next
  case (absent es)
  then show ?thesis using m by simp
next
  case (found p es)
  let ?b = "a\<lparr>a_trace := a_trace a @ es\<rparr>"
  let ?t = "tracked X E p ?b" and ?err = "f (a_trace (tracked X E p (a\<lparr>a_trace := a_trace a @ es\<rparr>)))"
  have sy: "synced X k E w a" and ad: "admits (current_config w) (a_request a)" and hd: "held X k E w a"
    using adm by (simp_all add: cleared_def held_def ready_def)
  have ol: "object_loader (a_loader ?b)" using syncedD(1)[OF sy] cluster_loader.object_loader_axioms by simp
  obtain ts where "a_trace ?t = a_trace ?b @ ts" "local_reads ?b ts" using tracked_frame(1)[OF assms(2) ol] by blast
  then have wt: "world_of w ?t = world_of w a" using found(2) by (simp add: world_after_reads local_reads_def)
  have so: "status_only (a_request a) (a_request ?t)" using tracked_status_only[OF assms(2), of ?b E p] by simp
  have st: "w_request (world_of w ?t) = Some (a_request a)" using wt syncedD(2)[OF sy] by simp
  let ?c = "?t\<lparr>a_trace := a_trace ?t @ [PatchIRStatus (a_client ?t) (a_request a) (a_request ?t) (a_request ?t, ?err)]\<rparr>"
  have op: "EnsureStatusIsTracked X E a = (Ret (RequeueOnErrorOrContinue X ?err), ?c)"
    using found(3) patchStatus_server[OF st E so]
    by (simp add: EnsureStatusIsTracked_def hardError_def tekton_api.register_tracked[OF assms(2)])
  have pr: "proceeds (EnsureStatusIsTracked X E a) = (?err = None)"
    unfolding op using results_api.continues_or_continue_iff[OF assms(3)] by simp
  have "a_config ?t \<noteq> None" using tracked_config(1)[OF assms(2)] adm by (simp add: cleared_def)
  moreover have "accounted X k E w ?c \<and> mine k (world_of w ?c) \<noteq> []" if e: "?err = None"
  proof -
    have "synced X k E w ?c" using tracking_world[OF assms(2,3) sy E pf] pr op e by simp
    then have "held X k E w ?c" using hd status_only_frame[OF so] by (simp add: held_def ready_def)
    moreover have "HasCompleted X (a_request ?t) \<or> tracking X k (world_of w ?c) (a_request ?t)"
      using tracked_outcome[OF assms(1,2), of ?b w k "world_of w ?c" p E] run ad found(1) wt e by simp
    ultimately show ?thesis using found(1) wt e by (simp add: accounted_def)
  qed
  ultimately show ?thesis unfolding pr by (auto simp: op)
qed

lemma request_after_deletes:
  "\<forall>e\<in>set es. is_read e \<or> is_delete e \<Longrightarrow> w_request (world_after w es) = w_request w"
proof (induction es arbitrary: w)
  case (Cons e es)
  have "w_request (apply_event e w) = w_request w"
    using Cons.prems by (induction e w rule: apply_event.induct) auto
  with Cons show ?case by simp
qed simp

lemma deleted_request:
  assumes "object_loader (a_loader a)"
  shows "w_request (world_of w (snd (EnsurePipelineRunIsDeleted X E a))) = w_request (world_of w a)"
proof -
  obtain es where "a_trace (snd (EnsurePipelineRunIsDeleted X E a)) = a_trace a @ es"
    "\<forall>e\<in>set es. is_read e \<or> is_delete e"
    using run_deleted.op_grows[OF assms, of X E] by (auto simp: grows_def)
  then show ?thesis using request_after_deletes by simp
qed

lemma deleted_rests:
  assumes "accounted X k E w a"
  shows "at_rest X k (world_of w (snd (EnsurePipelineRunIsDeleted X E a)))"
proof (cases "HasCompleted X (a_request a)")
  case False
  then show ?thesis using accounted_rests[OF assms] by (simp add: EnsurePipelineRunIsDeleted_def)
next
  case True
  have h: "held X k E w a" using assms by (simp add: accounted_def)
  then have "object_loader (a_loader a)"
    using cluster_loader.object_loader_axioms by (simp add: held_def ready_def synced_def)
  then show ?thesis using True h deleted_request[of a w X E] by (simp add: at_rest_def held_def ready_def synced_def)
qed

lemma deleted_steady:
  assumes "results_api X" and "accounted X k E w a" and "E = steady nf w" and "mine k (world_of w a) \<noteq> []"
    and "a_config a \<noteq> None"
  shows "proceeds (EnsurePipelineRunIsDeleted X E a)"
proof (cases "\<exists>cfg. HasCompleted X (a_request a) \<and> a_config a = Some cfg \<and> \<not> Debug (cfg_Spec cfg)")
  case False
  then show ?thesis
    using assms(5) results_api.continue_continues[OF assms(1)] by (auto simp: EnsurePipelineRunIsDeleted_def)
next
  case True
  then obtain cfg where c: "HasCompleted X (a_request a)" "a_config a = Some cfg" "\<not> Debug (cfg_Spec cfg)" by blast
  have sy: "synced X k E w a" using assms(2) by (simp add: accounted_def held_synced)
  from sy assms(3) obtain p es where l: "loadRun a = ((Some p, None), a\<lparr>a_trace := a_trace a @ es\<rparr>)"
    "mine k (world_of w a) = [p]" "\<forall>e\<in>set es. is_read e"
    by (cases rule: server_load) (use assms(4) in auto)
  have "p \<in> set (w_runs (world_of w a))" using l(2) by (intro mine_runs[of p k]) simp
  then have "srv_DeletePLR E (a_trace a @ es) (a_internalClient a) (Some p) = None"
    using l(3) by (simp add: assms(3) server_def world_after_reads)
  then show ?thesis
    using op_run_deleted[OF l(1) c, of E] results_api.or_continue_None[OF assms(1)] by (simp add: Let_def)
qed

end
