(* ===== verification/Settling.thy ===== *)
theory Settling
  imports Served
begin

text \<open>
  Reconciles in which calls may fail. A reconcile that reports neither an error nor a wish to be
  repeated has done its work: nobody has to come back to the request until something changes.
  If no call fails and the request is not being deleted, every reconcile ends so.
\<close>

section \<open>A rule for how a reconcile ends\<close>

text \<open>The work queue takes a request back after an error, a panic, and on demand.\<close>

fun again :: "(CtrlResult \<times> go_error option) go \<Rightarrow> bool" where
  "again (Panic _) = True"
| "again (Ret (cr, err)) = (err \<noteq> None \<or> Requeue cr)"

definition stopped :: "op_outcome go \<times> Adapter \<Rightarrow> bool" where
  "stopped p \<longleftrightarrow> (case fst p of Ret r \<Rightarrow> stops r | Panic _ \<Rightarrow> False)"

lemma stopped_simps [simp]: "stopped (Ret r, a) = stops r" "\<not> stopped (Panic e, a)"
  by (simp_all add: stopped_def)

text \<open>
  From \<open>I\<close> the operation goes on in \<open>J\<close>, or stops the reconcile in \<open>Q\<close>, or makes the queue take
  the request back, which only a reconcile that may be \<open>rough\<close> does.
\<close>

definition settles :: "bool \<Rightarrow> (Adapter \<Rightarrow> bool) \<Rightarrow> operation \<Rightarrow> (Adapter \<Rightarrow> bool) \<Rightarrow> (Adapter \<Rightarrow> bool) \<Rightarrow> bool" where
  "settles rough I op J Q \<longleftrightarrow>
     (\<forall>a. I a \<longrightarrow> (if proceeds (op a) then J (snd (op a)) else if stopped (op a) then Q (snd (op a)) else rough))"

lemma settlesI:
  assumes "\<And>a. I a \<Longrightarrow> proceeds (op a) \<Longrightarrow> J (snd (op a))"
    and "\<And>a. I a \<Longrightarrow> \<not> proceeds (op a) \<Longrightarrow> stopped (op a) \<Longrightarrow> Q (snd (op a))"
    and "\<And>a. I a \<Longrightarrow> \<not> proceeds (op a) \<Longrightarrow> \<not> stopped (op a) \<Longrightarrow> rough"
  shows "settles rough I op J Q"
  using assms by (simp add: settles_def)

context reconcile_handler
begin

definition ends :: "bool \<Rightarrow> (Adapter \<Rightarrow> bool) \<Rightarrow> operation list \<Rightarrow> Adapter \<Rightarrow> bool" where
  "ends rough Q ops a \<longleftrightarrow> (if again (fst (RH ops a)) then rough else Q (snd (RH ops a)))"

lemma ends_cons:
  assumes "I a" and "settles rough I op J Q" and "\<And>b. J b \<Longrightarrow> ends rough Q ops b"
  shows "ends rough Q (op # ops) a"
proof (cases "fst (op a)")
  case (Panic pm)
  then have "op a = (Panic pm, snd (op a))" by (metis prod.collapse)
  then have "rough" using assms(1,2) unfolding settles_def by (metis proceeds_simps(2) stopped_simps(2))
  then show ?thesis using Panic handle_panic[of op a pm ops] by (simp add: ends_def)
next
  case (Ret r)
  have p: "proceeds (op a) = continues r" "stopped (op a) = stops r" using Ret by (simp_all add: proceeds_def stopped_def)
  consider "continues r" | "stops r" "\<not> continues r" | "requeues r" "\<not> continues r" "\<not> stops r"
    | e where "fails_with e r" "\<not> continues r" "\<not> stops r"
    by (cases "snd r") (auto simp: outcome_defs)
  then show ?thesis
  proof cases
    case 1
    then have "J (snd (op a))" using p(1) assms(1,2) by (simp add: settles_def)
    from assms(3)[OF this] show ?thesis using 1 p(1) handle_continue[of op a ops] by (simp add: ends_def)
  next
    case 2
    then show ?thesis
      using p assms(1,2) Ret handle_stop[of op a r ops] by (simp add: settles_def ends_def zero_CtrlResult_def)
  next
    case 3
    then show ?thesis using p assms(1,2) Ret handle_requeue[of op a r ops] by (simp add: settles_def ends_def)
  next
    case 4
    then show ?thesis using p assms(1,2) Ret handle_error[of op a r e ops] by (auto simp: settles_def ends_def)
  qed
qed

lemma ends_nil: "Q a \<Longrightarrow> ends rough Q [] a"
  by (simp add: ends_def handle_nil zero_CtrlResult_def)

lemma settle_rule:
  assumes "settles B I0 (EnsureFinalizersAreCalled X E) I1 Q"
    and "settles B I1 (EnsureFinalizerIsAdded X E) I2 Q"
    and "settles B I2 (EnsureRequestINotCompleted X) I3 Q"
    and "settles B I3 (EnsureConfigIsLoaded X E) I4 Q"
    and "settles B I4 (EnsureRequestIsAllowed X E) I5 Q"
    and "settles B I5 (EnsurePipelineRunIsCreated X E) I6 Q"
    and "settles B I6 (EnsureStatusIsTracked X E) I7 Q"
    and "settles B I7 (EnsurePipelineRunIsDeleted X E) Q Q"
    and "I0 a"
  shows "ends B Q (operations X E) a"
  unfolding operations_def
  by (rule ends_cons[OF assms(9,1)], rule ends_cons[OF _ assms(2)], assumption,
      rule ends_cons[OF _ assms(3)], assumption, rule ends_cons[OF _ assms(4)], assumption,
      rule ends_cons[OF _ assms(5)], assumption, rule ends_cons[OF _ assms(6)], assumption,
      rule ends_cons[OF _ assms(7)], assumption, rule ends_cons[OF _ assms(8)], assumption,
      rule ends_nil)

end

section \<open>The operations\<close>

text \<open>
  What keeps the operator from panicking: a pipeline in the request, a size in the configuration.
\<close>

definition servable :: "ext \<Rightarrow> world \<Rightarrow> bool" where
  "servable X w \<longleftrightarrow> (\<forall>ir. w_request w = Some ir \<longrightarrow> s_Pipeline (ir_Spec ir) \<noteq> None) \<and>
     (\<forall>cfg. w_config w = Some cfg \<longrightarrow> MustParse X (vc_Size (Volume (cfg_Spec cfg))) \<noteq> None)"

lemma admitting_config:
  "servable X w \<Longrightarrow> admits (current_config w) ir \<Longrightarrow> MustParse X (vc_Size (Volume (cfg_Spec (current_config w)))) \<noteq> None"
  by (auto simp: servable_def current_config_def admits_def getDefaultInternalServicesConfig_def
      zero_InternalServicesConfigSpec_def split: option.splits if_splits)

definition piped :: "Adapter \<Rightarrow> bool" where
  "piped a \<longleftrightarrow> s_Pipeline (ir_Spec (a_request a)) \<noteq> None"

text \<open>A smooth reconcile: no call fails, and nothing makes it panic.\<close>

definition smooth :: "ext \<Rightarrow> (trace \<Rightarrow> go_error option) \<Rightarrow> world \<Rightarrow> bool" where
  "smooth X f w \<longleftrightarrow> f = (\<lambda>_. None) \<and> servable X w"

lemma not_stoppedI: "(\<And>r. fst p = Ret r \<Longrightarrow> \<not> stops r) \<Longrightarrow> \<not> stopped p"
  by (simp add: stopped_def split: go.split)

context results_api
begin

lemma not_stops_simps:
  "\<not> stops (ContinueProcessing X)" "\<not> stops (RequeueNow X)" "\<not> stops (RequeueWithError X e)"
  "\<not> stops (RequeueOnErrorOrContinue X err)"
  using continue_continues requeue_requeues error_fails[of e] or_continue_None or_continue_Some
  by (cases err; auto simp: outcome_defs)+

text \<open>Only a completed request and a rejection stop a reconcile.\<close>

lemma never_stop_Ret:
  "fst (EnsureFinalizersAreCalled X E a) = Ret r \<Longrightarrow> \<not> stops r"
  "fst (EnsureFinalizerIsAdded X E a) = Ret r \<Longrightarrow> \<not> stops r"
  "fst (EnsureConfigIsLoaded X E a) = Ret r \<Longrightarrow> \<not> stops r"
  "fst (EnsurePipelineRunIsCreated X E a) = Ret r \<Longrightarrow> \<not> stops r"
  "fst (EnsureStatusIsTracked X E a) = Ret r \<Longrightarrow> \<not> stops r"
  "fst (EnsurePipelineRunIsDeleted X E a) = Ret r \<Longrightarrow> \<not> stops r"
  by (auto simp: EnsureFinalizersAreCalled_def EnsureFinalizerIsAdded_def EnsureConfigIsLoaded_def
      EnsurePipelineRunIsCreated_def EnsureStatusIsTracked_def EnsurePipelineRunIsDeleted_def Let_def not_stops_simps andThen_def
      split: if_splits option.splits prod.splits go.splits)

lemma never_stop:
  "\<not> stopped (EnsureFinalizersAreCalled X E a)" "\<not> stopped (EnsureFinalizerIsAdded X E a)"
  "\<not> stopped (EnsureConfigIsLoaded X E a)" "\<not> stopped (EnsurePipelineRunIsCreated X E a)"
  "\<not> stopped (EnsureStatusIsTracked X E a)"
  by (rule not_stoppedI, erule never_stop_Ret)+

end

lemma allowed_settles:
  assumes "conditions_api X" and "results_api X" and E: "E = server nf f w" and B: "B \<or> smooth X f w"
  shows "settles B (\<lambda>a. held X k E w a \<and> \<not> HasCompleted X (a_request a) \<and> a_config a = Some (current_config w) \<and> (B \<or> piped a))
    (EnsureRequestIsAllowed X E) (cleared X k E w) (\<lambda>a. at_rest X k (world_of w a))"
proof (rule settlesI)
  fix a assume a: "held X k E w a \<and> \<not> HasCompleted X (a_request a) \<and> a_config a = Some (current_config w) \<and> (B \<or> piped a)"
  let ?op = "EnsureRequestIsAllowed X E a"
  show "cleared X k E w (snd ?op)" if "proceeds ?op"
    using results_api.allowed_proceeds_admits[OF assms(2) that] a by (simp add: cleared_def)
  have c: "a_config a = Some (current_config w)" using a by simp
  have rej: "\<exists>err. fst (reject X E msg a) = Ret (RequeueOnErrorOrStop X err) \<and>
    (err = None \<longrightarrow> at_rest X k (world_of w (snd (reject X E msg a)))) \<and> (f = (\<lambda>_. None) \<longrightarrow> err = None)" for msg
    using reject_rests[OF assms(1) _ E, of k a msg] a by simp
  note stop = results_api.stops_or_stop_iff[OF assms(2)] results_api.not_stops_simps(1)[OF assms(2)]
  show "at_rest X k (world_of w (snd ?op))" if "stopped ?op"
    using assms(2) c
  proof (cases rule: allowed_cases[where E = E])
    case (panic pm)
    then show ?thesis using that by simp
  next
    case (rejected msg)
    obtain err where "fst (reject X E msg a) = Ret (RequeueOnErrorOrStop X err)"
      "err = None \<Longrightarrow> at_rest X k (world_of w (snd (reject X E msg a)))" using rej[of msg] by blast
    then show ?thesis using that rejected stop(1) by (simp add: stopped_def)
  next
    case admitted
    then show ?thesis using that stop(2) by simp
  qed
  show B if np: "\<not> proceeds ?op" "\<not> stopped ?op"
  proof (rule ccontr)
    assume nb: "\<not> B"
    then obtain p where p: "s_Pipeline (ir_Spec (a_request a)) = Some p" and f: "f = (\<lambda>_. None)"
      using a B by (auto simp: piped_def smooth_def)
    have "\<not> admits (current_config w) (a_request a)"
      using np(1) results_api.allowed_admitted[OF assms(2) c] results_api.continue_continues[OF assms(2)] by fastforce
    then obtain msg where "?op = reject X E msg a"
      using results_api.allowed_rejected[OF assms(2) c _ p, of E] by blast
    moreover obtain err where "fst (reject X E msg a) = Ret (RequeueOnErrorOrStop X err)" "err = None"
      using rej[of msg] f by blast
    ultimately show False using np(2) stop(1) by (simp add: stopped_def)
  qed
qed

lemma spec_settles:
  assumes apis: "conditions_api X" "results_api X" "finalizer_api X" "tekton_api X" "owner_api X"
    and E: "E = server nf f w" and pf: "proper_faults X nf f" and cok: "config_ok w" and B: "B \<or> smooth X f w"
  shows "settles B (\<lambda>a. synced X k E w a \<and> (B \<or> om_DeletionTimestamp (ir_ObjectMeta (a_request a)) = None) \<and> (B \<or> piped a))
      (EnsureFinalizersAreCalled X E)
      (\<lambda>a. synced X k E w a \<and> om_DeletionTimestamp (ir_ObjectMeta (a_request a)) = None \<and> (B \<or> piped a)) (\<lambda>a. at_rest X k (world_of w a))"
    and "settles B (\<lambda>a. synced X k E w a \<and> om_DeletionTimestamp (ir_ObjectMeta (a_request a)) = None \<and> (B \<or> piped a))
      (EnsureFinalizerIsAdded X E) (\<lambda>a. held X k E w a \<and> (B \<or> piped a)) (\<lambda>a. at_rest X k (world_of w a))"
    and "settles B (\<lambda>a. held X k E w a \<and> (B \<or> piped a)) (EnsureRequestINotCompleted X)
      (\<lambda>a. held X k E w a \<and> \<not> HasCompleted X (a_request a) \<and> (B \<or> piped a)) (\<lambda>a. at_rest X k (world_of w a))"
    and "settles B (\<lambda>a. held X k E w a \<and> \<not> HasCompleted X (a_request a) \<and> (B \<or> piped a)) (EnsureConfigIsLoaded X E)
      (\<lambda>a. held X k E w a \<and> \<not> HasCompleted X (a_request a) \<and> a_config a = Some (current_config w) \<and> (B \<or> piped a))
      (\<lambda>a. at_rest X k (world_of w a))"
    and "settles B (cleared X k E w) (EnsurePipelineRunIsCreated X E)
      (\<lambda>a. cleared X k E w a \<and> IsRunning X (a_request a) \<and> mine k (world_of w a) \<noteq> []) (\<lambda>a. at_rest X k (world_of w a))"
    and "settles B (\<lambda>a. cleared X k E w a \<and> IsRunning X (a_request a) \<and> mine k (world_of w a) \<noteq> [])
      (EnsureStatusIsTracked X E) (\<lambda>a. accounted X k E w a \<and> mine k (world_of w a) \<noteq> [] \<and> a_config a \<noteq> None)
      (\<lambda>a. at_rest X k (world_of w a))"
    and "settles B (\<lambda>a. accounted X k E w a \<and> mine k (world_of w a) \<noteq> [] \<and> a_config a \<noteq> None) (EnsurePipelineRunIsDeleted X E)
      (\<lambda>a. at_rest X k (world_of w a)) (\<lambda>a. at_rest X k (world_of w a))"
proof -
  note never = results_api.never_stop[OF apis(2)] and cont = results_api.continue_continues[OF apis(2)]
  have f: "B \<or> f = (\<lambda>_. None)" using B by (auto simp: smooth_def)
  show "settles B (\<lambda>a. synced X k E w a \<and> (B \<or> om_DeletionTimestamp (ir_ObjectMeta (a_request a)) = None) \<and> (B \<or> piped a))
      (EnsureFinalizersAreCalled X E)
      (\<lambda>a. synced X k E w a \<and> om_DeletionTimestamp (ir_ObjectMeta (a_request a)) = None \<and> (B \<or> piped a)) (\<lambda>a. at_rest X k (world_of w a))"
    using never(1) finalizers_continue[OF apis(2)] cont op_not_deleted[of _ X E] by (intro settlesI) auto
  show "settles B (\<lambda>a. synced X k E w a \<and> om_DeletionTimestamp (ir_ObjectMeta (a_request a)) = None \<and> (B \<or> piped a))
      (EnsureFinalizerIsAdded X E) (\<lambda>a. held X k E w a \<and> (B \<or> piped a)) (\<lambda>a. at_rest X k (world_of w a))"
    using never(2) added_held[OF apis(3,2) _ E, of k] f by (intro settlesI) (auto simp: piped_def)
  show "settles B (\<lambda>a. held X k E w a \<and> (B \<or> piped a)) (EnsureRequestINotCompleted X)
      (\<lambda>a. held X k E w a \<and> \<not> HasCompleted X (a_request a) \<and> (B \<or> piped a)) (\<lambda>a. at_rest X k (world_of w a))"
    using results_api.not_continues_simps(1)[OF apis(2)] results_api.stop_stops[OF apis(2)] cont accounted_rests[of X k E w]
    by (intro settlesI) (auto simp: EnsureRequestINotCompleted_def accounted_def split: if_splits)
  show "settles B (\<lambda>a. held X k E w a \<and> \<not> HasCompleted X (a_request a) \<and> (B \<or> piped a)) (EnsureConfigIsLoaded X E)
      (\<lambda>a. held X k E w a \<and> \<not> HasCompleted X (a_request a) \<and> a_config a = Some (current_config w) \<and> (B \<or> piped a))
      (\<lambda>a. at_rest X k (world_of w a))"
    using never(3) config_served[OF _ apis(2) E pf, of k] f by (intro settlesI) (auto simp: piped_def)
  show "settles B (cleared X k E w) (EnsurePipelineRunIsCreated X E)
      (\<lambda>a. cleared X k E w a \<and> IsRunning X (a_request a) \<and> mine k (world_of w a) \<noteq> []) (\<lambda>a. at_rest X k (world_of w a))"
    using never(4) created_served[OF apis(1,5,2) _ E pf cok, of k] B admitting_config[of X w]
    by (intro settlesI) (metis cleared_def smooth_def)+
  show "settles B (\<lambda>a. cleared X k E w a \<and> IsRunning X (a_request a) \<and> mine k (world_of w a) \<noteq> [])
      (EnsureStatusIsTracked X E) (\<lambda>a. accounted X k E w a \<and> mine k (world_of w a) \<noteq> [] \<and> a_config a \<noteq> None)
      (\<lambda>a. at_rest X k (world_of w a))"
    using never(5) tracked_served[OF apis(1,4,2) _ E pf, of k] f by (intro settlesI) blast+
  show "settles B (\<lambda>a. accounted X k E w a \<and> mine k (world_of w a) \<noteq> [] \<and> a_config a \<noteq> None) (EnsurePipelineRunIsDeleted X E)
      (\<lambda>a. at_rest X k (world_of w a)) (\<lambda>a. at_rest X k (world_of w a))"
    using deleted_rests[of X k E w] deleted_steady[OF apis(2), of k E w] E f by (intro settlesI) blast+
qed

section \<open>A reconcile\<close>

lemma reconcile_ends:
  assumes "reconcile_handler RH"
    and apis: "conditions_api X" "results_api X" "finalizer_api X" "tekton_api X" "owner_api X"
    and pf: "proper_faults X nf f" and ok: "world_ok X k w"
    and r: "Reconcile X (server nf f w) RH rec (fst k) (snd k) [] = (res, h, calls)"
    and B: "B \<or> smooth X f w \<and> (\<forall>ir. w_request w = Some ir \<longrightarrow> om_DeletionTimestamp (ir_ObjectMeta ir) = None)"
  shows "if again res then B else at_rest X k (world_after w h)"
proof -
  let ?E = "server nf f w" and ?c = "r_Client rec"
  obtain ir err where g: "srv_GetIR ?E [] ?c (fst k) (snd k) = (ir, err)" by fastforce
  show ?thesis
  proof (cases err)
    case (Some e)
    then have w: "world_after w h = w" and a: "again res = (\<not> IsNotFound X e)"
      using reconcile_handler.Reconcile_no_request[OF assms(1)] r g by (auto simp: zero_CtrlResult_def split: if_splits)
    have "f [] \<noteq> None \<and> \<not> IsNotFound X e \<or> IsNotFound X e \<and> w_request w = None"
      using g Some pf ok by (auto simp: server_def proper_faults_def world_ok_def request_ok_def keyed_def
          split: option.splits if_splits)
    then show ?thesis using w a B by (auto simp: at_rest_def smooth_def)
  next
    case None
    then have q: "w_request w = Some ir" using g by (auto simp: server_def split: option.splits if_splits)
    let ?a = "NewAdapter ?c (r_InternalClient rec) ir (NewLoader ?E) [GetIR ?c (fst k) (snd k) (ir, None)]"
    have s: "synced X k ?E w ?a \<and> (B \<or> om_DeletionTimestamp (ir_ObjectMeta (a_request ?a)) = None) \<and> (B \<or> piped ?a)"
      using ok q B by (auto simp: synced_def kept_def NewAdapter_def piped_def smooth_def servable_def)
    have cok: "config_ok w" and B': "B \<or> smooth X f w" using ok B by (auto simp: world_ok_def)
    note sp = spec_settles[OF apis refl pf cok B']
    have "reconcile_handler.ends RH B (\<lambda>a. at_rest X k (world_of w a)) (operations X ?E) ?a"
      by (rule reconcile_handler.settle_rule[OF assms(1), where Q = "\<lambda>a. at_rest X k (world_of w a)",
            OF sp(1-4) allowed_settles[OF apis(1,2) refl B'] sp(5-7) s])
    then show ?thesis
      using r g None reconcile_handler.Reconcile_loop[OF assms(1), of ?E "[]" rec "fst k" "snd k" ir X]
      by (auto simp: Let_def reconcile_handler.ends_def[OF assms(1)])
  qed
qed


end
