(* ===== verification/Convergence.thy ===== *)
theory Convergence
  imports Settling
begin

text \<open>
  Reconciling to a fixed point. On clusters where no call fails one reconcile of a request
  reaches a state that further reconciles leave alone, until someone else changes the request,
  the configuration or the run.
\<close>

section \<open>One reconcile reaches such a state\<close>

definition recon :: "ext \<Rightarrow> handler \<Rightarrow> Reconciler \<Rightarrow> go_error \<Rightarrow> key \<Rightarrow> world \<Rightarrow> world" where
  "recon X RH rec nf k w = world_after w (fst (snd (Reconcile X (steady nf w) RH rec (fst k) (snd k) [])))"

lemma steady_get:
  "world_ok X k w \<Longrightarrow> srv_GetIR (steady nf w) [] c (fst k) (snd k) =
     (case w_request w of Some ir \<Rightarrow> (ir, None) | None \<Rightarrow> (zero_InternalRequest, Some nf))"
  by (auto simp: server_def world_ok_def request_ok_def keyed_def split: option.splits)

lemma recon_loop:
  assumes "reconcile_handler RH" and "world_ok X k w" and "w_request w = Some ir" and "E = steady nf w"
    and "a = NewAdapter (r_Client rec) (r_InternalClient rec) ir (NewLoader E) [GetIR (r_Client rec) (fst k) (snd k) (ir, None)]"
  shows "recon X RH rec nf k w = world_of w (snd (RH (operations X E) a))" and "synced X k E w a" and "world_of w a = w"
    and "a_request a = ir"
proof -
  have g: "srv_GetIR E [] (r_Client rec) (fst k) (snd k) = (ir, None)"
    using steady_get[OF assms(2)] assms(3,4) by simp
  show "recon X RH rec nf k w = world_of w (snd (RH (operations X E) a))"
    using reconcile_handler.Reconcile_loop[OF assms(1) g, of X] assms(4,5) by (simp add: recon_def Let_def)
  show "synced X k E w a" "world_of w a = w" "a_request a = ir" using assms(2,3,5) by (simp_all add: synced_def kept_def NewAdapter_def)
qed

lemma recon_no_request:
  assumes "reconcile_handler RH" and "world_ok X k w" and "w_request w = None"
  shows "recon X RH rec nf k w = w"
  using reconcile_handler.Reconcile_no_request[OF assms(1), of "steady nf w" "[]" rec "fst k" "snd k" zero_InternalRequest nf X]
    steady_get[OF assms(2), of nf "r_Client rec"] assms(3)
  by (simp add: recon_def)

text \<open>A reconcile of a request that is being deleted is its finalization.\<close>

lemma recon_deleted:
  assumes "reconcile_handler RH" and "results_api X" and "world_ok X k w"
    and ir: "w_request w = Some ir" "om_DeletionTimestamp (ir_ObjectMeta ir) \<noteq> None"
  obtains a where "recon X RH rec nf k w = world_of w (snd (EnsureFinalizersAreCalled X (steady nf w) a))"
    and "synced X k (steady nf w) w a" and "a_request a = ir"
proof -
  note r = recon_loop[OF assms(1,3) ir(1) refl refl, where rec = rec and nf = nf]
  have "\<not> proceeds (EnsureFinalizersAreCalled X (steady nf w) a)" if "a_request a = ir" for a
    using finalizers_continue(2)[OF assms(2), of "steady nf w" a] that ir(2) by auto
  then show thesis
    using that[OF _ r(2,4)] r(4) reconcile_handler.handle_cases(2)[OF assms(1)] unfolding r(1) operations_def by simp
qed

lemma recon_rests:
  assumes "reconcile_handler RH"
    and apis: "conditions_api X" "results_api X" "finalizer_api X" "tekton_api X" "owner_api X"
    and nf: "IsNotFound X nf" and srv: "servable X w" and ok: "world_ok X k w"
  shows "at_rest X k (recon X RH rec nf k w)"
proof (cases "\<exists>ir. w_request w = Some ir \<and> om_DeletionTimestamp (ir_ObjectMeta ir) \<noteq> None")
  case False
  have pf: "proper_faults X nf (\<lambda>_. None)" and sm: "smooth X (\<lambda>_. None) w"
    using nf srv by (simp_all add: proper_faults_def smooth_def)
  obtain res h calls where r: "Reconcile X (steady nf w) RH rec (fst k) (snd k) [] = (res, h, calls)"
    by (metis prod.collapse)
  show ?thesis
    using reconcile_ends[OF assms(1) apis pf ok r, of False] sm False r by (auto simp: recon_def split: if_splits)
next
  case True
  then obtain ir where ir: "w_request w = Some ir" "om_DeletionTimestamp (ir_ObjectMeta ir) \<noteq> None" by blast
  show ?thesis
    by (rule recon_deleted[OF assms(1) apis(2) ok ir, where rec = rec and nf = nf])
      (use finalizers_rests[OF apis(3) _ refl nf] ir(2) in auto)
qed

section \<open>Further reconciles change nothing\<close>

definition idle :: "ext \<Rightarrow> key \<Rightarrow> env \<Rightarrow> world \<Rightarrow> InternalRequest \<Rightarrow> Adapter \<Rightarrow> bool" where
  "idle X k E w ir a \<longleftrightarrow> synced X k E w a \<and> world_of w a = w \<and> a_request a = ir"

lemma idle_reads:
  "idle X k E w ir a \<Longrightarrow> \<forall>e\<in>set es. is_read e \<Longrightarrow> idle X k E w ir (a\<lparr>a_trace := a_trace a @ es\<rparr>)"
  using synced_reads[of X k E w a es] by (simp add: idle_def world_after_reads)

lemma tracking_idle:
  assumes "conditions_api X" and "tekton_api X" and "results_api X" and t: "tracking X k w ir"
    and i: "idle X k E w ir a" and E: "E = steady nf w"
  shows "proceeds (EnsurePipelineRunIsCreated X E a) \<and> idle X k E w ir (snd (EnsurePipelineRunIsCreated X E a))"
    and "proceeds (EnsureStatusIsTracked X E a) \<and> idle X k E w ir (snd (EnsureStatusIsTracked X E a))"
proof -
  obtain p where p: "mine k w = [p]" "\<not> IsDone X p" "PipelineRunRef (ir_Status ir) = runReference p" "IsRunning X ir"
    using t by (auto simp: tracking_def)
  have a: "synced X k E w a" "world_of w a = w" "a_request a = ir" using i by (simp_all add: idle_def)
  note cont = results_api.continue_continues[OF assms(3)] results_api.or_continue_None[OF assms(3)]
  from a(1) E obtain es where es: "\<forall>e\<in>set es. is_read e" "loadRun a = ((Some p, None), a\<lparr>a_trace := a_trace a @ es\<rparr>)"
    by (cases rule: server_load) (use p(1) a(2) in auto)
  let ?b = "a\<lparr>a_trace := a_trace a @ es\<rparr>"
  have b: "idle X k E w ir ?b" by (rule idle_reads[OF i es(1)])
  show "proceeds (EnsurePipelineRunIsCreated X E a) \<and> idle X k E w ir (snd (EnsurePipelineRunIsCreated X E a))"
    using op_run_known[OF es(2)] p(4) a(3) b cont by simp
  have same: "ir\<lparr>ir_Status := (ir_Status ir)\<lparr>PipelineRunRef := runReference p\<rparr>\<rparr> = ir" using p(3) by simp
  have tr: "tracked X E p ?b = ?b" using a(3) same by (simp add: tekton_api.tracked_open[OF assms(2) p(2)])
  have st: "w_request (world_of w ?b) = Some (a_request a)" using syncedD(2)[of X k E w ?b] b by (simp add: idle_def)
  let ?c = "?b\<lparr>a_trace := a_trace ?b @ [PatchIRStatus (a_client ?b) (a_request a) (a_request a) (a_request a, None)]\<rparr>"
  have op: "EnsureStatusIsTracked X E a = (Ret (RequeueOnErrorOrContinue X None), ?c)"
    using es(2) patchStatus_server[OF st E] tr
    by (simp add: EnsureStatusIsTracked_def hardError_def tekton_api.register_tracked[OF assms(2)] status_onlyI)
  have eq: "w\<lparr>w_request := Some (a_request a)\<rparr> = w" using a by (auto simp: synced_def)
  have "idle X k E w ir ?c" using a es(1) by (auto simp: idle_def synced_def world_after_reads eq)
  with op cont show "proceeds (EnsureStatusIsTracked X E a) \<and> idle X k E w ir (snd (EnsureStatusIsTracked X E a))" by simp
qed

lemma config_idle:
  assumes "results_api X" and "idle X k E w ir a" and "E = steady nf w" and "IsNotFound X nf"
  shows "proceeds (EnsureConfigIsLoaded X E a) \<and> idle X k E w ir (snd (EnsureConfigIsLoaded X E a)) \<and>
    a_config (snd (EnsureConfigIsLoaded X E a)) = Some (current_config w)"
proof -
  have l: "a_loader a = NewLoader E" using assms(2) by (simp add: idle_def synced_def)
  let ?r = "srv_GetConfig E (a_trace a) (a_internalClient a) (serviceNamespace E) InternalServicesConfigResourceName"
  let ?es = "[GetConfig (a_internalClient a) (serviceNamespace E) InternalServicesConfigResourceName ?r]"
  have "EnsureConfigIsLoaded X E a = (Ret (ContinueProcessing X),
      a\<lparr>a_config := Some (current_config w), a_trace := a_trace a @ ?es\<rparr>)"
    using server_config[of nf "\<lambda>_. None" w "a_trace a" "a_internalClient a" "fst ?r" "snd ?r"] assms(3,4) l
    by (auto simp: EnsureConfigIsLoaded_def GetInternalServicesConfig_def Let_def split: prod.splits)
  then show ?thesis
    using idle_reads[OF assms(2), of ?es] results_api.continue_continues[OF assms(1)]
    by (auto simp: idle_def synced_def)
qed

lemma spec_idle:
  assumes apis: "conditions_api X" "results_api X" "finalizer_api X" "tekton_api X"
    and E: "E = steady nf w" and nf: "IsNotFound X nf" and rest: "at_rest X k w" and ir: "w_request w = Some ir"
  shows "spec (idle X k E w ir) (EnsureFinalizersAreCalled X E)
      (\<lambda>a. idle X k E w ir a \<and> om_DeletionTimestamp (ir_ObjectMeta ir) = None) (\<lambda>_ a. world_of w a = w)"
    and "spec (\<lambda>a. idle X k E w ir a \<and> om_DeletionTimestamp (ir_ObjectMeta ir) = None) (EnsureFinalizerIsAdded X E)
      (\<lambda>a. idle X k E w ir a \<and> (HasCompleted X ir \<or> tracking X k w ir)) (\<lambda>_ a. world_of w a = w)"
    and "spec (\<lambda>a. idle X k E w ir a \<and> (HasCompleted X ir \<or> tracking X k w ir)) (EnsureRequestINotCompleted X)
      (\<lambda>a. idle X k E w ir a \<and> tracking X k w ir) (\<lambda>_ a. world_of w a = w)"
    and "spec (\<lambda>a. idle X k E w ir a \<and> tracking X k w ir) (EnsureConfigIsLoaded X E)
      (\<lambda>a. idle X k E w ir a \<and> tracking X k w ir \<and> a_config a = Some (current_config w)) (\<lambda>_ a. world_of w a = w)"
    and "spec (\<lambda>a. idle X k E w ir a \<and> tracking X k w ir \<and> a_config a = Some (current_config w))
      (EnsureRequestIsAllowed X E) (\<lambda>a. idle X k E w ir a \<and> tracking X k w ir) (\<lambda>_ a. world_of w a = w)"
    and "spec (\<lambda>a. idle X k E w ir a \<and> tracking X k w ir) (EnsurePipelineRunIsCreated X E)
      (\<lambda>a. idle X k E w ir a \<and> tracking X k w ir) (\<lambda>_ a. world_of w a = w)"
    and "spec (\<lambda>a. idle X k E w ir a \<and> tracking X k w ir) (EnsureStatusIsTracked X E)
      (\<lambda>a. idle X k E w ir a \<and> tracking X k w ir) (\<lambda>_ a. world_of w a = w)"
    and "spec (\<lambda>a. idle X k E w ir a \<and> tracking X k w ir) (EnsurePipelineRunIsDeleted X E)
      (\<lambda>a. world_of w a = w) (\<lambda>_ a. world_of w a = w)"
proof -
  let ?Q = "\<lambda>(_::bool) a. world_of w a = w"
  note cont = results_api.continue_continues[OF apis(2)]
  note stop = results_api.not_continues_simps[OF apis(2)]
  have fin: "if om_DeletionTimestamp (ir_ObjectMeta ir) \<noteq> None
      then InternalRequestFinalizer \<notin> set (om_Finalizers (ir_ObjectMeta ir))
      else InternalRequestFinalizer \<in> set (om_Finalizers (ir_ObjectMeta ir)) \<and> (HasCompleted X ir \<or> tracking X k w ir)"
    using rest ir by (simp add: at_rest_def)
  have open_req: "tracking X k w ir \<Longrightarrow> \<not> HasCompleted X ir"
    using conditions_api.running_not_completed[OF apis(1)] by (simp add: tracking_def)
  show "spec (idle X k E w ir) (EnsureFinalizersAreCalled X E)
      (\<lambda>a. idle X k E w ir a \<and> om_DeletionTimestamp (ir_ObjectMeta ir) = None) ?Q"
    using fin stop(2) finalizer_api.contains_iff[OF apis(3)]
    by (intro specI) (auto simp: EnsureFinalizersAreCalled_def idle_def split: if_splits)
  show "spec (\<lambda>a. idle X k E w ir a \<and> om_DeletionTimestamp (ir_ObjectMeta ir) = None) (EnsureFinalizerIsAdded X E)
      (\<lambda>a. idle X k E w ir a \<and> (HasCompleted X ir \<or> tracking X k w ir)) ?Q"
    using fin op_has_finalizer[OF apis(3)] by (intro specI) (simp_all add: idle_def)
  show "spec (\<lambda>a. idle X k E w ir a \<and> (HasCompleted X ir \<or> tracking X k w ir)) (EnsureRequestINotCompleted X)
      (\<lambda>a. idle X k E w ir a \<and> tracking X k w ir) ?Q"
    using stop(1) by (intro specI) (auto simp: EnsureRequestINotCompleted_def idle_def split: if_splits)
  show "spec (\<lambda>a. idle X k E w ir a \<and> tracking X k w ir) (EnsureConfigIsLoaded X E)
      (\<lambda>a. idle X k E w ir a \<and> tracking X k w ir \<and> a_config a = Some (current_config w)) ?Q"
    using config_idle[OF apis(2) _ E nf, where k = k and ir = ir] by (intro specI) simp_all
  show "spec (\<lambda>a. idle X k E w ir a \<and> tracking X k w ir \<and> a_config a = Some (current_config w))
      (EnsureRequestIsAllowed X E) (\<lambda>a. idle X k E w ir a \<and> tracking X k w ir) ?Q"
    using results_api.allowed_admitted[OF apis(2)] by (intro specI) (simp_all add: idle_def tracking_def)
  show "spec (\<lambda>a. idle X k E w ir a \<and> tracking X k w ir) (EnsurePipelineRunIsCreated X E)
      (\<lambda>a. idle X k E w ir a \<and> tracking X k w ir) ?Q"
    using tracking_idle(1)[OF apis(1,4,2) _ _ E, where k = k and ir = ir] by (intro specI) blast+
  show "spec (\<lambda>a. idle X k E w ir a \<and> tracking X k w ir) (EnsureStatusIsTracked X E)
      (\<lambda>a. idle X k E w ir a \<and> tracking X k w ir) ?Q"
    using tracking_idle(2)[OF apis(1,4,2) _ _ E, where k = k and ir = ir] by (intro specI) blast+
  show "spec (\<lambda>a. idle X k E w ir a \<and> tracking X k w ir) (EnsurePipelineRunIsDeleted X E) (\<lambda>a. world_of w a = w) ?Q"
    using open_req by (intro specI) (simp_all add: EnsurePipelineRunIsDeleted_def idle_def)
qed

lemma recon_at_rest:
  assumes "reconcile_handler RH"
    and apis: "conditions_api X" "results_api X" "finalizer_api X" "tekton_api X"
    and nf: "IsNotFound X nf" and ok: "world_ok X k w" and rest: "at_rest X k w"
  shows "recon X RH rec nf k w = w"
proof (cases "w_request w")
  case None
  then show ?thesis by (rule recon_no_request[OF assms(1) ok])
next
  case (Some ir)
  note r = recon_loop[OF assms(1) ok Some refl refl, where rec = rec and nf = nf]
  show ?thesis
    unfolding r(1)
    by (rule reconcile_handler.reconcile_rule[OF assms(1), where Q = "\<lambda>_ a. world_of w a = w",
          OF spec_idle[OF apis refl nf rest Some]]) (use r(2-4) in \<open>simp_all add: idle_def\<close>)
qed

lemma recon_ok:
  assumes "reconcile_handler RH"
    and "conditions_api X" "results_api X" "finalizer_api X" "tekton_api X" "owner_api X"
    and "IsNotFound X nf" and "world_ok X k w"
  shows "world_ok X k (recon X RH rec nf k w)"
proof -
  have pf: "proper_faults X nf (\<lambda>_. None)" using assms(7) by (simp add: proper_faults_def)
  obtain res h calls where r: "Reconcile X (steady nf w) RH rec (fst k) (snd k) [] = (res, h, calls)"
    by (metis prod.collapse)
  from reconcile_world[OF assms(1-6) pf assms(8) r] r show ?thesis by (simp add: recon_def kept_def)
qed


end
