(* ===== verification/Wakeups.thy ===== *)
theory Wakeups
  imports Convergence
begin

text \<open>
  The watches and the reconciler together: whatever others do to a request at rest, either it
  stays at rest or the watches put it back in the queue.
\<close>

section \<open>Steps of others that disturb a request\<close>

lemma rest_frame:
  assumes "at_rest X k w" and "w_request w' = w_request w" and "mine k w' = mine k w" and "w_config w' = w_config w"
  shows "at_rest X k w'"
  using assms by (auto simp: at_rest_def tracking_def current_config_def split: option.splits)

lemma progress_disturbs:
  assumes ok: "world_ok X k w" and rest: "at_rest X k w" and i: "i < length (w_runs w)"
    and meta: "plr_ObjectMeta p = plr_ObjectMeta (w_runs w ! i)"
    and "\<not> at_rest X k (w\<lparr>w_runs := (w_runs w)[i := p]\<rparr>)"
  shows "annotated_for X k (w_runs w ! i) \<and> \<not> IsDone X (w_runs w ! i) \<and> IsDone X p"
proof -
  let ?q = "w_runs w ! i" and ?w = "w\<lparr>w_runs := (w_runs w)[i := p]\<rparr>"
  note same = owned_meta[OF meta]
  obtain as bs where m: "mine k ?w = as @ (if owned_by k p then [p] else []) @ bs"
    "mine k w = as @ (if owned_by k p then [?q] else []) @ bs"
    using filter_update[OF i, of "owned_by k" p] same(1) by (auto simp: mine_def)
  have owned: "owned_by k p"
    using assms(5) rest_frame[OF rest, of ?w] m by (cases "owned_by k p") simp_all
  have "runs_ok X k w" using ok by (simp add: world_ok_def)
  then have "mine k w = [?q]" "mine k ?w = [p]" and ann: "annotated_for X k ?q"
    using m owned by (auto simp: runs_ok_def)
  moreover have "runReference p = runReference ?q" using same(2) by (simp add: run_id_def runReference_def)
  ultimately show ?thesis
    using rest assms(5) ann by (auto simp: at_rest_def tracking_def current_config_def split: option.splits if_splits)
qed

lemma event_wakes:
  assumes "owner_api X" and "watch_api X W owner" and "snd k \<noteq> []" and "CHR ''/'' \<notin> set (fst k)"
    and ok: "world_ok X k w" and rest: "at_rest X k w" and "env_step X k w (Some e) w'"
  shows "at_rest X k w' \<or> k \<in> set (dispatch X W e)"
proof -
  note create = watch_api.object_create[OF assms(2)] and update = watch_api.object_update[OF assms(2)]
  have kept: "request_key ir = k" if "w_request w = Some ir" for ir
    using ok that by (auto simp: world_ok_def request_ok_def keyed_def request_key_def)
  from assms(7) show ?thesis
  proof cases
    case (submit ir)
    then show ?thesis using create by (auto simp: keyed_def request_key_def)
  next
    case (edit ir g ir' s)
    have "request_key (edited g s ir) = k" using kept[OF edit(3)] by (simp add: request_key_def edited_def)
    then show ?thesis using edit update by (simp add: edited_def)
  next
    case (mark_deleted ir ir' t)
    have "request_key (marked t ir) = k" using kept[OF mark_deleted(3)] by (simp add: request_key_def marked_def)
    then show ?thesis
      using mark_deleted update rest
      by (cases "om_DeletionTimestamp (ir_ObjectMeta ir)")
        (auto simp: marked_def stored_def at_rest_def split: if_splits)
  next
    case (progress i p)
    show ?thesis
    proof (cases "at_rest X k w'")
      case False
      with progress_disturbs[OF ok rest progress(3,4)] progress(2)
      have d: "annotated_for X k (w_runs w ! i)" "\<not> IsDone X (w_runs w ! i)" "IsDone X p" by simp_all
      from d(1) obtain m obj where "om_Namespace m = fst k" "om_Name m = snd k"
        "om_Annotations (plr_ObjectMeta (w_runs w ! i)) = om_Annotations (fst (SetOwnerAnnotations X request_type m obj))"
        by (auto simp: annotated_for_def)
      with watch_api.annotated_run_update[OF assms(2,1), of m "w_runs w ! i" obj p] assms(3,4) progress(1,4) d(2,3)
      show ?thesis by simp
    qed simp
  next
    case (foreign p)
    then show ?thesis using rest_frame[OF rest] mine_elsewhere(1) by simp
  next
    case (prune p)
    then show ?thesis using rest_frame[OF rest] mine_elsewhere(2) by simp
  qed
qed

section \<open>Properties\<close>


end
