(* ===== verification/Fleet.thy ===== *)
theory Fleet
  imports Wakeups
begin

text \<open>
  The operator with all its requests: every request has its own object, all share the
  configuration and the list of PipelineRuns, and the work queue decides which one is reconciled
  next. One request is seen as a \<open>world\<close> of \<open>Cluster_State\<close>; what is proved there carries over
  because a reconcile touches no other request's runs.
\<close>

section \<open>What the operator is built on\<close>

locale operator_api =
  cond: conditions_api X + res: results_api X + fin: finalizer_api X + tek: tekton_api X + own: owner_api X +
  rh: reconcile_handler RH + wat: watch_api X W owner
  for X :: ext and RH :: handler and W :: watch_ops and owner :: owner_reader
begin

lemmas loop_apis = rh.reconcile_handler_axioms cond.conditions_api_axioms res.results_api_axioms
  fin.finalizer_api_axioms tek.tekton_api_axioms own.owner_api_axioms

end

section \<open>The state\<close>

record fleet =
  f_requests :: "key \<Rightarrow> InternalRequest option"
  f_config :: "InternalServicesConfig option"
  f_runs :: "PipelineRun list"
  f_used :: "(string \<times> string) list"
  \<comment> \<open>the work queue, which keeps one entry per request\<close>
  f_queue :: "key set"

definition view :: "key \<Rightarrow> fleet \<Rightarrow> world" where
  "view k c = \<lparr>w_request = f_requests c k, w_config = f_config c, w_runs = f_runs c, w_used = f_used c\<rparr>"

definition put :: "key \<Rightarrow> world \<Rightarrow> fleet \<Rightarrow> fleet" where
  "put k w c = c\<lparr>f_requests := (f_requests c)(k := w_request w), f_config := w_config w, f_runs := w_runs w,
     f_used := w_used w\<rparr>"

lemma view_put [simp]:
  "view k (put k w c) = w"
  "j \<noteq> k \<Longrightarrow> view j (put k w c) = w\<lparr>w_request := f_requests c j\<rparr>"
  by (simp_all add: view_def put_def)

lemma view_queue [simp]: "view k (c\<lparr>f_queue := q\<rparr>) = view k c"
  by (simp add: view_def)

lemma view_sel [simp]:
  "w_request (view k c) = f_requests c k" "w_config (view k c) = f_config c" "w_runs (view k c) = f_runs c"
  "w_used (view k c) = f_used c"
  by (simp_all add: view_def)

definition fleet_ok :: "ext \<Rightarrow> fleet \<Rightarrow> bool" where
  "fleet_ok X c \<longleftrightarrow> (\<forall>k. world_ok X k (view k c))"

lemma fleet_okD: "fleet_ok X c \<Longrightarrow> world_ok X k (view k c)"
  unfolding fleet_ok_def by blast

lemma fleet_okI: "(\<And>k. world_ok X k (view k c)) \<Longrightarrow> fleet_ok X c"
  unfolding fleet_ok_def by blast

section \<open>The steps\<close>

text \<open>
  A reconcile of a queued request, after which the queue forgets it or takes it back; a step of
  others, which is a step of \<open>env_step\<close> for every request that notices it, with its event sent
  through the watches; an entry added for no reason, as by a periodic resync or an event of the
  operator's own writes; and a restart of the operator, which finds every existing request.
\<close>

definition worked :: "key \<Rightarrow> world \<Rightarrow> (CtrlResult \<times> go_error option) go \<Rightarrow> fleet \<Rightarrow> fleet" where
  "worked k w res c = (put k w c)\<lparr>f_queue := if again res then f_queue c else f_queue c - {k}\<rparr>"

inductive fleet_step :: "ext \<Rightarrow> handler \<Rightarrow> Reconciler \<Rightarrow> watch_ops \<Rightarrow> fleet \<Rightarrow> fleet \<Rightarrow> bool" for X RH rec W where
  work: "k \<in> f_queue c \<Longrightarrow> proper_faults X nf f \<Longrightarrow>
    Reconcile X (server nf f (view k c)) RH rec (fst k) (snd k) [] = (res, h, calls) \<Longrightarrow>
    fleet_step X RH rec W c (worked k (world_after (view k c) h) res c)"
| others: "\<forall>j. view j c' = view j c \<or> env_step X j (view j c) ev (view j c') \<Longrightarrow>
    f_queue c' = f_queue c \<union> (case ev of None \<Rightarrow> {} | Some e \<Rightarrow> set (dispatch X W e)) \<Longrightarrow>
    fleet_step X RH rec W c c'"
| resync: "fleet_step X RH rec W c (c\<lparr>f_queue := insert k (f_queue c)\<rparr>)"
| restart: "fleet_step X RH rec W c (c\<lparr>f_queue := {k. f_requests c k \<noteq> None}\<rparr>)"

inductive_cases fleet_stepE: "fleet_step X RH rec W c c'"

definition fleet_start :: "fleet \<Rightarrow> bool" where
  "fleet_start c \<longleftrightarrow> (\<forall>k. initial k (view k c)) \<and> f_queue c = {}"

section \<open>A reconcile leaves other requests alone\<close>

lemma mine_others: "j \<noteq> k \<Longrightarrow> mine j w = filter (owned_by j) (others k w)"
  using owner_unique[of j _ k] by (auto simp: mine_def others_def intro: filter_cong)

lemma evolves_mine: "evolves k w v \<Longrightarrow> j \<noteq> k \<Longrightarrow> mine j v = mine j w"
  by (simp add: mine_others evolves_def)

lemma evolves_own_ref:
  assumes "evolves k w v" and "j \<noteq> k" and "own_ref j w ir"
  shows "own_ref j v ir"
  unfolding own_ref_def
proof (intro allI impI conjI notI)
  fix i assume i: "refers ir i"
  then have u: "i \<in> set (w_used w)" and no: "i \<notin> run_id ` set (others j w)" using assms(3) unfolding own_ref_def by blast+
  then show "i \<in> set (w_used v)" using assms(1) by (auto simp: evolves_def)
  assume "i \<in> run_id ` set (others j v)"
  then obtain p where p: "run_id p = i" "p \<in> set (w_runs v)" "\<not> owned_by j p" by (auto simp: others_def)
  show False
  proof (cases "owned_by k p")
    case True
    then have "p \<in> set (mine k v)" using p(2) by (simp add: mine_def)
    then obtain q where "q \<in> set (mine k w)" "run_id q = i"
      using assms(1) p(1) u by (auto simp: evolves_def)
    then show False using no owner_unique[of k q j] assms(2) by (auto simp: mine_def others_def)
  next
    case False
    then have "p \<in> set (others k v)" using p(2) by (simp add: others_def)
    then have "p \<in> set (others k w)" using assms(1) by (simp add: evolves_def)
    then show False using no p(1,3) by (auto simp: others_def)
  qed
qed

lemma kept_frame:
  assumes "world_ok X j (view j c)" and "kept X k (view k c) v" and "j \<noteq> k"
  shows "world_ok X j (view j (put k v c))"
    and "mine j (view j (put k v c)) = mine j (view j c)"
proof -
  have ev: "evolves k (view k c) v" and v: "world_ok X k v" using assms(2) by (simp_all add: kept_def)
  have same: "mine j (view k c) = mine j (view j c)" "own_ref j (view k c) = own_ref j (view j c)"
    by (auto simp: mine_def own_ref_def others_def)
  have m: "mine j v = mine j (view j c)" using evolves_mine[OF ev assms(3)] same by simp
  then show "mine j (view j (put k v c)) = mine j (view j c)" using assms(3) by simp
  have "own_ref j (view j c) ir \<Longrightarrow> own_ref j v ir" for ir using evolves_own_ref[OF ev assms(3)] same by simp
  moreover have "ids_ok v" "config_ok v" using v by (simp_all add: world_ok_def runs_ok_def)
  ultimately show "world_ok X j (view j (put k v c))"
    using assms(1,3) m by (auto simp: world_ok_def runs_ok_def split: option.splits)
qed

context operator_api
begin

lemma work_ok:
  assumes "fleet_ok X c" and "proper_faults X nf f"
    and "Reconcile X (server nf f (view k c)) RH rec (fst k) (snd k) [] = (res, h, calls)"
  shows "fleet_ok X (worked k (world_after (view k c) h) res c)"
    and "j \<noteq> k \<Longrightarrow> mine j (view j (worked k (world_after (view k c) h) res c)) = mine j (view j c)"
    and "kept X k (view k c) (world_after (view k c) h)"
proof -
  have ok: "world_ok X j (view j c)" for j by (rule fleet_okD[OF assms(1)])
  show kept: "kept X k (view k c) (world_after (view k c) h)" by (rule reconcile_world[OF loop_apis assms(2) ok assms(3)])
  have "world_ok X j (view j (put k (world_after (view k c) h) c))" for j
    using kept_frame(1)[OF ok kept] kept by (cases "j = k") (simp_all add: kept_def)
  then show "fleet_ok X (worked k (world_after (view k c) h) res c)" by (intro fleet_okI) (simp add: worked_def)
  show "mine j (view j (worked k (world_after (view k c) h) res c)) = mine j (view j c)" if "j \<noteq> k"
    using kept_frame(2)[OF ok kept that] by (simp add: worked_def)
qed

lemma fleet_step_ok:
  assumes "fleet_step X RH rec W c c'" and "fleet_ok X c"
  shows "fleet_ok X c'"
  using assms(1)
proof cases
  case (work k nf f res h calls)
  then show ?thesis using work_ok(1)[OF assms(2)] by simp
next
  case (others ev)
  then have "world_ok X j (view j c')" for j
    using fleet_okD[OF assms(2), of j] env_step_ok[of X j "view j c" ev "view j c'"] by metis
  then show ?thesis by (rule fleet_okI)
qed (use fleet_okD[OF assms(2)] in \<open>simp_all add: fleet_okI\<close>)

lemma fleet_start_ok: "fleet_start c \<Longrightarrow> fleet_ok X c"
  unfolding fleet_start_def by (blast intro: fleet_okI initial_ok)

lemma fleet_reachable_ok:
  assumes "fleet_start c0" and "(fleet_step X RH rec W)\<^sup>*\<^sup>* c0 c"
  shows "fleet_ok X c"
  using assms(2)
proof (induction rule: rtranclp_induct)
  case base
  show ?case by (rule fleet_start_ok[OF assms(1)])
next
  case (step c1 c2)
  then show ?case using fleet_step_ok by blast
qed

end

section \<open>Properties\<close>



end
