(* ===== verification/Work_Queue.thy ===== *)
theory Work_Queue
  imports Fleet
begin

text \<open>
  The work queue. What is not in the queue is at rest, so an empty queue means that the operator
  has nothing left to do; and once calls stop failing the queue does become empty.
\<close>

section \<open>Level-triggered control\<close>

text \<open>
  States with a queue of the keys that need attention. A step may disturb a key only if it puts
  it in the queue, and may take a key out of the queue only if it is at rest.
\<close>

locale work_list =
  fixes inv :: "'s \<Rightarrow> bool" and rest :: "'k \<Rightarrow> 's \<Rightarrow> bool" and queue :: "'s \<Rightarrow> 'k set" and step :: "'s \<Rightarrow> 's \<Rightarrow> bool"
  assumes inv_step: "step s s' \<Longrightarrow> inv s \<Longrightarrow> inv s'"
    and disturbed_queued: "step s s' \<Longrightarrow> inv s \<Longrightarrow> rest k s \<Longrightarrow> k \<notin> queue s \<Longrightarrow> rest k s' \<or> k \<in> queue s'"
    and dequeued_rests: "step s s' \<Longrightarrow> inv s \<Longrightarrow> k \<in> queue s \<Longrightarrow> rest k s' \<or> k \<in> queue s'"
begin

lemma attended:
  assumes "step\<^sup>*\<^sup>* s s'" and "inv s" and "\<And>k. rest k s \<or> k \<in> queue s"
  shows "inv s' \<and> (rest k s' \<or> k \<in> queue s')"
  using assms(1)
proof (induction arbitrary: k rule: rtranclp_induct)
  case base
  show ?case using assms(2,3) by blast
next
  case (step u v)
  then show ?case using inv_step disturbed_queued dequeued_rests by blast
qed

end

section \<open>The operator's queue\<close>

text \<open>Names and namespaces as the API server accepts them.\<close>

definition proper_key :: "key \<Rightarrow> bool" where
  "proper_key k \<longleftrightarrow> snd k \<noteq> [] \<and> CHR ''/'' \<notin> set (fst k)"

definition resting :: "ext \<Rightarrow> key \<Rightarrow> fleet \<Rightarrow> bool" where
  "resting X k c \<longleftrightarrow> (proper_key k \<longrightarrow> at_rest X k (view k c))"

text \<open>Steps that leave the configuration alone: nobody watches it.\<close>

definition settled_step :: "ext \<Rightarrow> handler \<Rightarrow> Reconciler \<Rightarrow> watch_ops \<Rightarrow> fleet \<Rightarrow> fleet \<Rightarrow> bool" where
  "settled_step X RH rec W c c' \<longleftrightarrow> fleet_step X RH rec W c c' \<and> f_config c' = f_config c"

lemma rest_view:
  "at_rest X k (view k c) \<Longrightarrow> f_requests c' k = f_requests c k \<Longrightarrow> mine k (view k c') = mine k (view k c) \<Longrightarrow>
     f_config c' = f_config c \<Longrightarrow> at_rest X k (view k c')"
  by (rule rest_frame[where w = "view k c"]) simp_all

lemma worked_sel [simp]:
  "f_queue (worked k w res c) = (if again res then f_queue c else f_queue c - {k})"
  "f_config (worked k w res c) = w_config w"
  "f_requests (worked k w res c) = (f_requests c)(k := w_request w)"
  "view k (worked k w res c) = w"
  by (simp_all add: worked_def put_def view_def)

context operator_api
begin

lemma work_rests:
  assumes "fleet_ok X c" and "proper_faults X nf f"
    and r: "Reconcile X (server nf f (view k c)) RH rec (fst k) (snd k) [] = (res, h, calls)"
  shows "\<not> again res \<Longrightarrow> at_rest X k (world_after (view k c) h)"
    and "j \<noteq> k \<Longrightarrow> at_rest X j (view j c) \<Longrightarrow> at_rest X j (view j (worked k (world_after (view k c) h) res c))"
proof -
  show "at_rest X k (world_after (view k c) h)" if "\<not> again res"
    using reconcile_ends[OF loop_apis assms(2) fleet_okD[OF assms(1)] r, of True] that by simp
  show "at_rest X j (view j (worked k (world_after (view k c) h) res c))" if "j \<noteq> k" "at_rest X j (view j c)"
    by (rule rest_view[OF that(2)]) (use that work_ok(2)[OF assms(1,2) r] in simp_all)
qed

lemma others_rest:
  assumes "fleet_ok X c" and "\<forall>j. view j c' = view j c \<or> env_step X j (view j c) ev (view j c')"
    and "f_config c' = f_config c" and "at_rest X k (view k c)" and "proper_key k"
  shows "at_rest X k (view k c') \<or> (\<exists>e. ev = Some e \<and> k \<in> set (dispatch X W e))"
proof -
  consider "view k c' = view k c" | "env_step X k (view k c) ev (view k c')" using assms(2) by blast
  then show ?thesis
  proof cases
    case 1
    then show ?thesis using assms(4) by simp
  next
    case 2
    show ?thesis
    proof (cases ev)
      case None
      then obtain cfg where "view k c' = (view k c)\<lparr>w_config := cfg\<rparr>" using 2 by (auto simp: silent_step)
      then have "view k c' = view k c" using assms(3) by (simp add: view_def)
      then show ?thesis using assms(4) by simp
    next
      case (Some e)
      then show ?thesis
        using event_wakes[OF own.owner_api_axioms wat.watch_api_axioms _ _ fleet_okD[OF assms(1)] assms(4)] 2 assms(5)
        by (auto simp: proper_key_def)
    qed
  qed
qed

sublocale wq: work_list "fleet_ok X" "resting X" f_queue "settled_step X RH rec W" for rec
proof
  fix c c' assume s: "settled_step X RH rec W c c'" and ok: "fleet_ok X c"
  then have st: "fleet_step X RH rec W c c'" and cfg: "f_config c' = f_config c" by (simp_all add: settled_step_def)
  show "fleet_ok X c'" by (rule fleet_step_ok[OF st ok])
  fix k
  from st show "resting X k c' \<or> k \<in> f_queue c'" if "resting X k c" "k \<notin> f_queue c"
  proof cases
    case (work j nf f res h calls)
    then have "k \<noteq> j" using that(2) by blast
    then show ?thesis using that(1) work_rests(2)[OF ok work(3,4)] work(1) by (auto simp: resting_def)
  next
    case (others ev)
    then show ?thesis using that(1) others_rest[OF ok others(1) cfg, of k] by (auto simp: resting_def)
  qed (use that in \<open>simp_all add: resting_def\<close>)
  from st show "resting X k c' \<or> k \<in> f_queue c'" if "k \<in> f_queue c"
  proof cases
    case (work j nf f res h calls)
    then show ?thesis using that work_rests(1)[OF ok work(3,4)] by (auto simp: resting_def)
  next
    case restart
    then show ?thesis by (cases "f_requests c k") (simp_all add: resting_def at_rest_def)
  qed (use that in simp_all)
qed

lemma start_attended:
  assumes "fleet_start c"
  shows "resting X k c \<or> k \<in> f_queue c"
proof -
  have "initial k (view k c)" using assms unfolding fleet_start_def by blast
  then have "f_requests c k = None" by (simp add: initial_def)
  then show ?thesis by (simp add: resting_def at_rest_def)
qed

lemma attended_reachable:
  assumes "fleet_start c0" and "(settled_step X RH rec W)\<^sup>*\<^sup>* c0 c"
  shows "fleet_ok X c \<and> (resting X k c \<or> k \<in> f_queue c)"
  by (rule wq.attended[OF assms(2) fleet_start_ok[OF assms(1)] start_attended[OF assms(1)]])

end

section \<open>Emptying the queue\<close>

text \<open>Work on the queue while no call fails.\<close>

definition calm_step :: "ext \<Rightarrow> handler \<Rightarrow> Reconciler \<Rightarrow> go_error \<Rightarrow> fleet \<Rightarrow> fleet \<Rightarrow> bool" where
  "calm_step X RH rec nf c c' \<longleftrightarrow>
     (\<exists>k\<in>f_queue c. \<exists>res h calls. Reconcile X (steady nf (view k c)) RH rec (fst k) (snd k) [] = (res, h, calls) \<and>
        c' = worked k (world_after (view k c) h) res c)"

lemma calm_possible: "f_queue c \<noteq> {} \<Longrightarrow> \<exists>c'. calm_step X RH rec nf c c'"
  unfolding calm_step_def by (metis ex_in_conv prod.collapse)

definition doomed :: "fleet \<Rightarrow> key \<Rightarrow> bool" where
  "doomed c k \<longleftrightarrow> (\<exists>ir. f_requests c k = Some ir \<and> om_DeletionTimestamp (ir_ObjectMeta ir) \<noteq> None)"

text \<open>
  What may stay in the queue for ever is left out: requests without a pipeline, configurations
  that cannot be parsed, and deleted requests that wait for somebody else's finalizer.
\<close>

definition drainable :: "ext \<Rightarrow> fleet \<Rightarrow> bool" where
  "drainable X c \<longleftrightarrow> finite (f_queue c) \<and> (\<forall>k\<in>f_queue c. servable X (view k c) \<and>
     (\<forall>ir. f_requests c k = Some ir \<and> om_DeletionTimestamp (ir_ObjectMeta ir) \<noteq> None \<longrightarrow>
        set (om_Finalizers (ir_ObjectMeta ir)) = {InternalRequestFinalizer}))"

text \<open>A request needs one reconcile, or two if it is being deleted: the second finds it gone.\<close>

definition load :: "fleet \<Rightarrow> nat" where
  "load c = card (f_queue c) + card {k \<in> f_queue c. doomed c k}"

lemma load_bound: "finite (f_queue c) \<Longrightarrow> load c \<le> 2 * card (f_queue c)"
  using card_mono[of "f_queue c" "{k \<in> f_queue c. doomed c k}"] by (simp add: load_def)

text \<open>Taking requests out of the queue or away makes nothing harder.\<close>

lemma load_frame:
  assumes "drainable X c" and "f_queue c' \<subseteq> f_queue c" and "f_config c' = f_config c"
    and "\<And>j. j \<in> f_queue c' \<Longrightarrow> f_requests c' j = f_requests c j \<or> f_requests c' j = None"
  shows "drainable X c'" and "{j \<in> f_queue c'. doomed c' j} \<subseteq> {j \<in> f_queue c. doomed c j}"
    and "card {j \<in> f_queue c'. doomed c' j} \<le> card {j \<in> f_queue c. doomed c j}"
proof -
  have fin: "finite (f_queue c)" using assms(1) by (simp add: drainable_def)
  have srv: "servable X (view j c')" if "j \<in> f_queue c'" for j
    using assms that unfolding drainable_def servable_def view_sel by (metis option.simps(3) subsetD)
  have "set (om_Finalizers (ir_ObjectMeta ir)) = {InternalRequestFinalizer}"
    if "j \<in> f_queue c'" "f_requests c' j = Some ir" "om_DeletionTimestamp (ir_ObjectMeta ir) \<noteq> None" for j ir
  proof -
    have "f_requests c j = Some ir" using assms(4)[OF that(1)] that(2) by simp
    then show ?thesis using assms(1,2) that unfolding drainable_def by blast
  qed
  with srv show "drainable X c'" using fin assms(2) by (auto simp: drainable_def intro: finite_subset)
  show sub: "{j \<in> f_queue c'. doomed c' j} \<subseteq> {j \<in> f_queue c. doomed c j}"
    using assms(2,4) unfolding doomed_def by fastforce
  show "card {j \<in> f_queue c'. doomed c' j} \<le> card {j \<in> f_queue c. doomed c j}"
    using fin by (intro card_mono[OF _ sub]) simp
qed

context operator_api
begin

lemma calm_is_step:
  assumes "calm_step X RH rec nf c c'" and "IsNotFound X nf" and "fleet_ok X c"
  shows "settled_step X RH rec W c c'"
proof -
  have pf: "proper_faults X nf (\<lambda>_. None)" using assms(2) by (simp add: proper_faults_def)
  obtain k res h calls where r: "k \<in> f_queue c"
    "Reconcile X (steady nf (view k c)) RH rec (fst k) (snd k) [] = (res, h, calls)"
    "c' = worked k (world_after (view k c) h) res c"
    using assms(1) unfolding calm_step_def by blast
  then show ?thesis using fleet_step.work[OF r(1) pf r(2)] by (simp add: settled_step_def)
qed

lemma doomed_gone:
  assumes "fleet_ok X c" and "IsNotFound X nf" and "f_requests c k = Some ir"
    and "om_DeletionTimestamp (ir_ObjectMeta ir) \<noteq> None" and "set (om_Finalizers (ir_ObjectMeta ir)) = {InternalRequestFinalizer}"
  shows "w_request (recon X RH rec nf k (view k c)) = None"
proof -
  have q: "w_request (view k c) = Some ir" using assms(3) by simp
  show ?thesis
  proof (rule recon_deleted[OF loop_apis(1,3) fleet_okD[OF assms(1)] q assms(4), where rec = rec and nf = nf])
    fix a assume a: "recon X RH rec nf k (view k c) = world_of (view k c) (snd (EnsureFinalizersAreCalled X (steady nf (view k c)) a))"
      "synced X k (steady nf (view k c)) (view k c) a" "a_request a = ir"
    show ?thesis
      unfolding a(1)
      by (rule finalizer_taken_off[OF loop_apis(4) a(2) refl assms(2)])
        (use assms(4,5) a(3) in \<open>auto simp: stored_def\<close>)
  qed
qed

lemma calm_decreases:
  assumes "calm_step X RH rec nf c c'" and "IsNotFound X nf" and ok: "fleet_ok X c" and dr: "drainable X c"
  shows "drainable X c' \<and> load c' < load c"
proof -
  have pf: "proper_faults X nf (\<lambda>_. None)" using assms(2) by (simp add: proper_faults_def)
  obtain k res h calls where k: "k \<in> f_queue c"
    and r: "Reconcile X (steady nf (view k c)) RH rec (fst k) (snd k) [] = (res, h, calls)"
    and c': "c' = worked k (world_after (view k c) h) res c"
    using assms(1) unfolding calm_step_def by blast
  have fin: "finite (f_queue c)" and srv: "servable X (view k c)" using dr k by (simp_all add: drainable_def)
  have fr: "f_queue c' \<subseteq> f_queue c" "f_config c' = f_config c" "f_requests c' j = f_requests c j" if "j \<noteq> k" for j
    using that by (auto simp: c')
  show ?thesis
  proof (cases "again res")
    case False
    then have q: "f_queue c' = f_queue c - {k}" by (simp add: c')
    have fr': "f_requests c' j = f_requests c j \<or> f_requests c' j = None" if "j \<in> f_queue c'" for j
      using that q fr(3) by blast
    have "card (f_queue c') < card (f_queue c)" unfolding q by (rule card_Diff1_less[OF fin k])
    then show ?thesis using load_frame[OF dr _ _ fr'] q by (auto simp: load_def c')
  next
    case True
    then obtain ir where ir: "f_requests c k = Some ir" "om_DeletionTimestamp (ir_ObjectMeta ir) \<noteq> None"
      using reconcile_ends[OF loop_apis pf fleet_okD[OF ok] r, of False] srv unfolding smooth_def by (metis view_sel(1))
    have "set (om_Finalizers (ir_ObjectMeta ir)) = {InternalRequestFinalizer}" using dr k ir by (simp add: drainable_def)
    then have "w_request (recon X RH rec nf k (view k c)) = None" by (rule doomed_gone[OF ok assms(2) ir])
    then have gone: "f_requests c' k = None" using r by (simp add: c' recon_def)
    then have fr': "f_requests c' j = f_requests c j \<or> f_requests c' j = None" for j using fr(3)[of j] by (cases "j = k") simp_all
    have q: "f_queue c' = f_queue c" using True by (simp add: c')
    note sub = load_frame[OF dr _ _ fr']
    have "{j \<in> f_queue c'. doomed c' j} \<subset> {j \<in> f_queue c. doomed c j}"
    proof (rule psubsetI)
      show "{j \<in> f_queue c'. doomed c' j} \<subseteq> {j \<in> f_queue c. doomed c j}" using sub q by (simp add: c')
      have "k \<notin> {j \<in> f_queue c'. doomed c' j}" "k \<in> {j \<in> f_queue c. doomed c j}" using gone k ir by (auto simp: doomed_def)
      then show "{j \<in> f_queue c'. doomed c' j} \<noteq> {j \<in> f_queue c. doomed c j}" by blast
    qed
    then have "card {j \<in> f_queue c'. doomed c' j} < card {j \<in> f_queue c. doomed c j}"
      using fin by (intro psubset_card_mono) simp_all
    then show ?thesis using sub q by (simp add: load_def c')
  qed
qed

lemma calm_run:
  assumes "(calm_step X RH rec nf ^^ n) c c'" and "IsNotFound X nf" and "fleet_ok X c" and "drainable X c"
  shows "(settled_step X RH rec W)\<^sup>*\<^sup>* c c' \<and> fleet_ok X c' \<and> drainable X c' \<and> n + load c' \<le> load c"
  using assms(1)
proof (induction n arbitrary: c')
  case 0
  then show ?case using assms(3,4) by simp
next
  case (Suc n)
  then obtain d where d: "(calm_step X RH rec nf ^^ n) c d" and s: "calm_step X RH rec nf d c'" by auto
  then have IH: "(settled_step X RH rec W)\<^sup>*\<^sup>* c d" "fleet_ok X d" "drainable X d" "n + load d \<le> load c" using Suc.IH by blast+
  have st: "settled_step X RH rec W d c'" by (rule calm_is_step[OF s assms(2) IH(2)])
  have "drainable X c' \<and> load c' < load d" by (rule calm_decreases[OF s assms(2) IH(2,3)])
  moreover have "fleet_ok X c'" using st fleet_step_ok IH(2) unfolding settled_step_def by blast
  ultimately show ?case using IH st by (auto intro: rtranclp.rtrancl_into_rtrancl)
qed

end

section \<open>Properties\<close>



end
