(* ===== verification/Smooth_Running.thy ===== *)
theory Smooth_Running
  imports Work_Queue
begin

text \<open>
  Reconciles in which no call fails, seen from the request: every patch is stored as it was sent,
  so that the clusters behave towards the operator like the ones \<open>Accounting\<close> is about, and the
  request the reconcile ends with is the one that is stored.
\<close>

section \<open>Clusters that accept patches\<close>

definition compliant :: "env \<Rightarrow> env" where
  "compliant E = E\<lparr>srv_PatchIR := \<lambda>_ _ _ ir. (ir, None), srv_PatchIRStatus := \<lambda>_ _ _ ir. (ir, None)\<rparr>"

lemma compliant_accepts: "accepts_patches (compliant E)"
  by (simp add: accepts_patches_def compliant_def)

lemma compliant_sel [simp]:
  "srv_PatchIR (compliant E) = (\<lambda>_ _ _ ir. (ir, None))" "srv_PatchIRStatus (compliant E) = (\<lambda>_ _ _ ir. (ir, None))"
  "srv_GetIR (compliant E) = srv_GetIR E" "srv_GetConfig (compliant E) = srv_GetConfig E"
  "srv_GetTektonPipeline (compliant E) = srv_GetTektonPipeline E" "srv_GetPLR (compliant E) = srv_GetPLR E"
  "srv_ListPLR (compliant E) = srv_ListPLR E" "srv_ListTR (compliant E) = srv_ListTR E"
  "srv_CreatePLR (compliant E) = srv_CreatePLR E" "srv_PatchPLR (compliant E) = srv_PatchPLR E"
  "srv_DeletePLR (compliant E) = srv_DeletePLR E" "Now (compliant E) = Now E" "Getenv (compliant E) = Getenv E"
  by (simp_all add: compliant_def)

text \<open>What does not patch the request does not tell the difference.\<close>

lemma compliant_loader [simp]:
  "NewLoader (compliant E) = NewLoader E" "serviceNamespace (compliant E) = serviceNamespace E"
  by (simp_all add: NewLoader_def loader_defs serviceNamespace_def fun_eq_iff)

lemma compliant_calls [simp]:
  "cancelPipelineRun X (compliant E) = cancelPipelineRun X E"
  "createInternalRequestPipelineRun X (compliant E) = createInternalRequestPipelineRun X E"
  "recordOutcome X (compliant E) = recordOutcome X E"
  "EnsureConfigIsLoaded X (compliant E) = EnsureConfigIsLoaded X E"
  "EnsurePipelineRunIsDeleted X (compliant E) = EnsurePipelineRunIsDeleted X E"
  unfolding fun_eq_iff cancelPipelineRun_def createInternalRequestPipelineRun_def recordOutcome_def
    EnsureConfigIsLoaded_def EnsurePipelineRunIsDeleted_def compliant_sel compliant_loader
  by blast+

lemma compliant_finalize [simp]: "finalizeInternalRequest X (compliant E) = finalizeInternalRequest X E"
  unfolding fun_eq_iff finalizeInternalRequest_def finalizeByLabels_def finalizeByRef_def compliant_sel compliant_calls
  by blast

section \<open>The operations\<close>

text \<open>
  How the request is left: stored as the adapter has it, or gone because its last finalizer was
  taken off; and the operator lets go of it before it can lose the finalizer.
\<close>

definition left_behind :: "world \<Rightarrow> Adapter \<Rightarrow> bool" where
  "left_behind w a \<longleftrightarrow>
     (w_request (world_of w a) = Some (a_request a) \<or> w_request (world_of w a) = None \<and> let_go (a_request a)) \<and>
     (let_go (a_request a) \<or> InternalRequestFinalizer \<in> set (om_Finalizers (ir_ObjectMeta (a_request a))))"

lemma ready_left: "ready X k E w a \<Longrightarrow> left_behind w a"
  by (simp add: ready_def left_behind_def synced_def)

lemma status_stored:
  assumes "w_request (world_of w a) = Some base" and "E = steady nf w" and "status_only base (a_request a)"
  shows "patchRequestStatus E base a = patchRequestStatus (compliant E) base a"
    and "InternalRequestFinalizer \<in> set (om_Finalizers (ir_ObjectMeta base)) \<Longrightarrow>
      left_behind w (snd (patchRequestStatus E base a))"
    and "ir_ObjectMeta (a_request (snd (patchRequestStatus E base a))) = ir_ObjectMeta base"
proof -
  have p: "patchRequestStatus E base a =
      (None, a\<lparr>a_trace := a_trace a @ [PatchIRStatus (a_client a) base (a_request a) (a_request a, None)]\<rparr>)"
    using patchStatus_server[OF assms] by simp
  then show "patchRequestStatus E base a = patchRequestStatus (compliant E) base a"
    by (simp add: patchRequestStatus_def Let_def)
  show m: "ir_ObjectMeta (a_request (snd (patchRequestStatus E base a))) = ir_ObjectMeta base"
    using p status_only_frame[OF assms(3)] by simp
  assume "InternalRequestFinalizer \<in> set (om_Finalizers (ir_ObjectMeta base))"
  then show "left_behind w (snd (patchRequestStatus E base a))" using p m by (simp add: left_behind_def)
qed

lemma finalizers_alike:
  assumes "finalizer_api X" and "synced X k E w a" and "E = steady nf w" and "IsNotFound X nf"
  shows "EnsureFinalizersAreCalled X E a = EnsureFinalizersAreCalled X (compliant E) a"
    and "om_DeletionTimestamp (ir_ObjectMeta (a_request a)) \<noteq> None \<Longrightarrow> left_behind w (snd (EnsureFinalizersAreCalled X E a))"
proof -
  let ?meta = "ir_ObjectMeta (a_request a)"
  obtain b where f: "finalizeInternalRequest X E a = (None, b)"
    using finalize_steady[OF assms(2-4)] by (metis prod.collapse)
  have "proper_faults X nf (\<lambda>_. None)" using assms(4) by (simp add: proper_faults_def)
  then have sb: "w_request (world_of w b) = Some (a_request b)"
    using finalize_synced[OF assms(2,3)] f by (simp add: finalized_def synced_def)
  have meta: "a_request b = a_request a" using finalize_frame(1)[of X E a] f by simp
  let ?ir = "a_request a"
  let ?ir' = "?ir\<lparr>ir_ObjectMeta := (ir_ObjectMeta ?ir)\<lparr>om_Finalizers :=
      RemoveFinalizer X (om_Finalizers (ir_ObjectMeta ?ir)) InternalRequestFinalizer\<rparr>\<rparr>"
  have p: "srv_PatchIR E (a_trace b) (a_client b) ?ir ?ir' = (?ir', None)"
    using sb meta by (simp add: assms(3) server_def)
  have contains: "ContainsFinalizer X (om_Finalizers ?meta) InternalRequestFinalizer \<longleftrightarrow>
      InternalRequestFinalizer \<in> set (om_Finalizers ?meta)"
    by (rule finalizer_api.contains_iff[OF assms(1)])
  show "EnsureFinalizersAreCalled X E a = EnsureFinalizersAreCalled X (compliant E) a"
    using f meta p by (simp add: EnsureFinalizersAreCalled_def removeFinalizerPatch_def patchRequest_def Let_def)
  assume del: "om_DeletionTimestamp ?meta \<noteq> None"
  show "left_behind w (snd (EnsureFinalizersAreCalled X E a))"
  proof (cases "InternalRequestFinalizer \<in> set (om_Finalizers ?meta)")
    case True
    let ?c = "snd (EnsureFinalizersAreCalled X E a)"
    have "a_request ?c = ?ir'" "w_request (world_of w ?c) = stored ?ir'"
      using del True contains f meta p
      by (auto simp: EnsureFinalizersAreCalled_def removeFinalizerPatch_def patchRequest_def Let_def)
    moreover have "let_go ?ir'" using del finalizer_api.set_remove[OF assms(1)] by (simp add: let_go_def)
    ultimately show ?thesis by (simp add: left_behind_def stored_def)
  next
    case False
    then have "let_go ?ir" using del by (simp add: let_go_def)
    then show ?thesis
      using del False contains syncedD(2)[OF assms(2)] by (auto simp: EnsureFinalizersAreCalled_def left_behind_def Let_def)
  qed
qed

lemma finalizers_exit:
  assumes "finalizer_api X" and "results_api X" and "synced X k E w a" and "E = steady nf w" and "IsNotFound X nf"
    and "\<not> proceeds (EnsureFinalizersAreCalled X E a)"
  shows "left_behind w (snd (EnsureFinalizersAreCalled X E a))"
proof (rule finalizers_alike(2)[OF assms(1,3-5)])
  show "om_DeletionTimestamp (ir_ObjectMeta (a_request a)) \<noteq> None"
    using assms(6) op_not_deleted[of a X E] results_api.continue_continues[OF assms(2)] by (metis proceeds_simps(1))
qed

lemma added_alike:
  assumes "synced X k E w a" and "E = steady nf w"
  shows "EnsureFinalizerIsAdded X E a = EnsureFinalizerIsAdded X (compliant E) a"
proof -
  let ?ir' = "with_finalizer X (a_request a)"
  have "srv_PatchIR E (a_trace a) (a_client a) (a_request a) ?ir' = (?ir', None)"
    using syncedD(2)[OF assms(1)] by (simp add: assms(2) server_def with_finalizer_def)
  then show ?thesis by (simp add: EnsureFinalizerIsAdded_def patchRequest_def with_finalizer_def Let_def)
qed

lemma reject_alike:
  assumes "ready X k E w a" and "E = steady nf w"
  shows "reject X E msg a = reject X (compliant E) msg a \<and> left_behind w (snd (reject X E msg a))"
proof -
  let ?b = "transition (MarkRejected X msg (a_request a)) a"
  have "w_request (world_of w ?b) = Some (a_request a)" using assms(1) by (simp add: ready_def synced_def)
  note s = status_stored[OF this assms(2), unfolded status_only_def]
  have "InternalRequestFinalizer \<in> set (om_Finalizers (ir_ObjectMeta (a_request a)))" using assms(1) by (simp add: ready_def)
  then show ?thesis using s by (auto simp: reject_def Let_def split: prod.splits)
qed

lemma allowed_alike:
  assumes "results_api X" and "ready X k E w a" and "E = steady nf w" and "a_config a = Some cfg"
  shows "EnsureRequestIsAllowed X E a = EnsureRequestIsAllowed X (compliant E) a"
    and "left_behind w (snd (EnsureRequestIsAllowed X E a))"
proof -
  let ?git = "ensureGitResolverURLIsAllowed X E cfg a"
  have rej: "reject X E msg a = reject X (compliant E) msg a" for msg using reject_alike[OF assms(2,3)] by blast
  have git: "?git = ensureGitResolverURLIsAllowed X (compliant E) cfg a"
    by (simp add: ensureGitResolverURLIsAllowed_def rej Let_def split: option.split)
  have acc: "ensureServiceAccountIsAllowed X E cfg a = ensureServiceAccountIsAllowed X (compliant E) cfg a"
    by (simp add: ensureServiceAccountIsAllowed_def rej Let_def)
  have "snd ?git = a" if "proceeds ?git"
    using that url_check[of a _ cfg X E] results_api.reject_not_proceeds[OF assms(1), of E]
    by (cases "s_Pipeline (ir_Spec (a_request a))") (auto simp: ensureGitResolverURLIsAllowed_def Let_def split: if_splits)
  then have "allowLoop X E cfg ns a = allowLoop X (compliant E) cfg ns a" for ns
    unfolding allowLoop_member git[symmetric] rej[symmetric]
    using acc by (cases ?git; cases "fst ?git") (auto simp: proceeds_def continues_def)
  then show "EnsureRequestIsAllowed X E a = EnsureRequestIsAllowed X (compliant E) a"
    by (simp add: EnsureRequestIsAllowed_def assms(4))
  show "left_behind w (snd (EnsureRequestIsAllowed X E a))"
    using assms(1,4)
    by (cases rule: allowed_cases[where E = E]) (use conjunct2[OF reject_alike[OF assms(2,3)]] ready_left[OF assms(2)] in auto)
qed

lemma registered_alike:
  assumes "synced X k E w a" and "E = steady nf w"
  shows "registerInternalRequestStatus X E (Some p) a = registerInternalRequestStatus X (compliant E) (Some p) a"
    and "InternalRequestFinalizer \<in> set (om_Finalizers (ir_ObjectMeta (a_request a))) \<Longrightarrow>
      left_behind w (snd (registerInternalRequestStatus X E (Some p) a))"
proof -
  let ?b = "transition (MarkRunning X (Now E (a_trace a)) (a_request a)) a"
  have "w_request (world_of w ?b) = Some (a_request a)" using assms(1) by (simp add: synced_def)
  note s = status_stored[OF this assms(2)]
  have so: "status_only (a_request a) (a_request ?b)" by (simp add: status_onlyI)
  show "registerInternalRequestStatus X E (Some p) a = registerInternalRequestStatus X (compliant E) (Some p) a"
    and "InternalRequestFinalizer \<in> set (om_Finalizers (ir_ObjectMeta (a_request a))) \<Longrightarrow>
      left_behind w (snd (registerInternalRequestStatus X E (Some p) a))"
    using s[OF so] by (simp_all add: registerInternalRequestStatus_def Let_def)
qed

lemma created_alike:
  assumes "owner_api X" and "ready X k E w a" and "E = steady nf w"
    and "\<not> HasCompleted X (a_request a)" and "configured_run a"
  shows "EnsurePipelineRunIsCreated X E a = EnsurePipelineRunIsCreated X (compliant E) a"
    and "left_behind w (snd (EnsurePipelineRunIsCreated X E a))"
proof -
  have sy: "synced X k E w a" and fin: "InternalRequestFinalizer \<in> set (om_Finalizers (ir_ObjectMeta (a_request a)))"
    using assms(2) by (simp_all add: ready_def)
  obtain cfg where cfg: "a_config a = Some cfg" "CHR ''/'' \<notin> set (om_Namespace (cfg_ObjectMeta cfg))"
    using assms(5) by (auto simp: configured_run_def)
  note op = EnsurePipelineRunIsCreated_def hardError_def
  have "EnsurePipelineRunIsCreated X E a = EnsurePipelineRunIsCreated X (compliant E) a \<and>
      left_behind w (snd (EnsurePipelineRunIsCreated X E a))"
    using sy assms(3)
  proof (cases rule: server_load)
    case (fault e es)
    then show ?thesis by simp
  next
    case (found p es)
    let ?b = "a\<lparr>a_trace := a_trace a @ es\<rparr>"
    have sb: "synced X k E w ?b" by (rule synced_reads[OF sy found(2)])
    then have "left_behind w ?b" using fin by (intro ready_left[of X k E]) (simp add: ready_def)
    then show ?thesis
      using found registered_alike[OF sb assms(3), of p] fin by (auto simp: op Let_def split: prod.splits)
  next
    case (absent es)
    let ?b = "a\<lparr>a_trace := a_trace a @ es\<rparr>"
    have sb: "synced X k E w ?b" by (rule synced_reads[OF sy absent(2)])
    have m: "mine k (world_of w ?b) = []" using absent by (simp add: world_after_reads)
    have sc: "synced X k E w (snd (createInternalRequestPipelineRun X E ?b))"
      using create_world[OF assms(1) sb assms(3) m] assms(4) cfg fin by simp
    then have lc: "left_behind w (snd (createInternalRequestPipelineRun X E ?b))"
      using fin by (intro ready_left[of X k E]) (simp add: ready_def)
    show ?thesis
    proof (cases rule: create_cases[where X = X and E = E and b = ?b])
      case (made q c)
      then have "synced X k E w c" "InternalRequestFinalizer \<in> set (om_Finalizers (ir_ObjectMeta (a_request c)))"
        using sc create_frame(1)[of X E ?b] fin by simp_all
      then show ?thesis
        using made absent registered_alike[of X k E w c nf q, OF _ assms(3)] by (auto simp: op Let_def split: prod.splits)
    qed (use absent lc in \<open>auto simp: op\<close>)
  qed
  then show "EnsurePipelineRunIsCreated X E a = EnsurePipelineRunIsCreated X (compliant E) a"
    and "left_behind w (snd (EnsurePipelineRunIsCreated X E a))" by blast+
qed

lemma tracked_alike:
  assumes "tekton_api X" and "ready X k E w a" and "E = steady nf w"
  shows "EnsureStatusIsTracked X E a = EnsureStatusIsTracked X (compliant E) a"
    and "left_behind w (snd (EnsureStatusIsTracked X E a))"
proof -
  have sy: "synced X k E w a" and fin: "InternalRequestFinalizer \<in> set (om_Finalizers (ir_ObjectMeta (a_request a)))"
    using assms(2) by (simp_all add: ready_def)
  have "EnsureStatusIsTracked X E a = EnsureStatusIsTracked X (compliant E) a \<and>
      left_behind w (snd (EnsureStatusIsTracked X E a))"
    using sy assms(3)
  proof (cases rule: server_load)
    case (fault e es)
    then show ?thesis by simp
  next
    case (absent es)
    have "left_behind w (a\<lparr>a_trace := a_trace a @ es\<rparr>)"
      using synced_reads[OF sy absent(2)] fin by (intro ready_left[of X k E]) (simp add: ready_def)
    then show ?thesis using absent by (simp add: EnsureStatusIsTracked_def hardError_def)
  next
    case (found p es)
    let ?b = "a\<lparr>a_trace := a_trace a @ es\<rparr>"
    let ?t = "tracked X E p ?b"
    have ol: "object_loader (a_loader ?b)" using syncedD(1)[OF sy] cluster_loader.object_loader_axioms by simp
    obtain ts where "a_trace ?t = a_trace ?b @ ts" "local_reads ?b ts" using tracked_frame(1)[OF assms(1) ol] by blast
    then have "w_request (world_of w ?t) = Some (a_request a)"
      using found(2) syncedD(2)[OF sy] by (simp add: world_after_reads local_reads_def)
    note s = status_stored[OF this assms(3)]
    have so: "status_only (a_request a) (a_request ?t)" using tracked_status_only[OF assms(1), of ?b E p] by simp
    have same: "tracked X (compliant E) p ?b = ?t" unfolding tracked_def compliant_calls by (rule refl)
    show ?thesis
      using found(3) s[OF so] fin
      by (auto simp: EnsureStatusIsTracked_def hardError_def tekton_api.register_tracked[OF assms(1)] same split: prod.splits)
  qed
  then show "EnsureStatusIsTracked X E a = EnsureStatusIsTracked X (compliant E) a"
    and "left_behind w (snd (EnsureStatusIsTracked X E a))" by blast+
qed

lemma deleted_left:
  assumes "ready X k E w a"
  shows "left_behind w (snd (EnsurePipelineRunIsDeleted X E a))"
proof -
  have "object_loader (a_loader a)"
    using assms cluster_loader.object_loader_axioms by (simp add: ready_def synced_def)
  from deleted_request[OF this] show ?thesis using ready_left[OF assms] by (simp add: left_behind_def)
qed

section \<open>The reconcile\<close>

text \<open>A specification for compliant clusters holds for the others too where they agree.\<close>

lemma spec_alike:
  assumes "spec I op' J (\<lambda>_. Q)" and "\<And>a. S a \<Longrightarrow> op a = op' a"
    and "\<And>a. I a \<Longrightarrow> S a \<Longrightarrow> proceeds (op a) \<Longrightarrow> J (snd (op a)) \<Longrightarrow> S' (snd (op a))"
    and "\<And>a. S a \<Longrightarrow> \<not> proceeds (op a) \<Longrightarrow> left_behind w (snd (op a))"
  shows "spec (\<lambda>a. I a \<and> S a) op (\<lambda>a. J a \<and> S' a) (\<lambda>_ a. Q a \<and> left_behind w a)"
  using assms unfolding spec_def by metis

lemma live_ready:
  assumes "synced X k E w a" and "live X cs a" and "left_behind w a"
  shows "ready X k E w a"
  using assms by (auto simp: ready_def live_def left_behind_def let_go_def)

lemma server_admits:
  assumes "admits (current_config w) ir"
  shows "stays_admitted X (compliant (server nf (\<lambda>_. None) w)) ir"
proof -
  have no: "\<not> admits (getDefaultInternalServicesConfig n) ir" for n
    by (simp add: admits_def getDefaultInternalServicesConfig_def zero_InternalServicesConfigSpec_def)
  show ?thesis
    unfolding stays_admitted_def
  proof (intro allI)
    fix h c
    let ?r = "srv_GetConfig (server nf (\<lambda>_. None) w) h c (serviceNamespace (server nf (\<lambda>_. None) w)) InternalServicesConfigResourceName"
    have "snd ?r = None \<and> fst ?r = current_config w"
      using server_config[of nf "\<lambda>_. None" w h c "fst ?r" "snd ?r"] assms no by auto
    then show "case srv_GetConfig (compliant (server nf (\<lambda>_. None) w)) h c (serviceNamespace (compliant (server nf (\<lambda>_. None) w)))
        InternalServicesConfigResourceName of (cfg, None) \<Rightarrow> admits cfg ir | (_, Some e) \<Rightarrow> \<not> IsNotFound X e"
      using assms by (cases ?r) simp
  qed
qed

lemma spec_step: "spec I op J Q \<Longrightarrow> I a \<Longrightarrow> proceeds (op a) \<Longrightarrow> J (snd (op a))"
  by (simp add: spec_def)

definition untouched :: "ext \<Rightarrow> metric_call list \<Rightarrow> InternalRequest \<Rightarrow> env \<Rightarrow> Adapter \<Rightarrow> bool" where
  "untouched X cs ir E a \<longleftrightarrow> live X cs a \<and> same_case ir (a_request a) \<and> a_loader a = NewLoader E"

definition judged :: "ext \<Rightarrow> metric_call list \<Rightarrow> Adapter \<Rightarrow> bool" where
  "judged X cs a \<longleftrightarrow> live X cs a \<and> \<not> HasCompleted X (a_request a) \<and>
     (\<exists>cfg. a_config a = Some cfg \<and> (IsRunning X (a_request a) \<longrightarrow> admits cfg (a_request a)))"

definition open_run :: "ext \<Rightarrow> key \<Rightarrow> env \<Rightarrow> world \<Rightarrow> Adapter \<Rightarrow> bool" where
  "open_run X k E w a \<longleftrightarrow> ready X k E w a \<and> \<not> HasCompleted X (a_request a) \<and> configured_run a"

definition booked :: "ext \<Rightarrow> metric_call list \<Rightarrow> world \<Rightarrow> Adapter \<Rightarrow> bool" where
  "booked X cs w a \<longleftrightarrow> books X cs a \<and> left_behind w a"

lemmas smooth_defs = untouched_def judged_def open_run_def booked_def

lemma smooth_admission:
  assumes apis: "conditions_api X" "results_api X" "finalizer_api X" and E: "E = steady nf w" and nf: "IsNotFound X nf"
    and bal: "balanced X ir cs" "\<not> let_go ir" and adm: "IsRunning X ir \<Longrightarrow> admits (current_config w) ir"
  shows "spec (\<lambda>a. (a_request a = ir \<and> a_spawned a = [] \<and> a_loader a = NewLoader E) \<and> synced X k E w a)
      (EnsureFinalizersAreCalled X E)
      (\<lambda>a. untouched X cs ir E a \<and> synced X k E w a \<and> om_DeletionTimestamp (ir_ObjectMeta (a_request a)) = None)
      (\<lambda>_. booked X cs w)"
    and "spec (\<lambda>a. untouched X cs ir E a \<and> synced X k E w a \<and> om_DeletionTimestamp (ir_ObjectMeta (a_request a)) = None)
      (EnsureFinalizerIsAdded X E) (\<lambda>a. untouched X cs ir E a \<and> ready X k E w a) (\<lambda>_. booked X cs w)"
    and "spec (\<lambda>a. untouched X cs ir E a \<and> ready X k E w a) (EnsureRequestINotCompleted X)
      (\<lambda>a. (untouched X cs ir E a \<and> \<not> HasCompleted X (a_request a)) \<and> ready X k E w a \<and> \<not> HasCompleted X (a_request a))
      (\<lambda>_. booked X cs w)"
    and "spec (\<lambda>a. (untouched X cs ir E a \<and> \<not> HasCompleted X (a_request a)) \<and> ready X k E w a \<and> \<not> HasCompleted X (a_request a))
      (EnsureConfigIsLoaded X E) (\<lambda>a. judged X cs a \<and> open_run X k E w a) (\<lambda>_. booked X cs w)"
    and "spec (\<lambda>a. judged X cs a \<and> open_run X k E w a) (EnsureRequestIsAllowed X E)
      (\<lambda>a. (live X cs a \<and> \<not> HasCompleted X (a_request a)) \<and> open_run X k E w a) (\<lambda>_. booked X cs w)"
proof -
  note ok = compliant_accepts[of E]
  note books = spec_books_finalizers[OF apis ok bal] spec_books_added[OF ok] spec_books_not_completed[OF apis(2), of _ ir E]
    spec_books_config[OF apis(2), of ir "compliant E"] spec_books_allowed[OF apis(1,2) ok]
  have stay: "IsRunning X ir \<Longrightarrow> stays_admitted X (compliant E) ir" using adm server_admits E by blast
  show "spec (\<lambda>a. (a_request a = ir \<and> a_spawned a = [] \<and> a_loader a = NewLoader E) \<and> synced X k E w a)
      (EnsureFinalizersAreCalled X E)
      (\<lambda>a. untouched X cs ir E a \<and> synced X k E w a \<and> om_DeletionTimestamp (ir_ObjectMeta (a_request a)) = None)
      (\<lambda>_. booked X cs w)"
    unfolding smooth_defs
    by (rule spec_alike[OF books(1)[unfolded compliant_loader]])
      (use finalizers_alike(1)[OF apis(3) _ E nf, of k, symmetric] finalizers_exit[OF apis(3,2) _ E nf, of k]
        finalizers_continue[OF apis(2)] in \<open>auto simp: live_def\<close>)
  show "spec (\<lambda>a. untouched X cs ir E a \<and> synced X k E w a \<and> om_DeletionTimestamp (ir_ObjectMeta (a_request a)) = None)
      (EnsureFinalizerIsAdded X E) (\<lambda>a. untouched X cs ir E a \<and> ready X k E w a) (\<lambda>_. booked X cs w)"
    unfolding smooth_defs
    by (rule spec_alike[OF books(2)[unfolded compliant_loader]])
      (use added_alike[OF _ E, of X k, symmetric] added_held[OF apis(3,2) _ E, of k] in \<open>auto simp: held_def\<close>)
  show "spec (\<lambda>a. untouched X cs ir E a \<and> ready X k E w a) (EnsureRequestINotCompleted X)
      (\<lambda>a. (untouched X cs ir E a \<and> \<not> HasCompleted X (a_request a)) \<and> ready X k E w a \<and> \<not> HasCompleted X (a_request a))
      (\<lambda>_. booked X cs w)"
    unfolding smooth_defs conj_assoc
    by (rule spec_alike[OF books(3), unfolded conj_assoc])
      (use ready_left[of X k E w] in \<open>auto simp: EnsureRequestINotCompleted_def split: if_splits\<close>)
  show "spec (\<lambda>a. (untouched X cs ir E a \<and> \<not> HasCompleted X (a_request a)) \<and> ready X k E w a \<and> \<not> HasCompleted X (a_request a))
      (EnsureConfigIsLoaded X E) (\<lambda>a. judged X cs a \<and> open_run X k E w a) (\<lambda>_. booked X cs w)"
    unfolding smooth_defs conj_assoc
    by (rule spec_alike[OF books(4)[OF stay, unfolded compliant_loader], unfolded conj_assoc])
      (use config_step[OF _ E, of X k] ready_left[of X k E w] in auto)
  show "spec (\<lambda>a. judged X cs a \<and> open_run X k E w a) (EnsureRequestIsAllowed X E)
      (\<lambda>a. (live X cs a \<and> \<not> HasCompleted X (a_request a)) \<and> open_run X k E w a) (\<lambda>_. booked X cs w)"
    unfolding smooth_defs
    by (rule spec_alike[OF books(5)])
      (use allowed_alike(1)[OF apis(2) _ E, of k, symmetric] allowed_alike(2)[OF apis(2) _ E, of k] results_api.allowed_proceeds_admits[OF apis(2), of E] in \<open>auto simp: configured_run_def\<close>)
qed

lemma smooth_run:
  assumes apis: "conditions_api X" "results_api X" "finalizer_api X" "tekton_api X" "owner_api X"
    and E: "E = steady nf w" and nf: "IsNotFound X nf"
  shows "spec (\<lambda>a. (live X cs a \<and> \<not> HasCompleted X (a_request a)) \<and> open_run X k E w a)
      (EnsurePipelineRunIsCreated X E) (\<lambda>a. (live X cs a \<and> IsRunning X (a_request a)) \<and> ready X k E w a) (\<lambda>_. booked X cs w)"
    and "spec (\<lambda>a. (live X cs a \<and> IsRunning X (a_request a)) \<and> ready X k E w a)
      (EnsureStatusIsTracked X E) (\<lambda>a. live X cs a \<and> ready X k E w a) (\<lambda>_. booked X cs w)"
    and "spec (\<lambda>a. live X cs a \<and> ready X k E w a) (EnsurePipelineRunIsDeleted X E)
      (\<lambda>a. live X cs a \<and> left_behind w a) (\<lambda>_. booked X cs w)"
proof -
  have pf: "proper_faults X nf (\<lambda>_. None)" using nf by (simp add: proper_faults_def)
  note ok = compliant_accepts[of E] and world = spec_world[OF apis E pf, where k = k]
  note books = spec_books_created[OF apis(1,2) ok] spec_books_end[OF apis(1,4) ok]
  show "spec (\<lambda>a. (live X cs a \<and> \<not> HasCompleted X (a_request a)) \<and> open_run X k E w a)
      (EnsurePipelineRunIsCreated X E) (\<lambda>a. (live X cs a \<and> IsRunning X (a_request a)) \<and> ready X k E w a) (\<lambda>_. booked X cs w)"
    unfolding smooth_defs
    by (rule spec_alike[OF books(1)])
      (use created_alike(1)[OF apis(5) _ E, of k, symmetric] created_alike(2)[OF apis(5) _ E, of k] spec_step[OF world(6)] live_ready[of X k E w] in auto)
  show "spec (\<lambda>a. (live X cs a \<and> IsRunning X (a_request a)) \<and> ready X k E w a)
      (EnsureStatusIsTracked X E) (\<lambda>a. live X cs a \<and> ready X k E w a) (\<lambda>_. booked X cs w)"
    unfolding smooth_defs
    by (rule spec_alike[OF books(2)])
      (use tracked_alike(1)[OF apis(4) _ E, of k, symmetric] tracked_alike(2)[OF apis(4) _ E, of k] spec_step[OF world(7)] live_ready[of X k E w] in \<open>auto simp: ready_def\<close>)
  show "spec (\<lambda>a. live X cs a \<and> ready X k E w a) (EnsurePipelineRunIsDeleted X E)
      (\<lambda>a. live X cs a \<and> left_behind w a) (\<lambda>_. booked X cs w)"
    unfolding smooth_defs
    by (rule spec_alike[OF books(3)]) (use deleted_left[of X k E w] in auto)
qed

text \<open>
  A reconcile without failures keeps the books of the stored request. If the request is gone
  afterwards, the operator had let go of it.
\<close>

lemma smooth_books:
  assumes "reconcile_handler RH"
    and apis: "conditions_api X" "results_api X" "finalizer_api X" "tekton_api X" "owner_api X"
    and nf: "IsNotFound X nf" and ok: "world_ok X k w" and q: "w_request w = Some ir"
    and bal: "balanced X ir cs" "\<not> let_go ir" and adm: "IsRunning X ir \<Longrightarrow> admits (current_config w) ir"
    and r: "Reconcile X (steady nf w) RH rec (fst k) (snd k) [] = (res, h, calls)"
  obtains ir' where "w_request (world_after w h) = Some ir' \<or> w_request (world_after w h) = None \<and> let_go ir'"
    and "if let_go ir' then closed_books (cs @ calls)
      else balanced X ir' (cs @ calls) \<and> InternalRequestFinalizer \<in> set (om_Finalizers (ir_ObjectMeta ir'))"
proof -
  let ?E = "steady nf w"
  let ?a = "NewAdapter (r_Client rec) (r_InternalClient rec) ir (NewLoader ?E) [GetIR (r_Client rec) (fst k) (snd k) (ir, None)]"
  let ?b = "snd (RH (operations X ?E) ?a)"
  have g: "srv_GetIR ?E [] (r_Client rec) (fst k) (snd k) = (ir, None)" using steady_get[OF ok] q by simp
  have h: "h = a_trace ?b" "calls = a_spawned ?b"
    using r reconcile_handler.Reconcile_loop[OF assms(1) g, of X] by (simp_all add: Let_def)
  have s: "(a_request ?a = ir \<and> a_spawned ?a = [] \<and> a_loader ?a = NewLoader ?E) \<and> synced X k ?E w ?a"
    using ok q by (simp add: NewAdapter_def synced_def kept_def)
  have "booked X cs w ?b"
    by (rule reconcile_handler.reconcile_rule[OF assms(1), where Q = "\<lambda>_. booked X cs w",
          OF smooth_admission[OF apis(1-3) refl nf bal adm] smooth_run[OF apis refl nf] _ s])
      (simp_all add: booked_def live_books)
  then show thesis
    using that[of "a_request ?b"] h by (auto simp: booked_def books_def left_behind_def split: if_splits)
qed

text \<open>A request the operator has let go of costs nothing.\<close>

lemma let_go_idle:
  assumes "reconcile_handler RH" and "results_api X" and "finalizer_api X" and ok: "world_ok X k w"
    and q: "w_request w = Some ir" "let_go ir"
    and r: "Reconcile X (steady nf w) RH rec (fst k) (snd k) [] = (res, h, calls)"
  shows "calls = []" and "world_after w h = w"
proof -
  let ?E = "steady nf w"
  let ?a = "NewAdapter (r_Client rec) (r_InternalClient rec) ir (NewLoader ?E) [GetIR (r_Client rec) (fst k) (snd k) (ir, None)]"
  have g: "srv_GetIR ?E [] (r_Client rec) (fst k) (snd k) = (ir, None)" using steady_get[OF ok] q(1) by simp
  have "EnsureFinalizersAreCalled X ?E ?a = (Ret (RequeueNow X), ?a)"
    using q(2) finalizer_api.contains_iff[OF assms(3)] by (auto simp: EnsureFinalizersAreCalled_def NewAdapter_def let_go_def Let_def)
  then have "snd (RH (operations X ?E) ?a) = ?a"
    using reconcile_handler.handle_requeue[OF assms(1), of "EnsureFinalizersAreCalled X ?E" ?a "RequeueNow X"]
      results_api.requeue_requeues[OF assms(2)] by (simp add: operations_def)
  then show "calls = []" "world_after w h = w"
    using r reconcile_handler.Reconcile_loop[OF assms(1) g, of X] by (auto simp: Let_def NewAdapter_def)
qed

end
