(* ===== verification/Gauge.thy ===== *)
theory Gauge
  imports Smooth_Running
begin

text \<open>
  The concurrency gauge of the whole operator: what the goroutines of all reconciles since the
  process started have done to it, against the number of requests that are running.
\<close>

section \<open>What is counted\<close>

definition counts :: "ext \<Rightarrow> world \<Rightarrow> bool" where
  "counts X w \<longleftrightarrow> (\<exists>ir. w_request w = Some ir \<and> IsRunning X ir \<and> \<not> let_go ir)"

definition running :: "ext \<Rightarrow> fleet \<Rightarrow> key set" where
  "running X c = {k. counts X (view k c)}"

text \<open>Books can be kept on the request, and a request that runs has the finalizer.\<close>

definition bookable :: "ext \<Rightarrow> world \<Rightarrow> bool" where
  "bookable X w \<longleftrightarrow> (\<forall>ir. w_request w = Some ir \<and> \<not> let_go ir \<longrightarrow>
     (\<exists>cs. balanced X ir cs) \<and> (IsRunning X ir \<longrightarrow> InternalRequestFinalizer \<in> set (om_Finalizers (ir_ObjectMeta ir))))"

definition metered :: "ext \<Rightarrow> fleet \<Rightarrow> bool" where
  "metered X c \<longleftrightarrow> fleet_ok X c \<and> (\<forall>k. bookable X (view k c)) \<and> finite (running X c)"

section \<open>Steps with their goroutines\<close>

text \<open>
  The steps of \<open>fleet_step\<close> except restarts, with the goroutines started so far. No call fails, a
  running request that is reconciled is still admitted, and new requests have no status.
\<close>

definition fresh_status :: "ext \<Rightarrow> InternalRequest \<Rightarrow> bool" where
  "fresh_status X ir \<longleftrightarrow> succeededCondition X ir = None \<and> ir_StartTime ir = None"

inductive metered_step ::
  "ext \<Rightarrow> handler \<Rightarrow> Reconciler \<Rightarrow> watch_ops \<Rightarrow> go_error \<Rightarrow> fleet \<times> metric_call list \<Rightarrow> fleet \<times> metric_call list \<Rightarrow> bool"
  for X RH rec W nf where
  work: "k \<in> f_queue c \<Longrightarrow>
    \<forall>ir. f_requests c k = Some ir \<and> IsRunning X ir \<longrightarrow> admits (current_config (view k c)) ir \<Longrightarrow>
    Reconcile X (steady nf (view k c)) RH rec (fst k) (snd k) [] = (res, h, calls) \<Longrightarrow>
    metered_step X RH rec W nf (c, cs) (worked k (world_after (view k c) h) res c, cs @ calls)"
| others: "\<forall>j. view j c' = view j c \<or> env_step X j (view j c) ev (view j c') \<Longrightarrow>
    \<forall>j ir. f_requests c j = None \<and> f_requests c' j = Some ir \<longrightarrow> fresh_status X ir \<Longrightarrow>
    f_queue c' = f_queue c \<union> (case ev of None \<Rightarrow> {} | Some e \<Rightarrow> set (dispatch X W e)) \<Longrightarrow>
    metered_step X RH rec W nf (c, cs) (c', cs)"
| resync: "metered_step X RH rec W nf (c, cs) (c\<lparr>f_queue := insert k (f_queue c)\<rparr>, cs)"

section \<open>Others do not change what is counted\<close>

lemma bookable_cong:
  assumes "bookable X w" and "w_request w = Some ir" and "w_request w' = Some ir'" and "ir_Status ir' = ir_Status ir"
    and "om_Finalizers (ir_ObjectMeta ir') = om_Finalizers (ir_ObjectMeta ir)" and "let_go ir \<Longrightarrow> let_go ir'"
    and "let_go ir' \<Longrightarrow> InternalRequestFinalizer \<notin> set (om_Finalizers (ir_ObjectMeta ir))"
  shows "bookable X w' \<and> (counts X w' \<longleftrightarrow> counts X w)"
proof -
  have "balanced X ir' cs = balanced X ir cs" for cs by (rule balanced_cong) (use assms(4) in simp_all)
  moreover have "IsRunning X ir' = IsRunning X ir" by (rule status_cong(2)[OF assms(4)])
  ultimately show ?thesis using assms by (auto simp: bookable_def counts_def)
qed

lemma env_counts:
  assumes "env_step X k w ev w'" and b: "bookable X w" and "conditions_api X"
    and fresh: "\<And>ir. w_request w = None \<Longrightarrow> w_request w' = Some ir \<Longrightarrow> fresh_status X ir"
  shows "bookable X w' \<and> (counts X w' \<longleftrightarrow> counts X w)"
  using assms(1)
proof cases
  case (submit ir)
  then have "succeededCondition X ir = None" "ir_StartTime ir = None" using fresh by (auto simp: fresh_status_def)
  then have "balanced X ir []" "\<not> IsRunning X ir"
    using conditions_api.balanced_fresh[OF assms(3)] by (auto simp: query_defs)
  then show ?thesis using submit by (auto simp: bookable_def counts_def)
next
  case (edit ir g ir' s)
  then show ?thesis by (intro bookable_cong[OF b, of ir w' ir']) (simp_all add: edited_def let_go_def)
next
  case (mark_deleted ir ir' t)
  show ?thesis
  proof (cases "stored ir'")
    case None
    then have "\<not> IsRunning X ir \<or> let_go ir"
      using mark_deleted b by (auto simp: stored_def bookable_def marked_def split: if_splits)
    then show ?thesis using mark_deleted None by (auto simp: bookable_def counts_def)
  next
    case (Some ir'')
    then show ?thesis
      using mark_deleted by (intro bookable_cong[OF b, of ir w' ir'']) (auto simp: stored_def marked_def let_go_def split: if_splits)
  qed
qed (use b in \<open>simp_all add: bookable_def counts_def\<close>)

section \<open>A reconcile moves the gauge with the count\<close>

lemma counts_iff: "w_request w = Some ir \<Longrightarrow> \<not> let_go ir \<Longrightarrow> counts X w \<longleftrightarrow> IsRunning X ir"
  by (simp add: counts_def)

lemma card_of_bool:
  assumes "finite A" and "A - {k} = B - {k}"
  shows "finite B" and "int (card B) - int (card A) = of_bool (k \<in> B) - of_bool (k \<in> A)"
proof -
  have "finite (B - {k})" unfolding assms(2)[symmetric] using assms(1) by simp
  then show fin: "finite B" by simp
  have "int (card S) = of_bool (k \<in> S) + int (card (S - {k}))" if "finite S" for S
  proof (cases "k \<in> S")
    case True
    then show ?thesis by (subst card.remove[OF that True]) simp
  qed simp
  from this[OF fin] this[OF assms(1)] show "int (card B) - int (card A) = of_bool (k \<in> B) - of_bool (k \<in> A)"
    unfolding assms(2) by linarith
qed

context operator_api
begin

lemma work_counts:
  assumes ok: "fleet_ok X c" and b: "bookable X (view k c)" and nf: "IsNotFound X nf"
    and adm: "\<forall>ir. f_requests c k = Some ir \<and> IsRunning X ir \<longrightarrow> admits (current_config (view k c)) ir"
    and r: "Reconcile X (steady nf (view k c)) RH rec (fst k) (snd k) [] = (res, h, calls)"
  shows "bookable X (world_after (view k c) h) \<and> (\<forall>c\<in>set calls. \<not> metric_panics c) \<and>
    gauge_total calls = of_bool (counts X (world_after (view k c) h)) - of_bool (counts X (view k c))"
proof -
  let ?w = "view k c" and ?v = "world_after (view k c) h"
  have wok: "world_ok X k ?w" by (rule fleet_okD[OF ok])
  consider (none) "w_request ?w = None" | (gone) ir where "w_request ?w = Some ir" "let_go ir"
    | (kept) ir where "w_request ?w = Some ir" "\<not> let_go ir"
    by (cases "w_request ?w") blast+
  then show ?thesis
  proof cases
    case none
    then have "srv_GetIR (steady nf ?w) [] (r_Client rec) (fst k) (snd k) = (zero_InternalRequest, Some nf)"
      using steady_get[OF wok] by simp
    then have "calls = []" "?v = ?w"
      using rh.Reconcile_no_request[of "steady nf ?w" "[]" rec "fst k" "snd k" zero_InternalRequest nf X] r by auto
    then show ?thesis using b by simp
  next
    case gone
    then have "calls = []" "?v = ?w"
      using let_go_idle[OF loop_apis(1,3,4) wok gone r] by simp_all
    then show ?thesis using b by simp
  next
    case kept
    obtain cs where cs: "balanced X ir cs" using b kept by (auto simp: bookable_def)
    have adm': "IsRunning X ir \<Longrightarrow> admits (current_config ?w) ir" using adm kept by simp
    obtain ir' where ir': "w_request ?v = Some ir' \<or> w_request ?v = None \<and> let_go ir'"
      "if let_go ir' then closed_books (cs @ calls)
       else balanced X ir' (cs @ calls) \<and> InternalRequestFinalizer \<in> set (om_Finalizers (ir_ObjectMeta ir'))"
      by (rule smooth_books[OF loop_apis nf wok kept(1) cs kept(2) adm' r]) blast
    have before: "gauge_total cs = of_bool (counts X ?w)" using cs counts_iff[OF kept] by (simp add: balanced_def)
    show ?thesis
    proof (cases "let_go ir'")
      case True
      then have "\<not> counts X ?v" "bookable X ?v" using ir'(1) by (auto simp: counts_def bookable_def)
      then show ?thesis using True ir'(2) before by (simp add: closed_books_def)
    next
      case False
      then have v: "w_request ?v = Some ir'" using ir'(1) by blast
      have "bookable X ?v" using v ir'(2) False by (auto simp: bookable_def)
      then show ?thesis using False ir'(2) before counts_iff[OF v False, of X] by (auto simp: balanced_def split: if_splits)
    qed
  qed
qed

lemma others_count:
  assumes "\<forall>j. view j c' = view j c \<or> env_step X j (view j c) ev (view j c')"
    and "\<forall>j ir. f_requests c j = None \<and> f_requests c' j = Some ir \<longrightarrow> fresh_status X ir" and b: "bookable X (view j c)"
  shows "bookable X (view j c') \<and> (counts X (view j c') \<longleftrightarrow> counts X (view j c))"
proof -
  consider "view j c' = view j c" | "env_step X j (view j c) ev (view j c')" using assms(1) by blast
  then show ?thesis
  proof cases
    case 1
    then show ?thesis using b by simp
  next
    case 2
    have "w_request (view j c) = None \<Longrightarrow> w_request (view j c') = Some ir \<Longrightarrow> fresh_status X ir" for ir
      using assms(2) unfolding view_sel by blast
    then show ?thesis by (rule env_counts[OF 2 b cond.conditions_api_axioms])
  qed
qed

text \<open>Every step keeps the invariant, and the gauge moves by the change of the count.\<close>

lemma metered_step_gauge:
  assumes "metered_step X RH rec W nf (c, cs) (c', cs')" and m: "metered X c" and nf: "IsNotFound X nf"
  shows "metered X c' \<and> gauge_total cs' - gauge_total cs = int (card (running X c')) - int (card (running X c)) \<and>
    ((\<forall>x\<in>set cs. \<not> metric_panics x) \<longrightarrow> (\<forall>x\<in>set cs'. \<not> metric_panics x))"
proof -
  have ok: "fleet_ok X c" and b: "\<And>k. bookable X (view k c)" and fin: "finite (running X c)"
    using m unfolding metered_def by blast+
  from assms(1) show ?thesis
  proof cases
    case (work k res h calls)
    let ?w = "world_after (view k c) h"
    have pf: "proper_faults X nf (\<lambda>_. None)" using nf by (simp add: proper_faults_def)
    note wc = work_counts[OF ok b nf work(4,5)]
    have other: "counts X (view j c') = counts X (view j c)" "bookable X (view j c') = bookable X (view j c)" if "j \<noteq> k" for j
      using that work(1) by (simp_all add: counts_def bookable_def)
    have own: "view k c' = ?w" using work(1) by simp
    have "running X c - {k} = running X c' - {k}" using other by (auto simp: running_def)
    note card = card_of_bool[OF fin this]
    have "bookable X (view j c')" for j using other[of j] own wc b by (cases "j = k") simp_all
    then have "metered X c'" using work_ok(1)[OF ok pf work(5)] work(1) card(1) by (simp add: metered_def)
    then show ?thesis using card(2) wc own work(2) by (auto simp: running_def)
  next
    case (others ev)
    have st: "bookable X (view j c') \<and> (counts X (view j c') \<longleftrightarrow> counts X (view j c))" for j
      by (rule others_count[OF others(2,3) b])
    then have "running X c' = running X c" by (simp add: running_def)
    moreover have "fleet_ok X c'"
      using others(2) ok fleet_step_ok[OF fleet_step.others[OF others(2,4)]] by blast
    ultimately show ?thesis using st fin others(1) by (simp add: metered_def)
  next
    case (resync k)
    then show ?thesis using m by (simp add: metered_def fleet_ok_def running_def)
  qed
qed

lemma metered_run_gauge:
  assumes "(metered_step X RH rec W nf)\<^sup>*\<^sup>* (c, cs) (c', cs')" and "metered X c" and "IsNotFound X nf"
    and "\<forall>x\<in>set cs. \<not> metric_panics x"
  shows "metered X c' \<and> gauge_total cs' - gauge_total cs = int (card (running X c')) - int (card (running X c)) \<and>
    (\<forall>x\<in>set cs'. \<not> metric_panics x)"
  using assms(1)
proof (induction "(c', cs')" arbitrary: c' cs' rule: rtranclp_induct)
  case base
  then show ?case using assms(2,4) by simp
next
  case (step u)
  obtain d ds where u: "u = (d, ds)" by fastforce
  have IH: "metered X d" "gauge_total ds - gauge_total cs = int (card (running X d)) - int (card (running X c))"
    "\<forall>x\<in>set ds. \<not> metric_panics x" using step.hyps(3)[OF u] by simp_all
  show ?case using metered_step_gauge[OF step.hyps(2)[unfolded u] IH(1) assms(3)] IH(2,3) by auto
qed

lemma start_metered: "fleet_start c \<Longrightarrow> metered X c"
proof -
  assume c: "fleet_start c"
  then have "f_requests c = (\<lambda>_. None)" unfolding fleet_start_def initial_def by (metis view_sel(1))
  then show ?thesis
    using fleet_start_ok[OF c] by (simp add: metered_def bookable_def running_def counts_def)
qed

end

section \<open>Property\<close>


end
