(* ===== verification/Go_Heap.thy ===== *)
theory Go_Heap
  imports Main "HOL-Library.Sublist" "HOL-Library.State_Monad"
begin

text \<open>
  Go's memory, as far as copying objects needs it. A heap is the list of its cells in the
  order they were allocated, an address the position of a cell; a program that works on the
  heap is a value of the state monad. What a deep copy promises is an interface, \<open>deep_copy\<close>,
  and the ways in which Go composes copies (nil checks, pointers to structs, slices of
  structs, the fields of a struct) are combinators that preserve it.
\<close>

section \<open>Programs on a heap\<close>

type_synonym addr = nat

type_synonym ('c, 'a) prog = "('c list, 'a) state"

definition alloc :: "'c \<Rightarrow> ('c, addr) prog" where
  "alloc c = State (\<lambda>h. (length h, h @ [c]))"

definition load :: "addr \<Rightarrow> ('c, 'c) prog" where
  "load a = State (\<lambda>h. (h ! a, h))"

definition store :: "addr \<Rightarrow> 'c \<Rightarrow> ('c, unit) prog" where
  "store a c = State (\<lambda>h. ((), h[a := c]))"

lemma run_heap [simp]:
  "run_state (alloc c) h = (length h, h @ [c])"
  "run_state (load a) h = (h ! a, h)"
  "run_state (store a c) h = ((), h[a := c])"
  by (simp_all add: alloc_def load_def store_def)

lemma prefix_nth: "prefix h h' \<Longrightarrow> a < length h \<Longrightarrow> h' ! a = h ! a"
  by (auto simp: prefix_def nth_append)

lemma prefixI_nth: "length h \<le> length h' \<Longrightarrow> (\<And>a. a < length h \<Longrightarrow> h' ! a = h ! a) \<Longrightarrow> prefix h h'"
proof -
  assume "length h \<le> length h'" "\<And>a. a < length h \<Longrightarrow> h' ! a = h ! a"
  then have "take (length h) h' = h" by (intro nth_equalityI) simp_all
  then show "prefix h h'" by (metis append_take_drop_id prefix_def)
qed

section \<open>What a deep copy promises\<close>

text \<open>
  A value \<open>r\<close> may hold addresses. \<open>valid h r\<close> says they point at cells of the right type,
  \<open>abs h r\<close> is the value they stand for and \<open>foot h r\<close> the cells it is made of. A deep copy
  keeps all existing cells and yields a value of the same meaning made of new cells only.
\<close>

locale deep_copy =
  fixes valid :: "'c list \<Rightarrow> 'r \<Rightarrow> bool" and abs :: "'c list \<Rightarrow> 'r \<Rightarrow> 'v"
    and foot :: "'c list \<Rightarrow> 'r \<Rightarrow> addr set" and copy :: "'r \<Rightarrow> ('c, 'r) prog"
  assumes frame: "valid h r \<Longrightarrow> length h \<le> length h' \<Longrightarrow> (\<And>a. a \<in> foot h r \<Longrightarrow> h' ! a = h ! a) \<Longrightarrow>
      valid h' r \<and> abs h' r = abs h r \<and> foot h' r = foot h r"
    and allocated: "valid h r \<Longrightarrow> a \<in> foot h r \<Longrightarrow> a < length h"
    and copied: "valid h r \<Longrightarrow> run_state (copy r) h = (r', h') \<Longrightarrow>
      prefix h h' \<and> valid h' r' \<and> abs h' r' = abs h r \<and> foot h' r' \<subseteq> {length h..<length h'}"
begin

lemma extended:
  "valid h r \<Longrightarrow> prefix h h' \<Longrightarrow> valid h' r \<and> abs h' r = abs h r \<and> foot h' r = foot h r"
  by (intro frame) (auto dest: allocated prefix_length_le prefix_nth)

lemma original_isolated:
  assumes "valid h r" and "run_state (copy r) h = (r', h')"
    and "length h' \<le> length h''" and "\<And>a. a < length h \<Longrightarrow> h'' ! a = h' ! a"
  shows "valid h'' r" and "abs h'' r = abs h r"
proof -
  have p: "prefix h h'" using copied[OF assms(1,2)] by simp
  have "valid h'' r \<and> abs h'' r = abs h r \<and> foot h'' r = foot h r"
    using assms(3,4) prefix_length_le[OF p] prefix_nth[OF p] allocated[OF assms(1)]
    by (intro frame[OF assms(1)]) simp_all
  then show "valid h'' r" and "abs h'' r = abs h r" by simp_all
qed

lemma copy_isolated:
  assumes "valid h r" and "run_state (copy r) h = (r', h')"
    and "length h' \<le> length h''" and "\<And>a. length h \<le> a \<Longrightarrow> a < length h' \<Longrightarrow> h'' ! a = h' ! a"
  shows "valid h'' r'" and "abs h'' r' = abs h r"
proof -
  note c = copied[OF assms(1,2)]
  have "valid h'' r' \<and> abs h'' r' = abs h' r' \<and> foot h'' r' = foot h' r'"
    using assms(3,4) c by (intro frame) auto
  then show "valid h'' r'" and "abs h'' r' = abs h r" using c by simp_all
qed

lemma footprints_disjoint:
  "valid h r \<Longrightarrow> run_state (copy r) h = (r', h') \<Longrightarrow> foot h' r \<inter> foot h' r' = {}"
  using copied[of h r r' h'] extended[of h r h'] by (fastforce dest: allocated)

end

section \<open>Combinators\<close>

text \<open>Values without addresses.\<close>

lemma deep_copy_value: "deep_copy (\<lambda>_ _. True) (\<lambda>_ v. v) (\<lambda>_ _. {}) State_Monad.return"
  by unfold_locales auto

text \<open>The value seen through a function.\<close>

lemma deep_copy_view: "deep_copy V A F C \<Longrightarrow> deep_copy V (\<lambda>h r. \<phi> (A h r)) F C"
  unfolding deep_copy_def by metis

text \<open>\<open>if in.F != nil { ... }\<close>\<close>

definition valid_opt :: "('c list \<Rightarrow> 'r \<Rightarrow> bool) \<Rightarrow> 'c list \<Rightarrow> 'r option \<Rightarrow> bool" where
  "valid_opt V h r = (case r of None \<Rightarrow> True | Some x \<Rightarrow> V h x)"

definition foot_opt :: "('c list \<Rightarrow> 'r \<Rightarrow> addr set) \<Rightarrow> 'c list \<Rightarrow> 'r option \<Rightarrow> addr set" where
  "foot_opt F h r = (case r of None \<Rightarrow> {} | Some x \<Rightarrow> F h x)"

definition copy_opt :: "('r \<Rightarrow> ('c, 'r) prog) \<Rightarrow> 'r option \<Rightarrow> ('c, 'r option) prog" where
  "copy_opt C r = (case r of
       None \<Rightarrow> State_Monad.return None
     | Some x \<Rightarrow> do { y \<leftarrow> C x; State_Monad.return (Some y) })"

lemmas opt_defs = valid_opt_def foot_opt_def copy_opt_def

lemma deep_copy_opt:
  assumes "deep_copy V A F C"
  shows "deep_copy (valid_opt V) (\<lambda>h. map_option (A h)) (foot_opt F) (copy_opt C)"
proof
  note d = deep_copy.frame[OF assms] deep_copy.allocated[OF assms] deep_copy.copied[OF assms]
  show "valid_opt V h' r \<and> map_option (A h') r = map_option (A h) r \<and> foot_opt F h' r = foot_opt F h r"
    if "valid_opt V h r" "length h \<le> length h'" "\<And>a. a \<in> foot_opt F h r \<Longrightarrow> h' ! a = h ! a" for h h' r
    using that d(1)[of h _ h'] by (cases r) (simp_all add: opt_defs)
  show "a < length h" if "valid_opt V h r" "a \<in> foot_opt F h r" for h r a
    using that d(2) by (cases r) (simp_all add: opt_defs)
  show "prefix h h' \<and> valid_opt V h' r' \<and> map_option (A h') r' = map_option (A h) r \<and>
      foot_opt F h' r' \<subseteq> {length h..<length h'}"
    if "valid_opt V h r" "run_state (copy_opt C r) h = (r', h')" for h r r' h'
    using that d(3)[of h "the r" "the r'" h'] by (cases r) (auto simp: opt_defs subset_iff split: prod.splits)
qed

text \<open>The fields of a struct, copied one after the other.\<close>

definition copy_pair :: "('r \<Rightarrow> ('c, 'r) prog) \<Rightarrow> ('s \<Rightarrow> ('c, 's) prog) \<Rightarrow> 'r \<times> 's \<Rightarrow> ('c, 'r \<times> 's) prog" where
  "copy_pair C D p = do { x \<leftarrow> C (fst p); y \<leftarrow> D (snd p); State_Monad.return (x, y) }"

lemma deep_copy_pair:
  assumes C: "deep_copy V A F C" and D: "deep_copy W B G D"
  shows "deep_copy (\<lambda>h p. V h (fst p) \<and> W h (snd p)) (\<lambda>h p. (A h (fst p), B h (snd p)))
    (\<lambda>h p. F h (fst p) \<union> G h (snd p)) (copy_pair C D)"
proof
  show "(V h' (fst p) \<and> W h' (snd p)) \<and> (A h' (fst p), B h' (snd p)) = (A h (fst p), B h (snd p)) \<and>
      F h' (fst p) \<union> G h' (snd p) = F h (fst p) \<union> G h (snd p)"
    if "V h (fst p) \<and> W h (snd p)" "length h \<le> length h'"
      "\<And>a. a \<in> F h (fst p) \<union> G h (snd p) \<Longrightarrow> h' ! a = h ! a" for h h' p
    using that deep_copy.frame[OF C, of h "fst p" h'] deep_copy.frame[OF D, of h "snd p" h'] by simp
  show "a < length h" if "V h (fst p) \<and> W h (snd p)" "a \<in> F h (fst p) \<union> G h (snd p)" for h p a
    using that deep_copy.allocated[OF C] deep_copy.allocated[OF D] by blast
  show "prefix h h' \<and> (V h' (fst p') \<and> W h' (snd p')) \<and>
      (A h' (fst p'), B h' (snd p')) = (A h (fst p), B h (snd p)) \<and>
      F h' (fst p') \<union> G h' (snd p') \<subseteq> {length h..<length h'}"
    if v: "V h (fst p) \<and> W h (snd p)" and run: "run_state (copy_pair C D p) h = (p', h')" for h p p' h'
  proof -
    obtain x h1 where x: "run_state (C (fst p)) h = (x, h1)" by fastforce
    obtain y where y: "run_state (D (snd p)) h1 = (y, h')" and p': "p' = (x, y)"
      using run x by (auto simp: copy_pair_def split: prod.splits)
    note cx = deep_copy.copied[OF C conjunct1[OF v] x]
    note ey = deep_copy.extended[OF D conjunct2[OF v] conjunct1[OF cx]]
    note cy = deep_copy.copied[OF D conjunct1[OF ey] y]
    note ex = deep_copy.extended[OF C _ conjunct1[OF cy], of x]
    have "length h \<le> length h1" "length h1 \<le> length h'" using cx cy by (auto dest: prefix_length_le)
    then show ?thesis using cx cy ex ey p' by (auto intro: prefix_order.trans)
  qed
qed

text \<open>A struct whose reference fields are \<open>get r\<close>; the others are copied by \<open>*out = *in\<close>.\<close>

lemma deep_copy_struct:
  assumes C: "deep_copy V A F C"
    and run: "\<And>r. into r = do { x \<leftarrow> C (get r); State_Monad.return (put x r) }"
    and get: "\<And>x r. get (put x r) = x" and view: "\<And>x r v. view (put x r) v = view r v"
    and eqs: "\<And>h r. valid h r = V h (get r)" "\<And>h r. val h r = view r (A h (get r))" "\<And>h r. foot h r = F h (get r)"
  shows "deep_copy valid val foot into"
proof
  show "valid h' r \<and> val h' r = val h r \<and> foot h' r = foot h r"
    if "valid h r" "length h \<le> length h'" "\<And>a. a \<in> foot h r \<Longrightarrow> h' ! a = h ! a" for h h' r
    using deep_copy.frame[OF C that[unfolded eqs]] by (simp add: eqs)
  show "a < length h" if "valid h r" "a \<in> foot h r" for h r a
    using deep_copy.allocated[OF C that[unfolded eqs]] .
  show "prefix h h' \<and> valid h' r' \<and> val h' r' = val h r \<and> foot h' r' \<subseteq> {length h..<length h'}"
    if v: "valid h r" and r: "run_state (into r) h = (r', h')" for h r r' h'
  proof -
    obtain x where "run_state (C (get r)) h = (x, h')" "r' = put x r"
      using r by (auto simp: run split: prod.splits)
    with deep_copy.copied[OF C v[unfolded eqs]] show ?thesis by (simp add: eqs get view)
  qed
qed

text \<open>
  A pointer to a cell that holds no addresses: a map of strings, a slice of plain structs, a
  time. \<open>is\<close> recognises the cells of the type.
\<close>

definition valid_leaf :: "('c \<Rightarrow> bool) \<Rightarrow> 'c list \<Rightarrow> addr \<Rightarrow> bool" where
  "valid_leaf is h a \<longleftrightarrow> a < length h \<and> is (h ! a)"

definition foot_leaf :: "'c list \<Rightarrow> addr \<Rightarrow> addr set" where
  "foot_leaf h a = {a}"

lemma deep_copy_leaf:
  assumes "\<And>h a. valid_leaf is h a \<Longrightarrow> run_state (C a) h = (length h, h @ [h ! a])"
  shows "deep_copy (valid_leaf is) (\<lambda>h a. un (h ! a)) foot_leaf C"
  by unfold_locales (auto simp: assms valid_leaf_def[of "is"] foot_leaf_def nth_append)

text \<open>\<open>*out = make([]T, len( *in)); copy( *out, *in)\<close>\<close>

definition go_copy :: "'a list \<Rightarrow> 'a list \<Rightarrow> 'a list" where
  "go_copy dst src = take (length dst) src @ drop (length src) dst"

definition make_copy :: "('a list \<Rightarrow> 'c) \<Rightarrow> ('c \<Rightarrow> 'a list) \<Rightarrow> 'a \<Rightarrow> addr \<Rightarrow> ('c, addr) prog" where
  "make_copy K un zero a = do {
     src \<leftarrow> load a;
     out \<leftarrow> alloc (K (replicate (length (un src)) zero));
     dst \<leftarrow> load out;
     store out (K (go_copy (un dst) (un src)));
     State_Monad.return out
   }"

lemma deep_copy_make_copy:
  assumes "\<And>xs. un (K xs) = xs" and "\<And>c. is c \<Longrightarrow> K (un c) = c"
  shows "deep_copy (valid_leaf is) (\<lambda>h a. un (h ! a)) foot_leaf (make_copy K un zero)"
  by (rule deep_copy_leaf)
    (simp add: make_copy_def valid_leaf_def go_copy_def nth_append assms list_update_append)

text \<open>\<open>*out = make(map, len( *in)); for key, val := range *in { ( *out)[key] = val }\<close>\<close>

primrec put_all :: "('m \<Rightarrow> 'c) \<Rightarrow> ('c \<Rightarrow> 'm) \<Rightarrow> ('e \<Rightarrow> 'm \<Rightarrow> 'm) \<Rightarrow> addr \<Rightarrow> 'e list \<Rightarrow> ('c, unit) prog" where
  "put_all K un upd out [] = State_Monad.return ()"
| "put_all K un upd out (e # es) = do {
     m \<leftarrow> load out;
     store out (K (upd e (un m)));
     put_all K un upd out es
   }"

lemma run_put_all:
  assumes "\<And>m. un (K m) = m"
  shows "run_state (put_all K un upd (length h) es) (h @ [K m]) = ((), h @ [K (fold upd es m)])"
  by (induction es arbitrary: m) (simp_all add: assms)

definition make_range :: "('m \<Rightarrow> 'c) \<Rightarrow> ('c \<Rightarrow> 'm) \<Rightarrow> ('e \<Rightarrow> 'm \<Rightarrow> 'm) \<Rightarrow> 'm \<Rightarrow> ('m \<Rightarrow> 'e list) \<Rightarrow>
    addr \<Rightarrow> ('c, addr) prog" where
  "make_range K un upd zero order a = do {
     src \<leftarrow> load a;
     out \<leftarrow> alloc (K zero);
     put_all K un upd out (order (un src));
     State_Monad.return out
   }"

lemma deep_copy_make_range:
  assumes "\<And>m. un (K m) = m" and "\<And>c. is c \<Longrightarrow> K (un c) = c" and "\<And>m. fold upd (order m) zero = m"
  shows "deep_copy (valid_leaf is) (\<lambda>h a. un (h ! a)) foot_leaf (make_range K un upd zero order)"
  by (rule deep_copy_leaf) (simp add: make_range_def run_put_all assms valid_leaf_def)

text \<open>\<open>out := new(T); in.DeepCopyInto(out)\<close>\<close>

definition valid_ptr :: "('c \<Rightarrow> bool) \<Rightarrow> ('c \<Rightarrow> 'r) \<Rightarrow> ('c list \<Rightarrow> 'r \<Rightarrow> bool) \<Rightarrow> 'c list \<Rightarrow> addr \<Rightarrow> bool" where
  "valid_ptr is un V h a \<longleftrightarrow> a < length h \<and> is (h ! a) \<and> V h (un (h ! a))"

definition foot_ptr :: "('c \<Rightarrow> 'r) \<Rightarrow> ('c list \<Rightarrow> 'r \<Rightarrow> addr set) \<Rightarrow> 'c list \<Rightarrow> addr \<Rightarrow> addr set" where
  "foot_ptr un F h a = insert a (F h (un (h ! a)))"

definition new_copy :: "('r \<Rightarrow> 'c) \<Rightarrow> ('c \<Rightarrow> 'r) \<Rightarrow> 'r \<Rightarrow> ('r \<Rightarrow> ('c, 'r) prog) \<Rightarrow> addr \<Rightarrow> ('c, addr) prog" where
  "new_copy K un zero into a = do {
     out \<leftarrow> alloc (K zero);
     src \<leftarrow> load a;
     val \<leftarrow> into (un src);
     store out (K val);
     State_Monad.return out
   }"

lemma deep_copy_ptr:
  assumes into: "deep_copy V A F into" and K: "\<And>v. un (K v) = v" "\<And>v. is (K v)"
  shows "deep_copy (valid_ptr is un V) (\<lambda>h a. A h (un (h ! a))) (foot_ptr un F) (new_copy K un zero into)"
proof
  show "valid_ptr is un V h' a \<and> A h' (un (h' ! a)) = A h (un (h ! a)) \<and> foot_ptr un F h' a = foot_ptr un F h a"
    if "valid_ptr is un V h a" "length h \<le> length h'" "\<And>b. b \<in> foot_ptr un F h a \<Longrightarrow> h' ! b = h ! b" for h h' a
    using that deep_copy.frame[OF into, of h "un (h ! a)" h'] by (simp add: valid_ptr_def foot_ptr_def)
  show "b < length h" if "valid_ptr is un V h a" "b \<in> foot_ptr un F h a" for h a b
    using that deep_copy.allocated[OF into, of h "un (h ! a)" b] by (auto simp: valid_ptr_def foot_ptr_def)
  show "prefix h h' \<and> valid_ptr is un V h' a' \<and> A h' (un (h' ! a')) = A h (un (h ! a)) \<and>
      foot_ptr un F h' a' \<subseteq> {length h..<length h'}"
    if v: "valid_ptr is un V h a" and run: "run_state (new_copy K un zero into a) h = (a', h')" for h a a' h'
  proof -
    let ?r = "un (h ! a)" and ?h1 = "h @ [K zero]"
    have a: "a < length h" "V h ?r" using v by (simp_all add: valid_ptr_def)
    note e1 = deep_copy.extended[OF into a(2), of ?h1]
    obtain val h2 where r: "run_state (into ?r) ?h1 = (val, h2)" by fastforce
    have V1: "V ?h1 ?r" "A ?h1 ?r = A h ?r" using e1 by simp_all
    note c = deep_copy.copied[OF into V1(1) r]
    have out: "a' = length h" "h' = h2[length h := K val]"
      using run r a(1) by (auto simp: new_copy_def nth_append)
    have l: "length ?h1 \<le> length h2" using c prefix_length_le by blast
    have at: "h' ! a' = K val" using out l by simp
    have f: "V h' val \<and> A h' val = A h2 val \<and> F h' val = F h2 val"
      using c out by (intro deep_copy.frame[OF into]) (auto simp: nth_list_update)
    have "prefix h h'"
    proof (rule prefixI_nth)
      show "length h \<le> length h'" using out l by simp
      show "h' ! b = h ! b" if "b < length h" for b
        using that out prefix_nth[OF conjunct1[OF c], of b] by (simp add: nth_append)
    qed
    then show ?thesis using c f at out l V1(2) K by (auto simp: valid_ptr_def foot_ptr_def)
  qed
qed

text \<open>\<open>*out = make([]T, len( *in)); for i := range *in { ( *in)[i].DeepCopyInto(&( *out)[i]) }\<close>\<close>

definition valid_items :: "('c \<Rightarrow> bool) \<Rightarrow> ('c \<Rightarrow> 'r list) \<Rightarrow> ('c list \<Rightarrow> 'r \<Rightarrow> bool) \<Rightarrow> 'c list \<Rightarrow> addr \<Rightarrow> bool" where
  "valid_items is un V h a \<longleftrightarrow> a < length h \<and> is (h ! a) \<and> list_all (V h) (un (h ! a))"

definition foot_items :: "('c \<Rightarrow> 'r list) \<Rightarrow> ('c list \<Rightarrow> 'r \<Rightarrow> addr set) \<Rightarrow> 'c list \<Rightarrow> addr \<Rightarrow> addr set" where
  "foot_items un F h a = insert a (\<Union>x\<in>set (un (h ! a)). F h x)"

primrec copy_items :: "('r list \<Rightarrow> 'c) \<Rightarrow> ('r \<Rightarrow> ('c, 'r) prog) \<Rightarrow> addr \<Rightarrow> nat \<Rightarrow> 'r list \<Rightarrow> 'r list \<Rightarrow> ('c, unit) prog"
  where
  "copy_items K into out i ys [] = State_Monad.return ()"
| "copy_items K into out i ys (x # xs) = do {
     y \<leftarrow> into x;
     store out (K (ys[i := y]));
     copy_items K into out (Suc i) (ys[i := y]) xs
   }"

definition make_items :: "('r list \<Rightarrow> 'c) \<Rightarrow> ('c \<Rightarrow> 'r list) \<Rightarrow> 'r \<Rightarrow> ('r \<Rightarrow> ('c, 'r) prog) \<Rightarrow> addr \<Rightarrow> ('c, addr) prog"
  where
  "make_items K un zero into a = do {
     src \<leftarrow> load a;
     let ys = replicate (length (un src)) zero;
     out \<leftarrow> alloc (K ys);
     copy_items K into out 0 ys (un src);
     State_Monad.return out
   }"

text \<open>Copying one element and storing it leaves the other elements and the rest of the heap as they are.\<close>

lemma copy_item_frame:
  assumes into: "deep_copy V A F into" and x: "V h x" and out: "out < length h"
    and y: "run_state (into x) h = (y, h1)" and h2: "h2 = h1[out := v]"
  shows "length h \<le> length h2" and "a < length h \<Longrightarrow> a \<noteq> out \<Longrightarrow> h2 ! a = h ! a" and "h2 ! out = v"
    and "V h2 y \<and> A h2 y = A h x \<and> F h2 y \<subseteq> {length h..<length h2}"
    and "V h z \<Longrightarrow> out \<notin> F h z \<Longrightarrow> V h2 z \<and> A h2 z = A h z \<and> F h2 z = F h z"
proof -
  note c = deep_copy.copied[OF into x y]
  show l: "length h \<le> length h2" using c prefix_length_le h2 by auto
  show same: "h2 ! a = h ! a" if "a < length h" "a \<noteq> out" for a
    using that prefix_nth[OF conjunct1[OF c], of a] h2 by simp
  show "h2 ! out = v" using out l h2 by simp
  have "V h2 y \<and> A h2 y = A h1 y \<and> F h2 y = F h1 y"
    using c out h2 by (intro deep_copy.frame[OF into]) (auto simp: nth_list_update)
  then show "V h2 y \<and> A h2 y = A h x \<and> F h2 y \<subseteq> {length h..<length h2}" using c h2 by auto
  assume z: "V h z" "out \<notin> F h z"
  show "V h2 z \<and> A h2 z = A h z \<and> F h2 z = F h z"
  proof (rule deep_copy.frame[OF into z(1) l])
    fix a assume "a \<in> F h z"
    then show "h2 ! a = h ! a" using z deep_copy.allocated[OF into, of h z a] by (intro same) auto
  qed
qed

lemma copy_items_ok:
  assumes into: "deep_copy V A F into"
    and "\<forall>x\<in>set xs. V h x \<and> out \<notin> F h x" and "out < length h" and "h ! out = K (dn @ replicate (length xs) zero)"
    and "run_state (copy_items K into out (length dn) (dn @ replicate (length xs) zero) xs) h = (u, h')"
  shows "\<exists>new. h' ! out = K (dn @ new) \<and> length h \<le> length h' \<and>
    (\<forall>a<length h. a \<noteq> out \<longrightarrow> h' ! a = h ! a) \<and>
    (\<forall>y\<in>set new. V h' y \<and> F h' y \<subseteq> {length h..<length h'}) \<and> map (A h') new = map (A h) xs"
  using assms(2-)
proof (induction xs arbitrary: h dn)
  case Nil
  then show ?case by (intro exI[of _ "[]"]) simp
next
  case (Cons x xs)
  obtain y h1 where y: "run_state (into x) h = (y, h1)" by fastforce
  let ?dn = "dn @ [y]" and ?ys = "(dn @ [y]) @ replicate (length xs) zero"
  let ?h2 = "h1[out := K ?ys]"
  have x: "V h x" using Cons.prems(1) by simp
  note fr = copy_item_frame[OF into x Cons.prems(2) y refl, where v = "K ?ys"]
  have "run_state (copy_items K into out (length ?dn) ?ys xs) ?h2 = (u, h')"
    using Cons.prems(4) y by (simp add: list_update_append)
  moreover have "\<forall>z\<in>set xs. V ?h2 z \<and> out \<notin> F ?h2 z" using fr(5) Cons.prems(1) by simp
  moreover have "out < length ?h2" using Cons.prems(2) fr(1) by simp
  ultimately obtain new where new: "h' ! out = K (?dn @ new)" "length ?h2 \<le> length h'"
    "\<forall>a<length ?h2. a \<noteq> out \<longrightarrow> h' ! a = ?h2 ! a"
    "\<forall>z\<in>set new. V h' z \<and> F h' z \<subseteq> {length ?h2..<length h'}" "map (A h') new = map (A ?h2) xs"
    using Cons.IH fr(3) by blast
  have V': "V h' y \<and> A h' y = A ?h2 y \<and> F h' y = F ?h2 y"
  proof (rule deep_copy.frame[OF into _ new(2)])
    fix a assume "a \<in> F ?h2 y"
    then have "a \<in> {length h..<length ?h2}" using fr(4) by blast
    then show "h' ! a = ?h2 ! a" using new(3) Cons.prems(2) by auto
  qed (use fr(4) in blast)
  have "\<forall>a<length h. a \<noteq> out \<longrightarrow> h' ! a = h ! a" using new(3) fr(1,2) by auto
  moreover have "F h' z \<subseteq> {length h..<length h'}" if "z \<in> set new" for z using new(4) that fr(1) by fastforce
  moreover have "F h' y \<subseteq> {length h..<length h'}" using V' fr(4) new(2) by fastforce
  moreover have "map (A h') (y # new) = map (A h) (x # xs)" using new(5) fr(4,5) V' Cons.prems(1) by simp
  ultimately show ?case using new(1,2,4) fr(1) V' fr(4) by (intro exI[of _ "y # new"]) auto
qed

lemma deep_copy_items:
  assumes into: "deep_copy V A F into" and K: "\<And>v. un (K v) = v" "\<And>v. is (K v)"
  shows "deep_copy (valid_items is un V) (\<lambda>h a. map (A h) (un (h ! a))) (foot_items un F) (make_items K un zero into)"
proof
  show "valid_items is un V h' a \<and> map (A h') (un (h' ! a)) = map (A h) (un (h ! a)) \<and>
      foot_items un F h' a = foot_items un F h a"
    if v: "valid_items is un V h a" "length h \<le> length h'" "\<And>b. b \<in> foot_items un F h a \<Longrightarrow> h' ! b = h ! b"
    for h h' a
  proof -
    have "V h' x \<and> A h' x = A h x \<and> F h' x = F h x" if "x \<in> set (un (h ! a))" for x
      using that v by (intro deep_copy.frame[OF into]) (auto simp: valid_items_def foot_items_def list_all_iff)
    then show ?thesis using v by (auto simp: valid_items_def foot_items_def list_all_iff)
  qed
  show "b < length h" if "valid_items is un V h a" "b \<in> foot_items un F h a" for h a b
    using that deep_copy.allocated[OF into] by (auto simp: valid_items_def foot_items_def list_all_iff)
  show "prefix h h' \<and> valid_items is un V h' a' \<and> map (A h') (un (h' ! a')) = map (A h) (un (h ! a)) \<and>
      foot_items un F h' a' \<subseteq> {length h..<length h'}"
    if v: "valid_items is un V h a" and run: "run_state (make_items K un zero into a) h = (a', h')" for h a a' h'
  proof -
    let ?xs = "un (h ! a)" and ?ys = "replicate (length (un (h ! a))) zero"
    let ?h1 = "h @ [K ?ys]"
    have e: "V ?h1 x \<and> A ?h1 x = A h x \<and> F ?h1 x = F h x" if "x \<in> set ?xs" for x
      using that v by (intro deep_copy.extended[OF into]) (auto simp: valid_items_def list_all_iff)
    have "\<forall>x\<in>set ?xs. V ?h1 x \<and> length h \<notin> F ?h1 x"
      using e v deep_copy.allocated[OF into] by (fastforce simp: valid_items_def list_all_iff)
    moreover have a': "a' = length h" "run_state (copy_items K into (length h) 0 ?ys ?xs) ?h1 = ((), h')"
      using run by (auto simp: make_items_def Let_def split: prod.splits)
    ultimately obtain new where new: "h' ! length h = K new" "length ?h1 \<le> length h'"
      "\<forall>b<length ?h1. b \<noteq> length h \<longrightarrow> h' ! b = ?h1 ! b"
      "\<forall>y\<in>set new. V h' y \<and> F h' y \<subseteq> {length ?h1..<length h'}" "map (A h') new = map (A ?h1) ?xs"
      using copy_items_ok[OF into, of ?xs ?h1 "length h" K "[]" zero "()" h'] by auto
    have "prefix h h'" using new(2,3) by (intro prefixI_nth) (auto simp: nth_append)
    moreover have "map (A h') new = map (A h) ?xs" using new(5) e by simp
    moreover have "\<Union> (F h' ` set new) \<subseteq> {length h..<length h'}" using new(4) by fastforce
    ultimately show ?thesis
      using a' new(1,2,4) K by (simp add: valid_items_def foot_items_def list_all_iff)
  qed
qed

end
