(* ===== verification/Heap_Objects.thy ===== *)
theory Heap_Objects
  imports Go_Heap Internal_Request Internal_Services_Config
begin

text \<open>
  The program's objects in memory. A struct that holds pointers, maps or slices has a record
  with the addresses in their place, \<open>None\<close> for nil; \<open>cell\<close> has one constructor per type an
  address of the program can point at. The value an object in memory stands for is an object of
  the other theories.
\<close>

section \<open>Structs with addresses\<close>

record mem_ObjectMeta =
  mo_Name :: string
  mo_GenerateName :: string
  mo_Namespace :: string
  mo_Labels :: "addr option"
  mo_Annotations :: "addr option"
  mo_Finalizers :: "addr option"
  mo_Generation :: int
  mo_CreationTimestamp :: time
  mo_DeletionTimestamp :: "addr option"

record mem_ListMeta =
  ml_ResourceVersion :: string
  ml_Continue :: string
  ml_RemainingItemCount :: "addr option"

record mem_TimeoutFields =
  mt_Pipeline :: "addr option"
  mt_Tasks :: "addr option"
  mt_Finally :: "addr option"

record mem_PipelineRef =
  mr_Resolver :: string
  mr_Params :: "addr option"

record mem_Pipeline =
  mp_PipelineRef :: mem_PipelineRef
  mp_ServiceAccountName :: string
  mp_Timeouts :: mem_TimeoutFields

record mem_ParameterizedPipeline =
  mpp_Pipeline :: mem_Pipeline
  mpp_Params :: "addr option"

record mem_InternalRequestSpec =
  ms_Pipeline :: "addr option"
  ms_Params :: "addr option"
  ms_Timeouts :: mem_TimeoutFields
  ms_ServiceAccount :: string

record mem_InternalRequestStatus =
  mst_StartTime :: "addr option"
  mst_CompletionTime :: "addr option"
  mst_PipelineRun :: string
  mst_Conditions :: "addr option"
  mst_Results :: "addr option"

record mem_InternalRequest =
  mi_TypeMeta :: TypeMeta
  mi_ObjectMeta :: mem_ObjectMeta
  mi_Spec :: mem_InternalRequestSpec
  mi_Status :: mem_InternalRequestStatus

record mem_InternalRequestList =
  mil_TypeMeta :: TypeMeta
  mil_ListMeta :: mem_ListMeta
  mil_Items :: "addr option"

record mem_InternalServicesConfigSpec =
  mc_AllowList :: "addr option"
  mc_AllowedGitResolverURLs :: "addr option"
  mc_AllowedServiceAccounts :: "addr option"
  mc_Debug :: bool
  mc_VolumeClaim :: VolumeClaim

text \<open>\<open>InternalServicesConfigStatus\<close> is the empty struct.\<close>

record mem_InternalServicesConfig =
  mg_TypeMeta :: TypeMeta
  mg_ObjectMeta :: mem_ObjectMeta
  mg_Spec :: mem_InternalServicesConfigSpec
  mg_Status :: unit

record mem_InternalServicesConfigList =
  mgl_TypeMeta :: TypeMeta
  mgl_ListMeta :: mem_ListMeta
  mgl_Items :: "addr option"

section \<open>Cells\<close>

datatype cell =
    MapCell (the_map: smap)
  | StringsCell (the_strings: "string list")
  | ParamsCell (the_params: "Param list")
  | TimeCell (the_time: time)
  | DurationCell (the_duration: int)
  | Int64Cell (the_int64: int)
  | ConditionsCell (the_conditions: "Condition list")
  | PipelineRefCell (the_pipelineRef: mem_PipelineRef)
  | PipelineCell (the_pipeline: mem_Pipeline)
  | ParameterizedPipelineCell (the_parameterized: mem_ParameterizedPipeline)
  | SpecCell (the_spec: mem_InternalRequestSpec)
  | StatusCell (the_status: mem_InternalRequestStatus)
  | RequestCell (the_request: mem_InternalRequest)
  | RequestsCell (the_requests: "mem_InternalRequest list")
  | RequestListCell (the_requestList: mem_InternalRequestList)
  | VolumeClaimCell (the_volumeClaim: VolumeClaim)
  | ConfigSpecCell (the_configSpec: mem_InternalServicesConfigSpec)
  | ConfigStatusCell (the_configStatus: unit)
  | ConfigCell (the_config: mem_InternalServicesConfig)
  | ConfigsCell (the_configs: "mem_InternalServicesConfig list")
  | ConfigListCell (the_configList: mem_InternalServicesConfigList)

section \<open>Zero values\<close>

definition mem_zero_ObjectMeta :: mem_ObjectMeta where
  "mem_zero_ObjectMeta =
     \<lparr>mo_Name = [], mo_GenerateName = [], mo_Namespace = [], mo_Labels = None, mo_Annotations = None,
      mo_Finalizers = None, mo_Generation = 0, mo_CreationTimestamp = 0, mo_DeletionTimestamp = None\<rparr>"

definition mem_zero_ListMeta :: mem_ListMeta where
  "mem_zero_ListMeta = \<lparr>ml_ResourceVersion = [], ml_Continue = [], ml_RemainingItemCount = None\<rparr>"

definition mem_zero_TimeoutFields :: mem_TimeoutFields where
  "mem_zero_TimeoutFields = \<lparr>mt_Pipeline = None, mt_Tasks = None, mt_Finally = None\<rparr>"

definition mem_zero_PipelineRef :: mem_PipelineRef where
  "mem_zero_PipelineRef = \<lparr>mr_Resolver = [], mr_Params = None\<rparr>"

definition mem_zero_Pipeline :: mem_Pipeline where
  "mem_zero_Pipeline = \<lparr>mp_PipelineRef = mem_zero_PipelineRef, mp_ServiceAccountName = [],
     mp_Timeouts = mem_zero_TimeoutFields\<rparr>"

definition mem_zero_ParameterizedPipeline :: mem_ParameterizedPipeline where
  "mem_zero_ParameterizedPipeline = \<lparr>mpp_Pipeline = mem_zero_Pipeline, mpp_Params = None\<rparr>"

definition mem_zero_InternalRequestSpec :: mem_InternalRequestSpec where
  "mem_zero_InternalRequestSpec =
     \<lparr>ms_Pipeline = None, ms_Params = None, ms_Timeouts = mem_zero_TimeoutFields, ms_ServiceAccount = []\<rparr>"

definition mem_zero_InternalRequestStatus :: mem_InternalRequestStatus where
  "mem_zero_InternalRequestStatus =
     \<lparr>mst_StartTime = None, mst_CompletionTime = None, mst_PipelineRun = [], mst_Conditions = None,
      mst_Results = None\<rparr>"

definition mem_zero_InternalRequest :: mem_InternalRequest where
  "mem_zero_InternalRequest =
     \<lparr>mi_TypeMeta = \<lparr>tm_Kind = [], tm_APIVersion = []\<rparr>, mi_ObjectMeta = mem_zero_ObjectMeta,
      mi_Spec = mem_zero_InternalRequestSpec, mi_Status = mem_zero_InternalRequestStatus\<rparr>"

definition mem_zero_InternalRequestList :: mem_InternalRequestList where
  "mem_zero_InternalRequestList =
     \<lparr>mil_TypeMeta = \<lparr>tm_Kind = [], tm_APIVersion = []\<rparr>, mil_ListMeta = mem_zero_ListMeta, mil_Items = None\<rparr>"

definition zero_VolumeClaim :: VolumeClaim where
  "zero_VolumeClaim = \<lparr>vc_Name = [], vc_Size = []\<rparr>"

definition mem_zero_InternalServicesConfigSpec :: mem_InternalServicesConfigSpec where
  "mem_zero_InternalServicesConfigSpec =
     \<lparr>mc_AllowList = None, mc_AllowedGitResolverURLs = None, mc_AllowedServiceAccounts = None,
      mc_Debug = False, mc_VolumeClaim = zero_VolumeClaim\<rparr>"

definition mem_zero_InternalServicesConfig :: mem_InternalServicesConfig where
  "mem_zero_InternalServicesConfig =
     \<lparr>mg_TypeMeta = \<lparr>tm_Kind = [], tm_APIVersion = []\<rparr>, mg_ObjectMeta = mem_zero_ObjectMeta,
      mg_Spec = mem_zero_InternalServicesConfigSpec, mg_Status = ()\<rparr>"

definition mem_zero_InternalServicesConfigList :: mem_InternalServicesConfigList where
  "mem_zero_InternalServicesConfigList =
     \<lparr>mgl_TypeMeta = \<lparr>tm_Kind = [], tm_APIVersion = []\<rparr>, mgl_ListMeta = mem_zero_ListMeta, mgl_Items = None\<rparr>"

definition zero_Param :: Param where
  "zero_Param = \<lparr>p_Name = [], p_Value = []\<rparr>"

definition zero_Condition :: Condition where
  "zero_Condition = \<lparr>c_Type = [], c_Status = [], c_Reason = [], c_Message = []\<rparr>"

end
