(* ===== verification/Deep_Copies.thy ===== *)
theory Deep_Copies
  imports Heap_Objects
begin

text \<open>
  \<open>api/v1alpha1/zz_generated.deepcopy.go\<close> and \<open>tekton/utils/zz_generated.deepcopy.go\<close>, one
  definition per function. \<open>DeepCopyInto\<close> takes the struct at \<open>in\<close> and returns the struct it
  leaves at \<open>out\<close>; \<open>DeepCopy\<close> takes and returns a pointer. The copies of the structs of
  apimachinery and Tekton are the fields of \<open>copiers\<close>.
\<close>

record copiers =
  ObjectMeta_DeepCopyInto :: "mem_ObjectMeta \<Rightarrow> (cell, mem_ObjectMeta) prog"
  ListMeta_DeepCopyInto :: "mem_ListMeta \<Rightarrow> (cell, mem_ListMeta) prog"
  TimeoutFields_DeepCopyInto :: "mem_TimeoutFields \<Rightarrow> (cell, mem_TimeoutFields) prog"
  Condition_DeepCopyInto :: "Condition \<Rightarrow> (cell, Condition) prog"
  Time_DeepCopy :: "addr \<Rightarrow> (cell, addr) prog"
  \<comment> \<open>the order in which \<open>range\<close> visits a map\<close>
  MapOrder :: "smap \<Rightarrow> (string \<times> string) list"

text \<open>The statements the generator emits for a slice of plain structs and for a map.\<close>

definition copy_params :: "addr \<Rightarrow> (cell, addr) prog" where
  "copy_params = make_copy ParamsCell the_params zero_Param"

definition copy_strings :: "addr \<Rightarrow> (cell, addr) prog" where
  "copy_strings = make_copy StringsCell the_strings []"

definition copy_map :: "copiers \<Rightarrow> addr \<Rightarrow> (cell, addr) prog" where
  "copy_map P = make_range MapCell the_map (\<lambda>(key, val). fmupd key val) fmempty (MapOrder P)"

section \<open>tekton/utils\<close>

definition PipelineRef_DeepCopyInto :: "mem_PipelineRef \<Rightarrow> (cell, mem_PipelineRef) prog" where
  "PipelineRef_DeepCopyInto src = do {
     let out = src;
     params \<leftarrow> copy_opt copy_params (mr_Params src);
     State_Monad.return (out\<lparr>mr_Params := params\<rparr>)
   }"

definition PipelineRef_DeepCopy :: "addr option \<Rightarrow> (cell, addr option) prog" where
  "PipelineRef_DeepCopy =
     copy_opt (new_copy PipelineRefCell the_pipelineRef mem_zero_PipelineRef PipelineRef_DeepCopyInto)"

definition Pipeline_DeepCopyInto :: "copiers \<Rightarrow> mem_Pipeline \<Rightarrow> (cell, mem_Pipeline) prog" where
  "Pipeline_DeepCopyInto P src = do {
     let out = src;
     ref \<leftarrow> PipelineRef_DeepCopyInto (mp_PipelineRef src);
     let out = out\<lparr>mp_PipelineRef := ref\<rparr>;
     timeouts \<leftarrow> TimeoutFields_DeepCopyInto P (mp_Timeouts src);
     State_Monad.return (out\<lparr>mp_Timeouts := timeouts\<rparr>)
   }"

definition Pipeline_DeepCopy :: "copiers \<Rightarrow> addr option \<Rightarrow> (cell, addr option) prog" where
  "Pipeline_DeepCopy P = copy_opt (new_copy PipelineCell the_pipeline mem_zero_Pipeline (Pipeline_DeepCopyInto P))"

definition ParameterizedPipeline_DeepCopyInto ::
    "copiers \<Rightarrow> mem_ParameterizedPipeline \<Rightarrow> (cell, mem_ParameterizedPipeline) prog" where
  "ParameterizedPipeline_DeepCopyInto P src = do {
     let out = src;
     pipeline \<leftarrow> Pipeline_DeepCopyInto P (mpp_Pipeline src);
     let out = out\<lparr>mpp_Pipeline := pipeline\<rparr>;
     params \<leftarrow> copy_opt copy_params (mpp_Params src);
     State_Monad.return (out\<lparr>mpp_Params := params\<rparr>)
   }"

definition new_ParameterizedPipeline :: "copiers \<Rightarrow> addr \<Rightarrow> (cell, addr) prog" where
  "new_ParameterizedPipeline P =
     new_copy ParameterizedPipelineCell the_parameterized mem_zero_ParameterizedPipeline
       (ParameterizedPipeline_DeepCopyInto P)"

definition ParameterizedPipeline_DeepCopy :: "copiers \<Rightarrow> addr option \<Rightarrow> (cell, addr option) prog" where
  "ParameterizedPipeline_DeepCopy P = copy_opt (new_ParameterizedPipeline P)"

section \<open>InternalRequest\<close>

definition InternalRequestSpec_DeepCopyInto ::
    "copiers \<Rightarrow> mem_InternalRequestSpec \<Rightarrow> (cell, mem_InternalRequestSpec) prog" where
  "InternalRequestSpec_DeepCopyInto P src = do {
     let out = src;
     pipeline \<leftarrow> copy_opt (new_ParameterizedPipeline P) (ms_Pipeline src);
     let out = out\<lparr>ms_Pipeline := pipeline\<rparr>;
     params \<leftarrow> copy_opt (copy_map P) (ms_Params src);
     let out = out\<lparr>ms_Params := params\<rparr>;
     timeouts \<leftarrow> TimeoutFields_DeepCopyInto P (ms_Timeouts src);
     State_Monad.return (out\<lparr>ms_Timeouts := timeouts\<rparr>)
   }"

definition InternalRequestSpec_DeepCopy :: "copiers \<Rightarrow> addr option \<Rightarrow> (cell, addr option) prog" where
  "InternalRequestSpec_DeepCopy P =
     copy_opt (new_copy SpecCell the_spec mem_zero_InternalRequestSpec (InternalRequestSpec_DeepCopyInto P))"

definition InternalRequestStatus_DeepCopyInto ::
    "copiers \<Rightarrow> mem_InternalRequestStatus \<Rightarrow> (cell, mem_InternalRequestStatus) prog" where
  "InternalRequestStatus_DeepCopyInto P src = do {
     let out = src;
     start \<leftarrow> copy_opt (Time_DeepCopy P) (mst_StartTime src);
     let out = out\<lparr>mst_StartTime := start\<rparr>;
     completion \<leftarrow> copy_opt (Time_DeepCopy P) (mst_CompletionTime src);
     let out = out\<lparr>mst_CompletionTime := completion\<rparr>;
     conditions \<leftarrow> copy_opt (make_items ConditionsCell the_conditions zero_Condition (Condition_DeepCopyInto P))
       (mst_Conditions src);
     let out = out\<lparr>mst_Conditions := conditions\<rparr>;
     results \<leftarrow> copy_opt (copy_map P) (mst_Results src);
     State_Monad.return (out\<lparr>mst_Results := results\<rparr>)
   }"

definition InternalRequestStatus_DeepCopy :: "copiers \<Rightarrow> addr option \<Rightarrow> (cell, addr option) prog" where
  "InternalRequestStatus_DeepCopy P =
     copy_opt (new_copy StatusCell the_status mem_zero_InternalRequestStatus (InternalRequestStatus_DeepCopyInto P))"

definition InternalRequest_DeepCopyInto ::
    "copiers \<Rightarrow> mem_InternalRequest \<Rightarrow> (cell, mem_InternalRequest) prog" where
  "InternalRequest_DeepCopyInto P src = do {
     let out = src;
     let out = out\<lparr>mi_TypeMeta := mi_TypeMeta src\<rparr>;
     metadata \<leftarrow> ObjectMeta_DeepCopyInto P (mi_ObjectMeta src);
     let out = out\<lparr>mi_ObjectMeta := metadata\<rparr>;
     spec \<leftarrow> InternalRequestSpec_DeepCopyInto P (mi_Spec src);
     let out = out\<lparr>mi_Spec := spec\<rparr>;
     status \<leftarrow> InternalRequestStatus_DeepCopyInto P (mi_Status src);
     State_Monad.return (out\<lparr>mi_Status := status\<rparr>)
   }"

definition InternalRequest_DeepCopy :: "copiers \<Rightarrow> addr option \<Rightarrow> (cell, addr option) prog" where
  "InternalRequest_DeepCopy P =
     copy_opt (new_copy RequestCell the_request mem_zero_InternalRequest (InternalRequest_DeepCopyInto P))"

definition InternalRequestList_DeepCopyInto ::
    "copiers \<Rightarrow> mem_InternalRequestList \<Rightarrow> (cell, mem_InternalRequestList) prog" where
  "InternalRequestList_DeepCopyInto P src = do {
     let out = src;
     let out = out\<lparr>mil_TypeMeta := mil_TypeMeta src\<rparr>;
     metadata \<leftarrow> ListMeta_DeepCopyInto P (mil_ListMeta src);
     let out = out\<lparr>mil_ListMeta := metadata\<rparr>;
     items \<leftarrow> copy_opt (make_items RequestsCell the_requests mem_zero_InternalRequest (InternalRequest_DeepCopyInto P))
       (mil_Items src);
     State_Monad.return (out\<lparr>mil_Items := items\<rparr>)
   }"

definition InternalRequestList_DeepCopy :: "copiers \<Rightarrow> addr option \<Rightarrow> (cell, addr option) prog" where
  "InternalRequestList_DeepCopy P =
     copy_opt (new_copy RequestListCell the_requestList mem_zero_InternalRequestList
       (InternalRequestList_DeepCopyInto P))"

section \<open>InternalServicesConfig\<close>

definition VolumeClaim_DeepCopyInto :: "VolumeClaim \<Rightarrow> (cell, VolumeClaim) prog" where
  "VolumeClaim_DeepCopyInto src = State_Monad.return src"

definition VolumeClaim_DeepCopy :: "addr option \<Rightarrow> (cell, addr option) prog" where
  "VolumeClaim_DeepCopy =
     copy_opt (new_copy VolumeClaimCell the_volumeClaim zero_VolumeClaim VolumeClaim_DeepCopyInto)"

definition InternalServicesConfigSpec_DeepCopyInto ::
    "mem_InternalServicesConfigSpec \<Rightarrow> (cell, mem_InternalServicesConfigSpec) prog" where
  "InternalServicesConfigSpec_DeepCopyInto src = do {
     let out = src;
     allowList \<leftarrow> copy_opt copy_strings (mc_AllowList src);
     let out = out\<lparr>mc_AllowList := allowList\<rparr>;
     urls \<leftarrow> copy_opt copy_strings (mc_AllowedGitResolverURLs src);
     let out = out\<lparr>mc_AllowedGitResolverURLs := urls\<rparr>;
     accounts \<leftarrow> copy_opt copy_strings (mc_AllowedServiceAccounts src);
     let out = out\<lparr>mc_AllowedServiceAccounts := accounts\<rparr>;
     State_Monad.return (out\<lparr>mc_VolumeClaim := mc_VolumeClaim src\<rparr>)
   }"

definition InternalServicesConfigSpec_DeepCopy :: "addr option \<Rightarrow> (cell, addr option) prog" where
  "InternalServicesConfigSpec_DeepCopy =
     copy_opt (new_copy ConfigSpecCell the_configSpec mem_zero_InternalServicesConfigSpec
       InternalServicesConfigSpec_DeepCopyInto)"

definition InternalServicesConfigStatus_DeepCopyInto :: "unit \<Rightarrow> (cell, unit) prog" where
  "InternalServicesConfigStatus_DeepCopyInto src = State_Monad.return src"

definition InternalServicesConfigStatus_DeepCopy :: "addr option \<Rightarrow> (cell, addr option) prog" where
  "InternalServicesConfigStatus_DeepCopy =
     copy_opt (new_copy ConfigStatusCell the_configStatus () InternalServicesConfigStatus_DeepCopyInto)"

definition InternalServicesConfig_DeepCopyInto ::
    "copiers \<Rightarrow> mem_InternalServicesConfig \<Rightarrow> (cell, mem_InternalServicesConfig) prog" where
  "InternalServicesConfig_DeepCopyInto P src = do {
     let out = src;
     let out = out\<lparr>mg_TypeMeta := mg_TypeMeta src\<rparr>;
     metadata \<leftarrow> ObjectMeta_DeepCopyInto P (mg_ObjectMeta src);
     let out = out\<lparr>mg_ObjectMeta := metadata\<rparr>;
     spec \<leftarrow> InternalServicesConfigSpec_DeepCopyInto (mg_Spec src);
     let out = out\<lparr>mg_Spec := spec\<rparr>;
     State_Monad.return (out\<lparr>mg_Status := mg_Status src\<rparr>)
   }"

definition InternalServicesConfig_DeepCopy :: "copiers \<Rightarrow> addr option \<Rightarrow> (cell, addr option) prog" where
  "InternalServicesConfig_DeepCopy P =
     copy_opt (new_copy ConfigCell the_config mem_zero_InternalServicesConfig (InternalServicesConfig_DeepCopyInto P))"

definition InternalServicesConfigList_DeepCopyInto ::
    "copiers \<Rightarrow> mem_InternalServicesConfigList \<Rightarrow> (cell, mem_InternalServicesConfigList) prog" where
  "InternalServicesConfigList_DeepCopyInto P src = do {
     let out = src;
     let out = out\<lparr>mgl_TypeMeta := mgl_TypeMeta src\<rparr>;
     metadata \<leftarrow> ListMeta_DeepCopyInto P (mgl_ListMeta src);
     let out = out\<lparr>mgl_ListMeta := metadata\<rparr>;
     items \<leftarrow> copy_opt (make_items ConfigsCell the_configs mem_zero_InternalServicesConfig
       (InternalServicesConfig_DeepCopyInto P)) (mgl_Items src);
     State_Monad.return (out\<lparr>mgl_Items := items\<rparr>)
   }"

definition InternalServicesConfigList_DeepCopy :: "copiers \<Rightarrow> addr option \<Rightarrow> (cell, addr option) prog" where
  "InternalServicesConfigList_DeepCopy P =
     copy_opt (new_copy ConfigListCell the_configList mem_zero_InternalServicesConfigList
       (InternalServicesConfigList_DeepCopyInto P))"

section \<open>Copies as runtime.Object\<close>

text \<open>
  An interface value is nil or holds a pointer of a type; it can hold a nil pointer, which is
  not the nil interface. \<open>DeepCopyObject\<close> keeps the two apart.
\<close>

datatype runtime_Object =
    NilObject
  | RequestObject "addr option"
  | RequestListObject "addr option"
  | ConfigObject "addr option"
  | ConfigListObject "addr option"

definition copy_object :: "(addr option \<Rightarrow> runtime_Object) \<Rightarrow> (addr option \<Rightarrow> (cell, addr option) prog) \<Rightarrow>
    addr option \<Rightarrow> (cell, runtime_Object) prog" where
  "copy_object wrap copy src = do {
     c \<leftarrow> copy src;
     if c \<noteq> None then State_Monad.return (wrap c) else State_Monad.return NilObject
   }"

definition InternalRequest_DeepCopyObject :: "copiers \<Rightarrow> addr option \<Rightarrow> (cell, runtime_Object) prog" where
  "InternalRequest_DeepCopyObject P = copy_object RequestObject (InternalRequest_DeepCopy P)"

definition InternalRequestList_DeepCopyObject :: "copiers \<Rightarrow> addr option \<Rightarrow> (cell, runtime_Object) prog" where
  "InternalRequestList_DeepCopyObject P = copy_object RequestListObject (InternalRequestList_DeepCopy P)"

definition InternalServicesConfig_DeepCopyObject :: "copiers \<Rightarrow> addr option \<Rightarrow> (cell, runtime_Object) prog" where
  "InternalServicesConfig_DeepCopyObject P = copy_object ConfigObject (InternalServicesConfig_DeepCopy P)"

definition InternalServicesConfigList_DeepCopyObject :: "copiers \<Rightarrow> addr option \<Rightarrow> (cell, runtime_Object) prog" where
  "InternalServicesConfigList_DeepCopyObject P = copy_object ConfigListObject (InternalServicesConfigList_DeepCopy P)"

end
