(* ===== verification/Copy_Laws.thy ===== *)
theory Copy_Laws
  imports Deep_Copies
begin

text \<open>
  Every generated function is a deep copy: for each type, what it means that an object of the
  type in memory is well formed, the object it stands for and the cells it is made of, and that
  the copy satisfies \<open>deep_copy\<close> for them.
\<close>

section \<open>Nil maps and slices\<close>

text \<open>Nil maps and slices stand for empty ones.\<close>

definition map_of_cell :: "cell list \<Rightarrow> addr option \<Rightarrow> smap" where
  "map_of_cell h r = (case r of None \<Rightarrow> fmempty | Some a \<Rightarrow> the_map (h ! a))"

definition list_of_cell :: "(cell \<Rightarrow> 'a list) \<Rightarrow> cell list \<Rightarrow> addr option \<Rightarrow> 'a list" where
  "list_of_cell un h r = (case r of None \<Rightarrow> [] | Some a \<Rightarrow> un (h ! a))"

lemma nil_view:
  "map_of_cell h r = (case map_option (\<lambda>a. the_map (h ! a)) r of None \<Rightarrow> fmempty | Some m \<Rightarrow> m)"
  "list_of_cell un h r = (case map_option (\<lambda>a. un (h ! a)) r of None \<Rightarrow> [] | Some m \<Rightarrow> m)"
  by (simp_all add: map_of_cell_def list_of_cell_def split: option.splits)

lemma deep_copy_nil_map:
  assumes "deep_copy V (\<lambda>h a. the_map (h ! a)) F C"
  shows "deep_copy (valid_opt V) map_of_cell (foot_opt F) (copy_opt C)"
  using deep_copy_view[OF deep_copy_opt[OF assms], of "\<lambda>v. case v of None \<Rightarrow> fmempty | Some m \<Rightarrow> m"]
  by (simp add: nil_view[abs_def])

lemma deep_copy_nil_list:
  assumes "deep_copy V (\<lambda>h a. un (h ! a)) F C"
  shows "deep_copy (valid_opt V) (list_of_cell un) (foot_opt F) (copy_opt C)"
  using deep_copy_view[OF deep_copy_opt[OF assms], of "\<lambda>v. case v of None \<Rightarrow> [] | Some m \<Rightarrow> m"]
  by (simp add: nil_view[abs_def])

abbreviation valid_strings :: "cell list \<Rightarrow> addr option \<Rightarrow> bool" where
  "valid_strings \<equiv> valid_opt (valid_leaf is_StringsCell)"

abbreviation valid_params :: "cell list \<Rightarrow> addr option \<Rightarrow> bool" where
  "valid_params \<equiv> valid_opt (valid_leaf is_ParamsCell)"

abbreviation valid_map :: "cell list \<Rightarrow> addr option \<Rightarrow> bool" where
  "valid_map \<equiv> valid_opt (valid_leaf is_MapCell)"

abbreviation foot_leaves :: "cell list \<Rightarrow> addr option \<Rightarrow> addr set" where
  "foot_leaves \<equiv> foot_opt foot_leaf"

abbreviation value_of :: "(cell \<Rightarrow> 'a) \<Rightarrow> cell list \<Rightarrow> addr option \<Rightarrow> 'a option" where
  "value_of un h \<equiv> map_option (\<lambda>a. un (h ! a))"

interpretation params: deep_copy valid_params "list_of_cell the_params" foot_leaves "copy_opt copy_params"
  unfolding copy_params_def by (rule deep_copy_nil_list, rule deep_copy_make_copy) (auto simp: is_ParamsCell_def)

interpretation strings: deep_copy valid_strings "list_of_cell the_strings" foot_leaves "copy_opt copy_strings"
  unfolding copy_strings_def by (rule deep_copy_nil_list, rule deep_copy_make_copy) (auto simp: is_StringsCell_def)

section \<open>The structs of apimachinery and Tekton\<close>

definition valid_ObjectMeta :: "cell list \<Rightarrow> mem_ObjectMeta \<Rightarrow> bool" where
  "valid_ObjectMeta h m \<longleftrightarrow> valid_map h (mo_Labels m) \<and> valid_map h (mo_Annotations m) \<and>
     valid_strings h (mo_Finalizers m) \<and> valid_opt (valid_leaf is_TimeCell) h (mo_DeletionTimestamp m)"

definition foot_ObjectMeta :: "cell list \<Rightarrow> mem_ObjectMeta \<Rightarrow> addr set" where
  "foot_ObjectMeta h m = foot_leaves h (mo_Labels m) \<union> (foot_leaves h (mo_Annotations m) \<union>
     (foot_leaves h (mo_Finalizers m) \<union> foot_leaves h (mo_DeletionTimestamp m)))"

definition abs_ObjectMeta :: "cell list \<Rightarrow> mem_ObjectMeta \<Rightarrow> ObjectMeta" where
  "abs_ObjectMeta h m =
     \<lparr>om_Name = mo_Name m, om_GenerateName = mo_GenerateName m, om_Namespace = mo_Namespace m,
      om_Labels = map_of_cell h (mo_Labels m), om_Annotations = map_of_cell h (mo_Annotations m),
      om_Finalizers = list_of_cell the_strings h (mo_Finalizers m), om_Generation = mo_Generation m,
      om_CreationTimestamp = mo_CreationTimestamp m,
      om_DeletionTimestamp = value_of the_time h (mo_DeletionTimestamp m)\<rparr>"

definition valid_ListMeta :: "cell list \<Rightarrow> mem_ListMeta \<Rightarrow> bool" where
  "valid_ListMeta h m = valid_opt (valid_leaf is_Int64Cell) h (ml_RemainingItemCount m)"

definition foot_ListMeta :: "cell list \<Rightarrow> mem_ListMeta \<Rightarrow> addr set" where
  "foot_ListMeta h m = foot_leaves h (ml_RemainingItemCount m)"

record ListMeta =
  lm_ResourceVersion :: string
  lm_Continue :: string
  lm_RemainingItemCount :: "int option"

definition abs_ListMeta :: "cell list \<Rightarrow> mem_ListMeta \<Rightarrow> ListMeta" where
  "abs_ListMeta h m = \<lparr>lm_ResourceVersion = ml_ResourceVersion m, lm_Continue = ml_Continue m,
     lm_RemainingItemCount = value_of the_int64 h (ml_RemainingItemCount m)\<rparr>"

definition valid_TimeoutFields :: "cell list \<Rightarrow> mem_TimeoutFields \<Rightarrow> bool" where
  "valid_TimeoutFields h t \<longleftrightarrow> valid_opt (valid_leaf is_DurationCell) h (mt_Pipeline t) \<and>
     valid_opt (valid_leaf is_DurationCell) h (mt_Tasks t) \<and> valid_opt (valid_leaf is_DurationCell) h (mt_Finally t)"

definition foot_TimeoutFields :: "cell list \<Rightarrow> mem_TimeoutFields \<Rightarrow> addr set" where
  "foot_TimeoutFields h t = foot_leaves h (mt_Pipeline t) \<union> (foot_leaves h (mt_Tasks t) \<union> foot_leaves h (mt_Finally t))"

definition abs_TimeoutFields :: "cell list \<Rightarrow> mem_TimeoutFields \<Rightarrow> TimeoutFields" where
  "abs_TimeoutFields h t = \<lparr>tf_Pipeline = value_of the_duration h (mt_Pipeline t),
     tf_Tasks = value_of the_duration h (mt_Tasks t), tf_Finally = value_of the_duration h (mt_Finally t)\<rparr>"

text \<open>
  What the generated code relies on: the copies of the structs it embeds are deep, and \<open>range\<close>
  visits every entry of a map once.
\<close>

locale copier_api =
  fixes P :: copiers
  assumes copy_ObjectMeta: "deep_copy valid_ObjectMeta abs_ObjectMeta foot_ObjectMeta (ObjectMeta_DeepCopyInto P)"
    and copy_ListMeta: "deep_copy valid_ListMeta abs_ListMeta foot_ListMeta (ListMeta_DeepCopyInto P)"
    and copy_TimeoutFields:
      "deep_copy valid_TimeoutFields abs_TimeoutFields foot_TimeoutFields (TimeoutFields_DeepCopyInto P)"
    and copy_Condition: "deep_copy (\<lambda>_ _. True) (\<lambda>_ c. c) (\<lambda>_ _. {}) (Condition_DeepCopyInto P)"
    and copy_Time: "deep_copy (valid_leaf is_TimeCell) (\<lambda>h a. the_time (h ! a)) foot_leaf (Time_DeepCopy P)"
    and order_distinct: "distinct (map fst (MapOrder P m))"
    and order_entries: "fmap_of_list (MapOrder P m) = m"

lemma fold_fmupd:
  "distinct (map fst es) \<Longrightarrow> fold (\<lambda>(k, v). fmupd k v) es m = m ++\<^sub>f fmap_of_list es"
  by (induction es arbitrary: m)
    (force intro!: fmap_ext simp: fmlookup_of_list fset_of_list_elem map_of_eq_None_iff)+

section \<open>Values of the copied types\<close>

definition valid_PipelineRef :: "cell list \<Rightarrow> mem_PipelineRef \<Rightarrow> bool" where
  "valid_PipelineRef h r = valid_params h (mr_Params r)"

definition foot_PipelineRef :: "cell list \<Rightarrow> mem_PipelineRef \<Rightarrow> addr set" where
  "foot_PipelineRef h r = foot_leaves h (mr_Params r)"

definition abs_PipelineRef :: "cell list \<Rightarrow> mem_PipelineRef \<Rightarrow> PipelineRef" where
  "abs_PipelineRef h r = \<lparr>pr_Resolver = mr_Resolver r, pr_Params = list_of_cell the_params h (mr_Params r)\<rparr>"

lemma copy_PipelineRef: "deep_copy valid_PipelineRef abs_PipelineRef foot_PipelineRef PipelineRef_DeepCopyInto"
  by (rule deep_copy_struct[OF params.deep_copy_axioms, where get = mr_Params and put = "\<lambda>x r. r\<lparr>mr_Params := x\<rparr>"
        and view = "\<lambda>r v. \<lparr>pr_Resolver = mr_Resolver r, pr_Params = v\<rparr>"])
    (simp_all add: PipelineRef_DeepCopyInto_def valid_PipelineRef_def foot_PipelineRef_def abs_PipelineRef_def)

definition valid_Pipeline :: "cell list \<Rightarrow> mem_Pipeline \<Rightarrow> bool" where
  "valid_Pipeline h p \<longleftrightarrow> valid_PipelineRef h (mp_PipelineRef p) \<and> valid_TimeoutFields h (mp_Timeouts p)"

definition foot_Pipeline :: "cell list \<Rightarrow> mem_Pipeline \<Rightarrow> addr set" where
  "foot_Pipeline h p = foot_PipelineRef h (mp_PipelineRef p) \<union> foot_TimeoutFields h (mp_Timeouts p)"

definition abs_Pipeline :: "cell list \<Rightarrow> mem_Pipeline \<Rightarrow> Pipeline" where
  "abs_Pipeline h p = \<lparr>pl_PipelineRef = abs_PipelineRef h (mp_PipelineRef p),
     pl_ServiceAccountName = mp_ServiceAccountName p, pl_Timeouts = abs_TimeoutFields h (mp_Timeouts p)\<rparr>"

definition valid_ParameterizedPipeline :: "cell list \<Rightarrow> mem_ParameterizedPipeline \<Rightarrow> bool" where
  "valid_ParameterizedPipeline h p \<longleftrightarrow> valid_Pipeline h (mpp_Pipeline p) \<and> valid_params h (mpp_Params p)"

definition foot_ParameterizedPipeline :: "cell list \<Rightarrow> mem_ParameterizedPipeline \<Rightarrow> addr set" where
  "foot_ParameterizedPipeline h p = foot_Pipeline h (mpp_Pipeline p) \<union> foot_leaves h (mpp_Params p)"

definition parameterized :: "Pipeline \<Rightarrow> Param list \<Rightarrow> ParameterizedPipeline" where
  "parameterized p params = \<lparr>pl_PipelineRef = pl_PipelineRef p, pl_ServiceAccountName = pl_ServiceAccountName p,
     pl_Timeouts = pl_Timeouts p, pp_Params = params\<rparr>"

definition abs_ParameterizedPipeline :: "cell list \<Rightarrow> mem_ParameterizedPipeline \<Rightarrow> ParameterizedPipeline" where
  "abs_ParameterizedPipeline h p =
     parameterized (abs_Pipeline h (mpp_Pipeline p)) (list_of_cell the_params h (mpp_Params p))"

definition valid_InternalRequestSpec :: "cell list \<Rightarrow> mem_InternalRequestSpec \<Rightarrow> bool" where
  "valid_InternalRequestSpec h s \<longleftrightarrow>
     valid_opt (valid_ptr is_ParameterizedPipelineCell the_parameterized valid_ParameterizedPipeline) h (ms_Pipeline s) \<and>
     valid_map h (ms_Params s) \<and> valid_TimeoutFields h (ms_Timeouts s)"

definition foot_InternalRequestSpec :: "cell list \<Rightarrow> mem_InternalRequestSpec \<Rightarrow> addr set" where
  "foot_InternalRequestSpec h s =
     foot_opt (foot_ptr the_parameterized foot_ParameterizedPipeline) h (ms_Pipeline s) \<union>
     (foot_leaves h (ms_Params s) \<union> foot_TimeoutFields h (ms_Timeouts s))"

definition abs_InternalRequestSpec :: "cell list \<Rightarrow> mem_InternalRequestSpec \<Rightarrow> InternalRequestSpec" where
  "abs_InternalRequestSpec h s =
     \<lparr>s_Pipeline = map_option (\<lambda>a. abs_ParameterizedPipeline h (the_parameterized (h ! a))) (ms_Pipeline s),
      s_Params = map_of_cell h (ms_Params s), s_Timeouts = abs_TimeoutFields h (ms_Timeouts s),
      s_ServiceAccount = ms_ServiceAccount s\<rparr>"

definition valid_InternalRequestStatus :: "cell list \<Rightarrow> mem_InternalRequestStatus \<Rightarrow> bool" where
  "valid_InternalRequestStatus h s \<longleftrightarrow> valid_opt (valid_leaf is_TimeCell) h (mst_StartTime s) \<and>
     valid_opt (valid_leaf is_TimeCell) h (mst_CompletionTime s) \<and>
     valid_opt (valid_items is_ConditionsCell the_conditions (\<lambda>_ _. True)) h (mst_Conditions s) \<and>
     valid_map h (mst_Results s)"

definition foot_InternalRequestStatus :: "cell list \<Rightarrow> mem_InternalRequestStatus \<Rightarrow> addr set" where
  "foot_InternalRequestStatus h s = foot_leaves h (mst_StartTime s) \<union> (foot_leaves h (mst_CompletionTime s) \<union>
     (foot_opt (foot_items the_conditions (\<lambda>_ _. {})) h (mst_Conditions s) \<union> foot_leaves h (mst_Results s)))"

definition abs_InternalRequestStatus :: "cell list \<Rightarrow> mem_InternalRequestStatus \<Rightarrow> InternalRequestStatus" where
  "abs_InternalRequestStatus h s =
     \<lparr>StartTime = value_of the_time h (mst_StartTime s), CompletionTime = value_of the_time h (mst_CompletionTime s),
      PipelineRunRef = mst_PipelineRun s, Conditions = list_of_cell the_conditions h (mst_Conditions s),
      Results = map_of_cell h (mst_Results s)\<rparr>"

definition valid_InternalRequest :: "cell list \<Rightarrow> mem_InternalRequest \<Rightarrow> bool" where
  "valid_InternalRequest h r \<longleftrightarrow> valid_ObjectMeta h (mi_ObjectMeta r) \<and>
     valid_InternalRequestSpec h (mi_Spec r) \<and> valid_InternalRequestStatus h (mi_Status r)"

definition foot_InternalRequest :: "cell list \<Rightarrow> mem_InternalRequest \<Rightarrow> addr set" where
  "foot_InternalRequest h r = foot_ObjectMeta h (mi_ObjectMeta r) \<union>
     (foot_InternalRequestSpec h (mi_Spec r) \<union> foot_InternalRequestStatus h (mi_Status r))"

definition abs_InternalRequest :: "cell list \<Rightarrow> mem_InternalRequest \<Rightarrow> InternalRequest" where
  "abs_InternalRequest h r =
     \<lparr>ir_TypeMeta = mi_TypeMeta r, ir_ObjectMeta = abs_ObjectMeta h (mi_ObjectMeta r),
      ir_Spec = abs_InternalRequestSpec h (mi_Spec r), ir_Status = abs_InternalRequestStatus h (mi_Status r)\<rparr>"

context copier_api
begin

lemma copy_map_deep: "deep_copy valid_map map_of_cell foot_leaves (copy_opt (copy_map P))"
  unfolding copy_map_def
  by (rule deep_copy_nil_map, rule deep_copy_make_range)
    (auto simp: is_MapCell_def fold_fmupd order_distinct order_entries)

lemma copy_conditions_deep:
  "deep_copy (valid_opt (valid_items is_ConditionsCell the_conditions (\<lambda>_ _. True))) (list_of_cell the_conditions)
     (foot_opt (foot_items the_conditions (\<lambda>_ _. {})))
     (copy_opt (make_items ConditionsCell the_conditions zero_Condition (Condition_DeepCopyInto P)))"
  using deep_copy_nil_list[of _ the_conditions, OF
    deep_copy_items[OF copy_Condition, of the_conditions ConditionsCell is_ConditionsCell zero_Condition, simplified]]
  by simp

lemma copy_Pipeline: "deep_copy valid_Pipeline abs_Pipeline foot_Pipeline (Pipeline_DeepCopyInto P)"
  by (rule deep_copy_struct[OF deep_copy_pair[OF copy_PipelineRef copy_TimeoutFields],
        where get = "\<lambda>p. (mp_PipelineRef p, mp_Timeouts p)"
          and put = "\<lambda>x p. p\<lparr>mp_PipelineRef := fst x, mp_Timeouts := snd x\<rparr>"
          and view = "\<lambda>p v. \<lparr>pl_PipelineRef = fst v, pl_ServiceAccountName = mp_ServiceAccountName p, pl_Timeouts = snd v\<rparr>"])
    (simp_all add: Pipeline_DeepCopyInto_def copy_pair_def Let_def valid_Pipeline_def foot_Pipeline_def abs_Pipeline_def)

lemma copy_ParameterizedPipeline:
  "deep_copy valid_ParameterizedPipeline abs_ParameterizedPipeline foot_ParameterizedPipeline
     (ParameterizedPipeline_DeepCopyInto P)"
  by (rule deep_copy_struct[OF deep_copy_pair[OF copy_Pipeline params.deep_copy_axioms],
        where get = "\<lambda>p. (mpp_Pipeline p, mpp_Params p)"
          and put = "\<lambda>x p. p\<lparr>mpp_Pipeline := fst x, mpp_Params := snd x\<rparr>"
          and view = "\<lambda>p v. parameterized (fst v) (snd v)"])
    (simp_all add: ParameterizedPipeline_DeepCopyInto_def copy_pair_def Let_def valid_ParameterizedPipeline_def
      foot_ParameterizedPipeline_def abs_ParameterizedPipeline_def)

lemmas copy_new_pipeline = deep_copy_opt[OF deep_copy_ptr[OF copy_ParameterizedPipeline, of the_parameterized
    ParameterizedPipelineCell is_ParameterizedPipelineCell mem_zero_ParameterizedPipeline, simplified]]

lemma copy_InternalRequestSpec:
  "deep_copy valid_InternalRequestSpec abs_InternalRequestSpec foot_InternalRequestSpec
     (InternalRequestSpec_DeepCopyInto P)"
  by (rule deep_copy_struct[OF deep_copy_pair[OF copy_new_pipeline deep_copy_pair[OF copy_map_deep copy_TimeoutFields]],
        where get = "\<lambda>s. (ms_Pipeline s, ms_Params s, ms_Timeouts s)"
          and put = "\<lambda>x s. s\<lparr>ms_Pipeline := fst x, ms_Params := fst (snd x), ms_Timeouts := snd (snd x)\<rparr>"
          and view = "\<lambda>s v. \<lparr>s_Pipeline = fst v, s_Params = fst (snd v), s_Timeouts = snd (snd v),
            s_ServiceAccount = ms_ServiceAccount s\<rparr>"])
    (simp_all add: InternalRequestSpec_DeepCopyInto_def new_ParameterizedPipeline_def copy_pair_def Let_def
      valid_InternalRequestSpec_def foot_InternalRequestSpec_def abs_InternalRequestSpec_def)

lemma copy_InternalRequestStatus:
  "deep_copy valid_InternalRequestStatus abs_InternalRequestStatus foot_InternalRequestStatus
     (InternalRequestStatus_DeepCopyInto P)"
  by (rule deep_copy_struct[OF deep_copy_pair[OF deep_copy_opt[OF copy_Time] deep_copy_pair[OF deep_copy_opt[OF copy_Time]
          deep_copy_pair[OF copy_conditions_deep copy_map_deep]]],
        where get = "\<lambda>s. (mst_StartTime s, mst_CompletionTime s, mst_Conditions s, mst_Results s)"
          and put = "\<lambda>x s. s\<lparr>mst_StartTime := fst x, mst_CompletionTime := fst (snd x),
            mst_Conditions := fst (snd (snd x)), mst_Results := snd (snd (snd x))\<rparr>"
          and view = "\<lambda>s v. \<lparr>StartTime = fst v, CompletionTime = fst (snd v), PipelineRunRef = mst_PipelineRun s,
            Conditions = fst (snd (snd v)), Results = snd (snd (snd v))\<rparr>"])
    (simp_all add: InternalRequestStatus_DeepCopyInto_def copy_pair_def Let_def
      valid_InternalRequestStatus_def foot_InternalRequestStatus_def abs_InternalRequestStatus_def)

lemma copy_InternalRequest:
  "deep_copy valid_InternalRequest abs_InternalRequest foot_InternalRequest (InternalRequest_DeepCopyInto P)"
  by (rule deep_copy_struct[OF deep_copy_pair[OF copy_ObjectMeta
          deep_copy_pair[OF copy_InternalRequestSpec copy_InternalRequestStatus]],
        where get = "\<lambda>r. (mi_ObjectMeta r, mi_Spec r, mi_Status r)"
          and put = "\<lambda>x r. r\<lparr>mi_ObjectMeta := fst x, mi_Spec := fst (snd x), mi_Status := snd (snd x)\<rparr>"
          and view = "\<lambda>r v. \<lparr>ir_TypeMeta = mi_TypeMeta r, ir_ObjectMeta = fst v, ir_Spec = fst (snd v),
            ir_Status = snd (snd v)\<rparr>"])
    (simp_all add: InternalRequest_DeepCopyInto_def copy_pair_def Let_def
      valid_InternalRequest_def foot_InternalRequest_def abs_InternalRequest_def)

end

end
