(* ===== verification/Copy_Properties.thy ===== *)
theory Copy_Properties
  imports Copy_Laws
begin

text \<open>
  The remaining types, the functions on pointers, and what the copies guarantee to their
  callers: same value, well-typed memory, nothing shared.
\<close>

section \<open>Lists and configurations\<close>

abbreviation valid_request_items :: "cell list \<Rightarrow> addr \<Rightarrow> bool" where
  "valid_request_items \<equiv> valid_items is_RequestsCell the_requests valid_InternalRequest"

definition valid_InternalRequestList :: "cell list \<Rightarrow> mem_InternalRequestList \<Rightarrow> bool" where
  "valid_InternalRequestList h l \<longleftrightarrow> valid_ListMeta h (mil_ListMeta l) \<and> valid_opt valid_request_items h (mil_Items l)"

definition foot_InternalRequestList :: "cell list \<Rightarrow> mem_InternalRequestList \<Rightarrow> addr set" where
  "foot_InternalRequestList h l = foot_ListMeta h (mil_ListMeta l) \<union>
     foot_opt (foot_items the_requests foot_InternalRequest) h (mil_Items l)"

definition abs_InternalRequestList :: "cell list \<Rightarrow> mem_InternalRequestList \<Rightarrow>
    TypeMeta \<times> ListMeta \<times> InternalRequest list option" where
  "abs_InternalRequestList h l = (mil_TypeMeta l, abs_ListMeta h (mil_ListMeta l),
     map_option (\<lambda>a. map (abs_InternalRequest h) (the_requests (h ! a))) (mil_Items l))"

definition valid_InternalServicesConfigSpec :: "cell list \<Rightarrow> mem_InternalServicesConfigSpec \<Rightarrow> bool" where
  "valid_InternalServicesConfigSpec h s \<longleftrightarrow> valid_strings h (mc_AllowList s) \<and>
     valid_strings h (mc_AllowedGitResolverURLs s) \<and> valid_strings h (mc_AllowedServiceAccounts s)"

definition foot_InternalServicesConfigSpec :: "cell list \<Rightarrow> mem_InternalServicesConfigSpec \<Rightarrow> addr set" where
  "foot_InternalServicesConfigSpec h s = foot_leaves h (mc_AllowList s) \<union>
     (foot_leaves h (mc_AllowedGitResolverURLs s) \<union> foot_leaves h (mc_AllowedServiceAccounts s))"

definition abs_InternalServicesConfigSpec :: "cell list \<Rightarrow> mem_InternalServicesConfigSpec \<Rightarrow> InternalServicesConfigSpec" where
  "abs_InternalServicesConfigSpec h s =
     \<lparr>AllowList = list_of_cell the_strings h (mc_AllowList s),
      AllowedGitResolverURLs = list_of_cell the_strings h (mc_AllowedGitResolverURLs s),
      AllowedServiceAccounts = list_of_cell the_strings h (mc_AllowedServiceAccounts s),
      Debug = mc_Debug s, Volume = mc_VolumeClaim s\<rparr>"

lemma copy_InternalServicesConfigSpec:
  "deep_copy valid_InternalServicesConfigSpec abs_InternalServicesConfigSpec foot_InternalServicesConfigSpec
     InternalServicesConfigSpec_DeepCopyInto"
  by (rule deep_copy_struct[OF deep_copy_pair[OF strings.deep_copy_axioms
          deep_copy_pair[OF strings.deep_copy_axioms strings.deep_copy_axioms]],
        where get = "\<lambda>s. (mc_AllowList s, mc_AllowedGitResolverURLs s, mc_AllowedServiceAccounts s)"
          and put = "\<lambda>x s. s\<lparr>mc_AllowList := fst x, mc_AllowedGitResolverURLs := fst (snd x),
            mc_AllowedServiceAccounts := snd (snd x)\<rparr>"
          and view = "\<lambda>s v. \<lparr>AllowList = fst v, AllowedGitResolverURLs = fst (snd v),
            AllowedServiceAccounts = snd (snd v), Debug = mc_Debug s, Volume = mc_VolumeClaim s\<rparr>"])
    (simp_all add: InternalServicesConfigSpec_DeepCopyInto_def copy_pair_def Let_def
      valid_InternalServicesConfigSpec_def foot_InternalServicesConfigSpec_def abs_InternalServicesConfigSpec_def)

definition valid_InternalServicesConfig :: "cell list \<Rightarrow> mem_InternalServicesConfig \<Rightarrow> bool" where
  "valid_InternalServicesConfig h g \<longleftrightarrow> valid_ObjectMeta h (mg_ObjectMeta g) \<and>
     valid_InternalServicesConfigSpec h (mg_Spec g)"

definition foot_InternalServicesConfig :: "cell list \<Rightarrow> mem_InternalServicesConfig \<Rightarrow> addr set" where
  "foot_InternalServicesConfig h g = foot_ObjectMeta h (mg_ObjectMeta g) \<union> foot_InternalServicesConfigSpec h (mg_Spec g)"

definition abs_InternalServicesConfig :: "cell list \<Rightarrow> mem_InternalServicesConfig \<Rightarrow> TypeMeta \<times> InternalServicesConfig" where
  "abs_InternalServicesConfig h g = (mg_TypeMeta g,
     \<lparr>cfg_ObjectMeta = abs_ObjectMeta h (mg_ObjectMeta g), cfg_Spec = abs_InternalServicesConfigSpec h (mg_Spec g)\<rparr>)"

abbreviation valid_config_items :: "cell list \<Rightarrow> addr \<Rightarrow> bool" where
  "valid_config_items \<equiv> valid_items is_ConfigsCell the_configs valid_InternalServicesConfig"

definition valid_InternalServicesConfigList :: "cell list \<Rightarrow> mem_InternalServicesConfigList \<Rightarrow> bool" where
  "valid_InternalServicesConfigList h l \<longleftrightarrow> valid_ListMeta h (mgl_ListMeta l) \<and> valid_opt valid_config_items h (mgl_Items l)"

definition foot_InternalServicesConfigList :: "cell list \<Rightarrow> mem_InternalServicesConfigList \<Rightarrow> addr set" where
  "foot_InternalServicesConfigList h l = foot_ListMeta h (mgl_ListMeta l) \<union>
     foot_opt (foot_items the_configs foot_InternalServicesConfig) h (mgl_Items l)"

definition abs_InternalServicesConfigList :: "cell list \<Rightarrow> mem_InternalServicesConfigList \<Rightarrow>
    TypeMeta \<times> ListMeta \<times> (TypeMeta \<times> InternalServicesConfig) list option" where
  "abs_InternalServicesConfigList h l = (mgl_TypeMeta l, abs_ListMeta h (mgl_ListMeta l),
     map_option (\<lambda>a. map (abs_InternalServicesConfig h) (the_configs (h ! a))) (mgl_Items l))"

lemma empty_status [simp]: "g\<lparr>mg_Status := ()\<rparr> = g"
  by (cases g) simp

context copier_api
begin

lemmas copy_request_items = deep_copy_opt[OF deep_copy_items[OF copy_InternalRequest, of the_requests
    RequestsCell is_RequestsCell mem_zero_InternalRequest, simplified]]

lemma copy_InternalRequestList:
  "deep_copy valid_InternalRequestList abs_InternalRequestList foot_InternalRequestList
     (InternalRequestList_DeepCopyInto P)"
  by (rule deep_copy_struct[OF deep_copy_pair[OF copy_ListMeta copy_request_items],
        where get = "\<lambda>l. (mil_ListMeta l, mil_Items l)" and put = "\<lambda>x l. l\<lparr>mil_ListMeta := fst x, mil_Items := snd x\<rparr>"
          and view = "\<lambda>l v. (mil_TypeMeta l, v)"])
    (simp_all add: InternalRequestList_DeepCopyInto_def copy_pair_def Let_def
      valid_InternalRequestList_def foot_InternalRequestList_def abs_InternalRequestList_def)

lemma copy_InternalServicesConfig:
  "deep_copy valid_InternalServicesConfig abs_InternalServicesConfig foot_InternalServicesConfig
     (InternalServicesConfig_DeepCopyInto P)"
  by (rule deep_copy_struct[OF deep_copy_pair[OF copy_ObjectMeta copy_InternalServicesConfigSpec],
        where get = "\<lambda>g. (mg_ObjectMeta g, mg_Spec g)" and put = "\<lambda>x g. g\<lparr>mg_ObjectMeta := fst x, mg_Spec := snd x\<rparr>"
          and view = "\<lambda>g v. (mg_TypeMeta g, \<lparr>cfg_ObjectMeta = fst v, cfg_Spec = snd v\<rparr>)"])
    (simp_all add: InternalServicesConfig_DeepCopyInto_def copy_pair_def Let_def
      valid_InternalServicesConfig_def foot_InternalServicesConfig_def abs_InternalServicesConfig_def)

lemmas copy_config_items = deep_copy_opt[OF deep_copy_items[OF copy_InternalServicesConfig, of the_configs
    ConfigsCell is_ConfigsCell mem_zero_InternalServicesConfig, simplified]]

lemma copy_InternalServicesConfigList:
  "deep_copy valid_InternalServicesConfigList abs_InternalServicesConfigList foot_InternalServicesConfigList
     (InternalServicesConfigList_DeepCopyInto P)"
  by (rule deep_copy_struct[OF deep_copy_pair[OF copy_ListMeta copy_config_items],
        where get = "\<lambda>l. (mgl_ListMeta l, mgl_Items l)" and put = "\<lambda>x l. l\<lparr>mgl_ListMeta := fst x, mgl_Items := snd x\<rparr>"
          and view = "\<lambda>l v. (mgl_TypeMeta l, v)"])
    (simp_all add: InternalServicesConfigList_DeepCopyInto_def copy_pair_def Let_def
      valid_InternalServicesConfigList_def foot_InternalServicesConfigList_def abs_InternalServicesConfigList_def)

end

section \<open>Pointers to structs\<close>

text \<open>
  \<open>deep_pointer\<close> is the contract of a \<open>DeepCopy\<close> function: nil gives nil, a pointer to a
  well-typed struct gives a deep copy.
\<close>

definition deep_pointer :: "(cell \<Rightarrow> bool) \<Rightarrow> (cell \<Rightarrow> 'r) \<Rightarrow> (cell list \<Rightarrow> 'r \<Rightarrow> bool) \<Rightarrow>
    (cell list \<Rightarrow> 'r \<Rightarrow> 'v) \<Rightarrow> (cell list \<Rightarrow> 'r \<Rightarrow> addr set) \<Rightarrow> (addr option \<Rightarrow> (cell, addr option) prog) \<Rightarrow> bool" where
  "deep_pointer is un V A F copy \<longleftrightarrow>
     deep_copy (valid_opt (valid_ptr is un V)) (\<lambda>h. map_option (\<lambda>a. A h (un (h ! a)))) (foot_opt (foot_ptr un F)) copy"

lemma deep_pointerI:
  assumes "deep_copy V A F into" and "\<And>v. un (K v) = v" and "\<And>v. is (K v)"
  shows "deep_pointer is un V A F (copy_opt (new_copy K un zero into))"
  unfolding deep_pointer_def by (rule deep_copy_opt, rule deep_copy_ptr) (use assms in auto)

lemma plain_copies:
  "deep_copy (\<lambda>_ _. True) (\<lambda>_ v. v) (\<lambda>_ _. {}) VolumeClaim_DeepCopyInto"
  "deep_copy (\<lambda>_ _. True) (\<lambda>_ v. v) (\<lambda>_ _. {}) InternalServicesConfigStatus_DeepCopyInto"
  unfolding VolumeClaim_DeepCopyInto_def[abs_def] InternalServicesConfigStatus_DeepCopyInto_def[abs_def]
  by (rule deep_copy_value)+

lemmas DeepCopy_defs = PipelineRef_DeepCopy_def Pipeline_DeepCopy_def ParameterizedPipeline_DeepCopy_def
  new_ParameterizedPipeline_def InternalRequestSpec_DeepCopy_def InternalRequestStatus_DeepCopy_def
  InternalRequest_DeepCopy_def InternalRequestList_DeepCopy_def VolumeClaim_DeepCopy_def
  InternalServicesConfigSpec_DeepCopy_def InternalServicesConfigStatus_DeepCopy_def
  InternalServicesConfig_DeepCopy_def InternalServicesConfigList_DeepCopy_def

text \<open>
  C17: every generated \<open>DeepCopy\<close> is a deep copy. For each of the twelve types, copying a
  well-typed pointer (or nil) leaves all existing memory as it is and yields a well-typed
  pointer (or nil) that stands for the same value and reaches newly allocated memory only,
  provided the copies of the embedded apimachinery and Tekton structs do.
\<close>

theorem generated_copies_are_deep:
  assumes "copier_api P"
  shows "deep_pointer is_RequestCell the_request valid_InternalRequest abs_InternalRequest foot_InternalRequest
      (InternalRequest_DeepCopy P) \<and>
    deep_pointer is_RequestListCell the_requestList valid_InternalRequestList abs_InternalRequestList
      foot_InternalRequestList (InternalRequestList_DeepCopy P) \<and>
    deep_pointer is_SpecCell the_spec valid_InternalRequestSpec abs_InternalRequestSpec foot_InternalRequestSpec
      (InternalRequestSpec_DeepCopy P) \<and>
    deep_pointer is_StatusCell the_status valid_InternalRequestStatus abs_InternalRequestStatus
      foot_InternalRequestStatus (InternalRequestStatus_DeepCopy P) \<and>
    deep_pointer is_ConfigCell the_config valid_InternalServicesConfig abs_InternalServicesConfig
      foot_InternalServicesConfig (InternalServicesConfig_DeepCopy P) \<and>
    deep_pointer is_ConfigListCell the_configList valid_InternalServicesConfigList abs_InternalServicesConfigList
      foot_InternalServicesConfigList (InternalServicesConfigList_DeepCopy P) \<and>
    deep_pointer is_ConfigSpecCell the_configSpec valid_InternalServicesConfigSpec abs_InternalServicesConfigSpec
      foot_InternalServicesConfigSpec InternalServicesConfigSpec_DeepCopy \<and>
    deep_pointer is_ConfigStatusCell the_configStatus (\<lambda>_ _. True) (\<lambda>_ v. v) (\<lambda>_ _. {})
      InternalServicesConfigStatus_DeepCopy \<and>
    deep_pointer is_VolumeClaimCell the_volumeClaim (\<lambda>_ _. True) (\<lambda>_ v. v) (\<lambda>_ _. {}) VolumeClaim_DeepCopy \<and>
    deep_pointer is_ParameterizedPipelineCell the_parameterized valid_ParameterizedPipeline
      abs_ParameterizedPipeline foot_ParameterizedPipeline (ParameterizedPipeline_DeepCopy P) \<and>
    deep_pointer is_PipelineCell the_pipeline valid_Pipeline abs_Pipeline foot_Pipeline (Pipeline_DeepCopy P) \<and>
    deep_pointer is_PipelineRefCell the_pipelineRef valid_PipelineRef abs_PipelineRef foot_PipelineRef
      PipelineRef_DeepCopy"
  unfolding DeepCopy_defs
  by (intro conjI deep_pointerI copy_PipelineRef copy_InternalServicesConfigSpec plain_copies
      copier_api.copy_InternalRequest[OF assms] copier_api.copy_InternalRequestList[OF assms]
      copier_api.copy_InternalRequestSpec[OF assms] copier_api.copy_InternalRequestStatus[OF assms]
      copier_api.copy_InternalServicesConfig[OF assms] copier_api.copy_InternalServicesConfigList[OF assms]
      copier_api.copy_ParameterizedPipeline[OF assms] copier_api.copy_Pipeline[OF assms]) simp_all

section \<open>Isolation\<close>

text \<open>Writes through pointers, in order.\<close>

definition write_all :: "(addr \<times> cell) list \<Rightarrow> cell list \<Rightarrow> cell list" where
  "write_all ws h = fold (\<lambda>(a, c) h. h[a := c]) ws h"

lemma length_write_all [simp]: "length (write_all ws h) = length h"
  unfolding write_all_def by (induction ws arbitrary: h) auto

lemma write_all_other: "b \<notin> fst ` set ws \<Longrightarrow> write_all ws h ! b = h ! b"
  unfolding write_all_def by (induction ws arbitrary: h) auto

abbreviation request_at :: "cell list \<Rightarrow> addr \<Rightarrow> InternalRequest" where
  "request_at h a \<equiv> abs_InternalRequest h (the_request (h ! a))"

abbreviation request_pointer :: "cell list \<Rightarrow> addr \<Rightarrow> bool" where
  "request_pointer \<equiv> valid_ptr is_RequestCell the_request valid_InternalRequest"

lemma request_pointer_deep:
  assumes "copier_api P"
  shows "deep_copy request_pointer request_at (foot_ptr the_request foot_InternalRequest)
    (new_copy RequestCell the_request mem_zero_InternalRequest (InternalRequest_DeepCopyInto P))"
  by (rule deep_copy_ptr[OF copier_api.copy_InternalRequest[OF assms]]) simp_all

lemma InternalRequest_DeepCopy_Some:
  "run_state (InternalRequest_DeepCopy P (Some a)) h = (Some b, h') \<longleftrightarrow>
     run_state (new_copy RequestCell the_request mem_zero_InternalRequest (InternalRequest_DeepCopyInto P) a) h = (b, h')"
  by (simp add: InternalRequest_DeepCopy_def copy_opt_def split: prod.splits)

text \<open>
  C25: the base of a patch is a snapshot. After \<open>request.DeepCopy()\<close>, writes to any memory
  but that of the copy leave the copy's value at what the request was, and writes to any
  memory that is newer than the copy, the copy itself included, leave the request's value.
\<close>

theorem deep_copy_is_snapshot:
  assumes "copier_api P" and "request_pointer h a"
    and "run_state (InternalRequest_DeepCopy P (Some a)) h = (Some b, h')"
    and "fst ` set ws \<inter> {length h..<length h'} = {}" and "fst ` set vs \<inter> {..<length h} = {}"
  shows "request_at (write_all ws h') b = request_at h a \<and> request_at (write_all vs h') a = request_at h a"
proof -
  note d = request_pointer_deep[OF assms(1)] and r = assms(3)[unfolded InternalRequest_DeepCopy_Some]
  have "request_at (write_all ws h') b = request_at h a"
    using assms(4) by (intro deep_copy.copy_isolated(2)[OF d assms(2) r]) (auto intro!: write_all_other)
  moreover have "request_at (write_all vs h') a = request_at h a"
    using assms(5) by (intro deep_copy.original_isolated(2)[OF d assms(2) r]) (auto intro!: write_all_other)
  ultimately show ?thesis ..
qed

text \<open>
  \<open>DeepCopyObject\<close> of a nil pointer is the nil interface, never an interface that holds a nil
  pointer.
\<close>

lemma copy_object_cases:
  assumes "copy = copy_opt f"
  shows "run_state (copy_object wrap copy None) h = (NilObject, h) \<and>
    (\<exists>b h'. run_state (copy_object wrap copy (Some a)) h = (wrap (Some b), h') \<and> run_state (copy (Some a)) h = (Some b, h'))"
  by (cases "run_state (f a) h") (simp add: assms copy_object_def copy_opt_def)

lemmas DeepCopyObject_defs = InternalRequest_DeepCopyObject_def InternalRequestList_DeepCopyObject_def
  InternalServicesConfig_DeepCopyObject_def InternalServicesConfigList_DeepCopyObject_def

lemma deep_copy_object_nil:
  "(run_state (InternalRequest_DeepCopyObject P None) h = (NilObject, h) \<and>
     (\<exists>b h'. run_state (InternalRequest_DeepCopyObject P (Some a)) h = (RequestObject (Some b), h') \<and>
       run_state (InternalRequest_DeepCopy P (Some a)) h = (Some b, h'))) \<and>
   (run_state (InternalRequestList_DeepCopyObject P None) h = (NilObject, h) \<and>
     (\<exists>b h'. run_state (InternalRequestList_DeepCopyObject P (Some a)) h = (RequestListObject (Some b), h') \<and>
       run_state (InternalRequestList_DeepCopy P (Some a)) h = (Some b, h'))) \<and>
   (run_state (InternalServicesConfig_DeepCopyObject P None) h = (NilObject, h) \<and>
     (\<exists>b h'. run_state (InternalServicesConfig_DeepCopyObject P (Some a)) h = (ConfigObject (Some b), h') \<and>
       run_state (InternalServicesConfig_DeepCopy P (Some a)) h = (Some b, h'))) \<and>
   (run_state (InternalServicesConfigList_DeepCopyObject P None) h = (NilObject, h) \<and>
     (\<exists>b h'. run_state (InternalServicesConfigList_DeepCopyObject P (Some a)) h = (ConfigListObject (Some b), h') \<and>
       run_state (InternalServicesConfigList_DeepCopy P (Some a)) h = (Some b, h')))"
  unfolding DeepCopyObject_defs
  by (intro conjI copy_object_cases[THEN conjunct1] copy_object_cases[THEN conjunct2])
    (simp_all only: InternalRequest_DeepCopy_def InternalRequestList_DeepCopy_def
      InternalServicesConfig_DeepCopy_def InternalServicesConfigList_DeepCopy_def)

end
