(* ===== verification/Api_Registration.thy ===== *)
theory Api_Registration
  imports Api_Objects
begin

text \<open>
  \<open>api/v1alpha1/groupversion_info.go\<close>, the \<open>init\<close> functions of the API types and \<open>init\<close> of
  \<open>main.go\<close>: how the types get into the scheme the clients decode with. Schemes and the
  builder of apimachinery are an interface; a type is given by its Go name.
\<close>

section \<open>apimachinery's schemes\<close>

record GroupVersionId =
  gv_Group :: string
  gv_Version :: string

text \<open>
  A builder holds functions that add types to a scheme; a scheme is a value of the type \<open>'s\<close>.
\<close>

type_synonym 's adder = "'s \<Rightarrow> go_error option \<times> 's"

record ('s, 'b) scheme_ops =
  NewScheme :: 's
  AddKnownTypes :: "GroupVersionId \<Rightarrow> string list \<Rightarrow> 's \<Rightarrow> 's"
  AddToGroupVersion :: "GroupVersionId \<Rightarrow> 's \<Rightarrow> 's"
  Recognizes :: "'s \<Rightarrow> GroupVersionId \<Rightarrow> string \<Rightarrow> bool"
  NewBuilder :: 'b
  BuilderRegister :: "'s adder \<Rightarrow> 'b \<Rightarrow> 'b"
  BuilderAddToScheme :: "'b \<Rightarrow> 's adder"
  clientgo_AddToScheme :: "'s adder"
  tekton_AddToScheme :: "'s adder"

text \<open>
  What the program relies on. Known types stay known; a builder calls its functions in the
  order they were registered and stops at the first error.
\<close>

locale scheme_api =
  fixes S :: "('s, 'b) scheme_ops"
  assumes known: "Recognizes S (AddKnownTypes S gv ts s) gv' t \<longleftrightarrow> Recognizes S s gv' t \<or> gv' = gv \<and> t \<in> set ts"
    and group_keeps: "Recognizes S s gv' t \<Longrightarrow> Recognizes S (AddToGroupVersion S gv s) gv' t"
    and builder_empty: "BuilderAddToScheme S (NewBuilder S) s = (None, s)"
    and builder_snoc: "BuilderAddToScheme S (BuilderRegister S f b) s =
      (case BuilderAddToScheme S b s of (None, s') \<Rightarrow> f s' | (Some e, s') \<Rightarrow> (Some e, s'))"

section \<open>The API group\<close>

definition GroupVersion :: GroupVersionId where
  "GroupVersion = \<lparr>gv_Group = ''appstudio.redhat.com'', gv_Version = ''v1alpha1''\<rparr>"

definition Register :: "('s, 'b) scheme_ops \<Rightarrow> string list \<Rightarrow> 'b \<Rightarrow> 'b" where
  "Register S objects bld =
     BuilderRegister S
       (\<lambda>scheme. (None, AddToGroupVersion S GroupVersion (AddKnownTypes S GroupVersion objects scheme))) bld"

text \<open>The \<open>init\<close> functions of the two files of types; Go runs them in the order of the file names.\<close>

definition internalrequest_init :: "('s, 'b) scheme_ops \<Rightarrow> 'b \<Rightarrow> 'b" where
  "internalrequest_init S = Register S [''InternalRequest'', ''InternalRequestList'']"

definition internalservicesconfig_init :: "('s, 'b) scheme_ops \<Rightarrow> 'b \<Rightarrow> 'b" where
  "internalservicesconfig_init S = Register S [''InternalServicesConfig'', ''InternalServicesConfigList'']"

definition SchemeBuilder :: "('s, 'b) scheme_ops \<Rightarrow> 'b" where
  "SchemeBuilder S = internalservicesconfig_init S (internalrequest_init S (NewBuilder S))"

text \<open>
  \<open>AddToScheme\<close> is bound to the builder before the \<open>init\<close> functions run, but through a pointer:
  when it is called it sees the types they registered.
\<close>

definition AddToScheme :: "('s, 'b) scheme_ops \<Rightarrow> 's adder" where
  "AddToScheme S = BuilderAddToScheme S (SchemeBuilder S)"

section \<open>The scheme of the operator\<close>

definition Must :: "go_error option \<times> 's \<Rightarrow> 's go" where
  "Must r = (case r of (None, s) \<Rightarrow> Ret s | (Some (Error e), s) \<Rightarrow> Panic e)"

definition main_init :: "('s, 'b) scheme_ops \<Rightarrow> 's go" where
  "main_init S =
     (case Must (clientgo_AddToScheme S (NewScheme S)) of
        Panic e \<Rightarrow> Panic e
      | Ret s \<Rightarrow>
          (case Must (tekton_AddToScheme S s) of
             Panic e \<Rightarrow> Panic e
           | Ret s \<Rightarrow> Must (AddToScheme S s)))"

lemma Must_simps [simp]: "Must (None, s) = Ret s" "Must (Some (Error e), s) = Panic e"
  by (simp_all add: Must_def)

lemma Must_Ret: "Must r = Ret s \<longleftrightarrow> r = (None, s)"
  by (auto simp: Must_def split: prod.splits option.splits go_error.splits)

definition api_kinds :: "string list" where
  "api_kinds = [''InternalRequest'', ''InternalRequestList'', ''InternalServicesConfig'', ''InternalServicesConfigList'']"

context scheme_api
begin

lemma AddToScheme_run:
  "AddToScheme S s = (None,
     AddToGroupVersion S GroupVersion (AddKnownTypes S GroupVersion [''InternalServicesConfig'', ''InternalServicesConfigList'']
       (AddToGroupVersion S GroupVersion (AddKnownTypes S GroupVersion [''InternalRequest'', ''InternalRequestList''] s))))"
  by (simp add: AddToScheme_def SchemeBuilder_def internalrequest_init_def internalservicesconfig_init_def
      Register_def builder_snoc builder_empty)

lemma AddToScheme_recognizes:
  assumes "AddToScheme S s = (err, s')"
  shows "err = None" "t \<in> set api_kinds \<Longrightarrow> Recognizes S s' GroupVersion t"
    "Recognizes S s gv t \<Longrightarrow> Recognizes S s' gv t"
  using assms by (auto simp: AddToScheme_run api_kinds_def known intro!: group_keeps)

end

text \<open>
  C26: the operator can decode its API. Whatever the schemes of client-go and Tekton hold, if
  adding them reports no error then start-up builds a scheme that knows all four kinds of
  the group \<open>appstudio.redhat.com/v1alpha1\<close> and everything known before; if one of them
  reports an error, start-up panics with it.
\<close>

theorem scheme_knows_api:
  assumes "scheme_api S"
  shows "(\<forall>s1 s2. clientgo_AddToScheme S (NewScheme S) = (None, s1) \<and> tekton_AddToScheme S s1 = (None, s2) \<longrightarrow>
      (\<exists>s. main_init S = Ret s \<and> list_all (Recognizes S s GroupVersion) api_kinds \<and>
         (\<forall>gv t. Recognizes S s2 gv t \<longrightarrow> Recognizes S s gv t))) \<and>
    (\<forall>s1 e. clientgo_AddToScheme S (NewScheme S) = (Some (Error e), s1) \<longrightarrow> main_init S = Panic e) \<and>
    (\<forall>s1 s2 e. clientgo_AddToScheme S (NewScheme S) = (None, s1) \<and> tekton_AddToScheme S s1 = (Some (Error e), s2) \<longrightarrow>
       main_init S = Panic e)"
proof -
  have "\<exists>s. main_init S = Ret s \<and> list_all (Recognizes S s GroupVersion) api_kinds \<and>
      (\<forall>gv t. Recognizes S s2 gv t \<longrightarrow> Recognizes S s gv t)"
    if "clientgo_AddToScheme S (NewScheme S) = (None, s1)" "tekton_AddToScheme S s1 = (None, s2)" for s1 s2
  proof -
    obtain err s where s: "AddToScheme S s2 = (err, s)" by fastforce
    note r = scheme_api.AddToScheme_recognizes[OF assms s]
    from r(1) s that have "main_init S = Ret s" by (simp add: main_init_def)
    with r(2,3) show ?thesis by (auto simp: list_all_iff)
  qed
  then show ?thesis by (auto simp: main_init_def)
qed

end
