(* ===== verification/Metrics_Registration.thy ===== *)
theory Metrics_Registration
  imports Metrics "HOL-Library.Char_ord"
begin

text \<open>
  The collectors of \<open>metrics/internalrequest.go\<close> and their registration in \<open>init\<close>. The
  registry of controller-runtime is an interface: it panics on a collector it cannot take.
\<close>

section \<open>The collectors\<close>

datatype collector =
    NewGauge (col_Name: string) (col_Help: string)
  | NewHistogramVec (col_Name: string) (col_Help: string) (col_Buckets: "int list") (col_Labels: "string list")
  | NewCounterVec (col_Name: string) (col_Help: string) (col_Labels: "string list")

definition InternalRequestAttemptConcurrentTotal :: collector where
  "InternalRequestAttemptConcurrentTotal =
     NewGauge ''internal_request_attempt_concurrent_requests'' ''Total number of concurrent InternalRequest attempts''"

definition InternalRequestAttemptDurationSeconds :: collector where
  "InternalRequestAttemptDurationSeconds =
     NewHistogramVec ''internal_request_attempt_duration_seconds''
       ''Time from the moment the InternalRequest starts being processed until it completes''
       duration_buckets [''request'', ''namespace'', ''reason'', ''succeeded'']"

definition InternalRequestAttemptTotal :: collector where
  "InternalRequestAttemptTotal =
     NewCounterVec ''internal_request_attempt_total'' ''Total number of InternalRequests processed by the operator''
       [''request'', ''namespace'', ''reason'', ''succeeded'']"

section \<open>Registration\<close>

text \<open>\<open>MustRegister\<close> takes the collectors one by one; \<open>Registered\<close> tells which metric names are taken.\<close>

record 'r registry_ops =
  MustRegister :: "collector list \<Rightarrow> 'r \<Rightarrow> unit go \<times> 'r"
  Registered :: "'r \<Rightarrow> string \<Rightarrow> bool"

definition metrics_init :: "'r registry_ops \<Rightarrow> 'r \<Rightarrow> unit go \<times> 'r" where
  "metrics_init R registry =
     MustRegister R
       [InternalRequestAttemptConcurrentTotal, InternalRequestAttemptDurationSeconds, InternalRequestAttemptTotal]
       registry"

text \<open>
  What Prometheus takes: names of letters, digits, underscores and colons that do not start with
  a digit; distinct names of labels, which have no colons, are not reserved and, in a histogram,
  do not clash with the label of its buckets; strictly increasing buckets.
\<close>

definition char_between :: "char \<Rightarrow> char \<Rightarrow> char \<Rightarrow> bool" where
  "char_between lo hi c \<longleftrightarrow> lo \<le> c \<and> c \<le> hi"

definition name_char :: "char \<Rightarrow> bool" where
  "name_char c \<longleftrightarrow> c = CHR ''_'' \<or> char_between (CHR ''a'') (CHR ''z'') c \<or> char_between (CHR ''A'') (CHR ''Z'') c"

definition digit_char :: "char \<Rightarrow> bool" where
  "digit_char = char_between (CHR ''0'') (CHR ''9'')"

fun metric_name :: "string \<Rightarrow> bool" where
  "metric_name [] = False"
| "metric_name (c # cs) =
     ((name_char c \<or> c = CHR '':'') \<and> list_all (\<lambda>d. name_char d \<or> digit_char d \<or> d = CHR '':'') cs)"

fun label_name :: "string \<Rightarrow> bool" where
  "label_name [] = False"
| "label_name (c # cs) =
     (name_char c \<and> list_all (\<lambda>d. name_char d \<or> digit_char d) cs \<and> take 2 (c # cs) \<noteq> ''__'')"

fun acceptable :: "collector \<Rightarrow> bool" where
  "acceptable (NewGauge n h) = metric_name n"
| "acceptable (NewHistogramVec n h bs ls) =
     (metric_name n \<and> distinct ls \<and> list_all label_name ls \<and> ''le'' \<notin> set ls \<and> sorted_wrt (<) bs)"
| "acceptable (NewCounterVec n h ls) = (metric_name n \<and> distinct ls \<and> list_all label_name ls)"

locale registry_api =
  fixes R :: "'r registry_ops"
  assumes register_nil: "MustRegister R [] r = (Ret (), r)"
    and register_taken: "acceptable c \<Longrightarrow> \<not> Registered R r (col_Name c) \<Longrightarrow>
      \<exists>r'. MustRegister R (c # cs) r = MustRegister R cs r' \<and> (\<forall>n. Registered R r' n \<longleftrightarrow> Registered R r n \<or> n = col_Name c)"
    and register_refused: "Registered R r (col_Name c) \<Longrightarrow> \<exists>e. MustRegister R (c # cs) r = (Panic e, r)"
begin

lemma register_all:
  "list_all acceptable cs \<Longrightarrow> distinct (map col_Name cs) \<Longrightarrow> (\<forall>c\<in>set cs. \<not> Registered R r (col_Name c)) \<Longrightarrow>
    \<exists>r'. MustRegister R cs r = (Ret (), r') \<and> (\<forall>n. Registered R r' n \<longleftrightarrow> Registered R r n \<or> n \<in> col_Name ` set cs)"
proof (induction cs arbitrary: r)
  case Nil
  then show ?case by (simp add: register_nil)
next
  case (Cons c cs)
  obtain s where s: "MustRegister R (c # cs) r = MustRegister R cs s"
    "\<forall>n. Registered R s n \<longleftrightarrow> Registered R r n \<or> n = col_Name c"
    using register_taken[of c r cs] Cons.prems by auto
  have "\<forall>d\<in>set cs. \<not> Registered R s (col_Name d)"
    using Cons.prems s(2) by (metis distinct.simps(2) image_eqI list.set_intros(2) list.set_map list.simps(9))
  then obtain r' where "MustRegister R cs s = (Ret (), r')"
    "\<forall>n. Registered R r' n \<longleftrightarrow> Registered R s n \<or> n \<in> col_Name ` set cs"
    using Cons.IH[of s] Cons.prems by auto
  with s show ?case by auto
qed

end

section \<open>The operator's collectors can be registered\<close>

definition metric_names :: "string list" where
  "metric_names = [''internal_request_attempt_concurrent_requests'', ''internal_request_attempt_duration_seconds'',
     ''internal_request_attempt_total'']"

lemmas collector_defs =
  InternalRequestAttemptConcurrentTotal_def InternalRequestAttemptDurationSeconds_def InternalRequestAttemptTotal_def

lemma collectors_acceptable:
  "acceptable InternalRequestAttemptConcurrentTotal" "acceptable InternalRequestAttemptDurationSeconds"
  "acceptable InternalRequestAttemptTotal"
  by (simp_all add: collector_defs name_char_def char_between_def duration_buckets_def less_eq_char_def)

text \<open>
  \<open>init\<close> registers the three metrics and does not panic, provided nobody has taken their names;
  so it can run once per registry.
\<close>

lemma metrics_init_registers:
  assumes "registry_api R" and "\<forall>n\<in>set metric_names. \<not> Registered R r n"
  shows "\<exists>r'. metrics_init R r = (Ret (), r') \<and> (\<forall>n. Registered R r' n \<longleftrightarrow> Registered R r n \<or> n \<in> set metric_names)"
  using registry_api.register_all[OF assms(1), of
      "[InternalRequestAttemptConcurrentTotal, InternalRequestAttemptDurationSeconds, InternalRequestAttemptTotal]" r]
    assms(2) collectors_acceptable
  by (simp add: metrics_init_def metric_names_def) (simp add: collector_defs)

lemma metrics_init_twice_panics:
  assumes "registry_api R" and "metrics_init R r = (Ret (), r')" and "\<forall>n\<in>set metric_names. \<not> Registered R r n"
  shows "\<exists>e. metrics_init R r' = (Panic e, r')"
proof -
  have "Registered R r' (col_Name InternalRequestAttemptConcurrentTotal)"
    using metrics_init_registers[OF assms(1,3)] assms(2) by (auto simp: metric_names_def collector_defs)
  then show ?thesis using registry_api.register_refused[OF assms(1)] by (simp add: metrics_init_def)
qed

end
