(* ===== verification/Startup.thy ===== *)
theory Startup
  imports Run_Shape
begin

text \<open>
  \<open>main.go\<close>: the flags with their defaults, the options of the manager, and the order in which
  the operator is put together. Managers, clusters and client configurations are values of
  controller-runtime and client-go; the calls on them are the fields of \<open>platform\<close>, with the
  error they may report. \<open>os.Exit(1)\<close> ends the program, so every failure is a result.
\<close>

section \<open>Flags\<close>

text \<open>Durations are nanoseconds, as \<open>time.Duration\<close>.\<close>

definition Second :: int where
  "Second = 1000000000"

record flags =
  metricsAddr :: string
  probeAddr :: string
  enableLeaderElection :: bool
  enableLeaderElectionId :: string
  leaderRenewDeadline :: int
  leaseDuration :: int
  leaderElectorRetryPeriod :: int
  remoteClusterConfigFile :: string

definition default_flags :: flags where
  "default_flags =
     \<lparr>metricsAddr = '':8080'', probeAddr = '':8081'', enableLeaderElection = False,
      enableLeaderElectionId = ''b548bb9d.redhat.com'', leaderRenewDeadline = 60 * Second,
      leaseDuration = 90 * Second, leaderElectorRetryPeriod = 10 * Second, remoteClusterConfigFile = []\<rparr>"

record 's manager_options =
  mo_Scheme :: 's
  mo_MetricsBindAddress :: string
  mo_WebhookPort :: int
  mo_HealthProbeBindAddress :: string
  mo_LeaderElection :: bool
  mo_LeaderElectionID :: string
  mo_LeaseDuration :: int
  mo_RenewDeadline :: int
  mo_RetryPeriod :: int
  mo_PipelineRunLabels :: smap

definition managerOptions :: "'s \<Rightarrow> flags \<Rightarrow> 's manager_options" where
  "managerOptions scheme fl =
     \<lparr>mo_Scheme = scheme,
      mo_MetricsBindAddress = metricsAddr fl, mo_WebhookPort = 9443, mo_HealthProbeBindAddress = probeAddr fl,
      mo_LeaderElection = enableLeaderElection fl, mo_LeaderElectionID = enableLeaderElectionId fl,
      mo_LeaseDuration = leaseDuration fl, mo_RenewDeadline = leaderRenewDeadline fl,
      mo_RetryPeriod = leaderElectorRetryPeriod fl, mo_PipelineRunLabels = cacheSelector\<rparr>"

section \<open>The platform\<close>

text \<open>\<open>controllers.EnabledControllers\<close>\<close>

datatype controller = InternalRequestReconciler

definition EnabledControllers :: "controller list" where
  "EnabledControllers = [InternalRequestReconciler]"

text \<open>
  A call that changes the manager returns it changed. \<open>GetConfigOrDie\<close> ends the program itself
  when it finds no configuration.
\<close>

record ('s, 'rest, 'conf, 'mgr, 'cluster) platform =
  GetConfigOrDie :: "go_error + 'rest"
  NewManager :: "'rest \<Rightarrow> 's manager_options \<Rightarrow> go_error + 'mgr"
  ReadFile :: "string \<Rightarrow> go_error + string"
  NewClientConfigFromBytes :: "string \<Rightarrow> go_error + 'conf"
  ClientConfig :: "'conf \<Rightarrow> go_error + 'rest"
  NewCluster :: "'rest \<Rightarrow> 's \<Rightarrow> go_error + 'cluster"
  MgrAdd :: "'mgr \<Rightarrow> 'cluster \<Rightarrow> go_error option \<times> 'mgr"
  SetupControllers :: "'mgr \<Rightarrow> 'cluster \<Rightarrow> controller list \<Rightarrow> go_error option \<times> 'mgr"
  AddHealthzCheck :: "'mgr \<Rightarrow> string \<Rightarrow> go_error option \<times> 'mgr"
  AddReadyzCheck :: "'mgr \<Rightarrow> string \<Rightarrow> go_error option \<times> 'mgr"
  MgrStart :: "'mgr \<Rightarrow> go_error option"

text \<open>How the program ends: the message it logged before \<open>os.Exit(1)\<close>, or a normal return.\<close>

datatype ending = ExitFailure string | Returned

text \<open>A step that may end the program.\<close>

type_synonym 'a step = "string + 'a"

section \<open>Start-up\<close>

definition getRemoteClusterClientConfig :: "('s, 'rest, 'conf, 'mgr, 'cluster) platform \<Rightarrow> string \<Rightarrow> go_error + 'rest" where
  "getRemoteClusterClientConfig P configFile =
     (case ReadFile P configFile of
        Inl err \<Rightarrow> Inl err
      | Inr data \<Rightarrow>
          (case NewClientConfigFromBytes P data of
             Inl err \<Rightarrow> Inl err
           | Inr clientConfig \<Rightarrow> ClientConfig P clientConfig))"

text \<open>The cluster, and the manager with the cluster added to it.\<close>

definition setupRemoteCluster ::
    "('s, 'rest, 'conf, 'mgr, 'cluster) platform \<Rightarrow> 's \<Rightarrow> 'mgr \<Rightarrow> string \<Rightarrow> go_error + 'cluster \<times> 'mgr" where
  "setupRemoteCluster P scheme mgr configFile =
     (case getRemoteClusterClientConfig P configFile of
        Inl err \<Rightarrow> Inl err
      | Inr config \<Rightarrow>
          (case NewCluster P config scheme of
             Inl err \<Rightarrow> Inl err
           | Inr remoteCluster \<Rightarrow>
               (case MgrAdd P mgr remoteCluster of
                  (Some err, _) \<Rightarrow> Inl err
                | (None, mgr') \<Rightarrow> Inr (remoteCluster, mgr'))))"

definition setupControllers :: "('s, 'rest, 'conf, 'mgr, 'cluster) platform \<Rightarrow> 'mgr \<Rightarrow> 'cluster \<Rightarrow> 'mgr step" where
  "setupControllers P mgr remoteCluster =
     (case SetupControllers P mgr remoteCluster EnabledControllers of
        (Some err, _) \<Rightarrow> Inl ''unable to setup controllers''
      | (None, mgr') \<Rightarrow> Inr mgr')"

definition addHealthAndReadyChecks :: "('s, 'rest, 'conf, 'mgr, 'cluster) platform \<Rightarrow> 'mgr \<Rightarrow> 'mgr step" where
  "addHealthAndReadyChecks P mgr =
     (case AddHealthzCheck P mgr ''healthz'' of
        (Some err, _) \<Rightarrow> Inl ''unable to set up health check''
      | (None, mgr') \<Rightarrow>
          (case AddReadyzCheck P mgr' ''readyz'' of
             (Some err, _) \<Rightarrow> Inl ''unable to set up ready check''
           | (None, mgr'') \<Rightarrow> Inr mgr''))"

text \<open>
  \<open>main\<close>, given the package variable \<open>scheme\<close> as \<open>init\<close> left it: the manager that was started, if
  any, and how the program ends.
\<close>

definition main :: "('s, 'rest, 'conf, 'mgr, 'cluster) platform \<Rightarrow> 's \<Rightarrow> flags \<Rightarrow> 'mgr option \<times> ending" where
  "main P scheme fl =
     (case GetConfigOrDie P of
        Inl err \<Rightarrow> (None, ExitFailure ''unable to get kubeconfig'')
      | Inr config \<Rightarrow>
          (case NewManager P config (managerOptions scheme fl) of
             Inl err \<Rightarrow> (None, ExitFailure ''unable to start manager'')
           | Inr mgr \<Rightarrow>
               (case setupRemoteCluster P scheme mgr (remoteClusterConfigFile fl) of
                  Inl err \<Rightarrow> (None, ExitFailure ''unable to register remote cluster'')
                | Inr (remoteCluster, mgr) \<Rightarrow>
                    (case setupControllers P mgr remoteCluster of
                       Inl msg \<Rightarrow> (None, ExitFailure msg)
                     | Inr mgr \<Rightarrow>
                         (case addHealthAndReadyChecks P mgr of
                            Inl msg \<Rightarrow> (None, ExitFailure msg)
                          | Inr mgr \<Rightarrow>
                              (case MgrStart P mgr of
                                 Some err \<Rightarrow> (Some mgr, ExitFailure ''problem running manager'')
                               | None \<Rightarrow> (Some mgr, Returned)))))))"

section \<open>Properties\<close>

definition assembled :: "('s, 'rest, 'conf, 'mgr, 'cluster) platform \<Rightarrow> 's \<Rightarrow> flags \<Rightarrow> 'mgr \<Rightarrow> bool" where
  "assembled P scheme fl mgr \<longleftrightarrow>
     (\<exists>config m0 bytes cc remote cluster m1 m2 m3.
        GetConfigOrDie P = Inr config \<and> NewManager P config (managerOptions scheme fl) = Inr m0 \<and>
        ReadFile P (remoteClusterConfigFile fl) = Inr bytes \<and> NewClientConfigFromBytes P bytes = Inr cc \<and>
        ClientConfig P cc = Inr remote \<and> NewCluster P remote scheme = Inr cluster \<and> MgrAdd P m0 cluster = (None, m1) \<and>
        SetupControllers P m1 cluster [InternalRequestReconciler] = (None, m2) \<and>
        AddHealthzCheck P m2 ''healthz'' = (None, m3) \<and> AddReadyzCheck P m3 ''readyz'' = (None, mgr))"

lemmas setup_defs = main_def setupRemoteCluster_def getRemoteClusterClientConfig_def setupControllers_def
  addHealthAndReadyChecks_def EnabledControllers_def

lemma main_assembled:
  "fst (main P scheme fl) = Some mgr \<longleftrightarrow> assembled P scheme fl mgr"
  by (auto simp: assembled_def setup_defs split: sum.splits prod.splits option.splits)

lemma main_ending:
  "snd (main P scheme fl) = Returned \<longleftrightarrow> (\<exists>mgr. fst (main P scheme fl) = Some mgr \<and> MgrStart P mgr = None)"
  by (auto simp: setup_defs split: sum.splits prod.splits option.splits)


text \<open>
  C38: the configuration file of the remote cluster is not optional. Without the flag the file
  name is empty, and as reading the empty name fails the program ends with \<open>os.Exit(1)\<close> and
  starts nothing.
\<close>

theorem remote_config_required:
  assumes "ReadFile P [] = Inl e" and "remoteClusterConfigFile fl = remoteClusterConfigFile default_flags"
  shows "fst (main P scheme fl) = None \<and> (\<exists>msg. snd (main P scheme fl) = ExitFailure msg)"
proof -
  have none: "fst (main P scheme fl) = None"
    using assms by (auto simp: setup_defs default_flags_def split: sum.splits)
  then have "snd (main P scheme fl) \<noteq> Returned" by (simp add: main_ending)
  with none show ?thesis by (meson ending.exhaust)
qed

text \<open>
  The default durations of leader election are as the comment in \<open>main.go\<close> asks: half the
  renew deadline, the timeout of a call, is longer than a stall of 25 seconds; the lease
  outlives the renew deadline, and the renew deadline a retry with its jitter of 1.2.
\<close>

lemma leader_election_defaults:
  "25 * Second < leaderRenewDeadline default_flags div 2"
  "leaderRenewDeadline default_flags < leaseDuration default_flags"
  "12 * leaderElectorRetryPeriod default_flags < 10 * leaderRenewDeadline default_flags"
  by (simp_all add: default_flags_def Second_def)

end
