(* ===== verification/Platform_Reference.thy ===== *)
theory Platform_Reference
  imports Reference Copy_Properties Api_Registration Metrics_Registration Startup Watches
begin

text \<open>
  Reference implementations of the interfaces of start-up, watches and memory, for concrete
  instances of the theorems about them.
\<close>

section \<open>Copies\<close>

definition clone :: "addr \<Rightarrow> ('c, addr) prog" where
  "clone a = do { c \<leftarrow> load a; alloc c }"

lemma deep_copy_clone: "deep_copy (valid_leaf is) (\<lambda>h a. un (h ! a)) foot_leaf clone"
  by (rule deep_copy_leaf) (simp add: clone_def)

definition ref_copy_ObjectMeta :: "mem_ObjectMeta \<Rightarrow> (cell, mem_ObjectMeta) prog" where
  "ref_copy_ObjectMeta m = do {
     labels \<leftarrow> copy_opt clone (mo_Labels m);
     annotations \<leftarrow> copy_opt clone (mo_Annotations m);
     finalizers \<leftarrow> copy_opt clone (mo_Finalizers m);
     deletion \<leftarrow> copy_opt clone (mo_DeletionTimestamp m);
     State_Monad.return (m\<lparr>mo_Labels := labels, mo_Annotations := annotations, mo_Finalizers := finalizers,
       mo_DeletionTimestamp := deletion\<rparr>)
   }"

definition ref_copy_ListMeta :: "mem_ListMeta \<Rightarrow> (cell, mem_ListMeta) prog" where
  "ref_copy_ListMeta m = do {
     count \<leftarrow> copy_opt clone (ml_RemainingItemCount m);
     State_Monad.return (m\<lparr>ml_RemainingItemCount := count\<rparr>)
   }"

definition ref_copy_TimeoutFields :: "mem_TimeoutFields \<Rightarrow> (cell, mem_TimeoutFields) prog" where
  "ref_copy_TimeoutFields t = do {
     pipeline \<leftarrow> copy_opt clone (mt_Pipeline t);
     tasks \<leftarrow> copy_opt clone (mt_Tasks t);
     final \<leftarrow> copy_opt clone (mt_Finally t);
     State_Monad.return (t\<lparr>mt_Pipeline := pipeline, mt_Tasks := tasks, mt_Finally := final\<rparr>)
   }"

definition ref_copiers :: copiers where
  "ref_copiers = \<lparr>ObjectMeta_DeepCopyInto = ref_copy_ObjectMeta, ListMeta_DeepCopyInto = ref_copy_ListMeta,
     TimeoutFields_DeepCopyInto = ref_copy_TimeoutFields, Condition_DeepCopyInto = State_Monad.return,
     Time_DeepCopy = clone, MapOrder = ref_range\<rparr>"

interpretation ref_copies: copier_api ref_copiers
proof (rule copier_api.intro)
  show "deep_copy valid_ObjectMeta abs_ObjectMeta foot_ObjectMeta (ObjectMeta_DeepCopyInto ref_copiers)"
    by (rule deep_copy_struct[OF deep_copy_pair[OF deep_copy_nil_map[OF deep_copy_clone] deep_copy_pair[OF
            deep_copy_nil_map[OF deep_copy_clone] deep_copy_pair[OF deep_copy_nil_list[OF deep_copy_clone]
            deep_copy_opt[OF deep_copy_clone]]]],
          where get = "\<lambda>m. (mo_Labels m, mo_Annotations m, mo_Finalizers m, mo_DeletionTimestamp m)"
            and put = "\<lambda>x m. m\<lparr>mo_Labels := fst x, mo_Annotations := fst (snd x), mo_Finalizers := fst (snd (snd x)),
              mo_DeletionTimestamp := snd (snd (snd x))\<rparr>"
            and view = "\<lambda>m v. \<lparr>om_Name = mo_Name m, om_GenerateName = mo_GenerateName m,
              om_Namespace = mo_Namespace m, om_Labels = fst v, om_Annotations = fst (snd v),
              om_Finalizers = fst (snd (snd v)), om_Generation = mo_Generation m,
              om_CreationTimestamp = mo_CreationTimestamp m, om_DeletionTimestamp = snd (snd (snd v))\<rparr>"])
      (simp_all add: ref_copiers_def ref_copy_ObjectMeta_def copy_pair_def valid_ObjectMeta_def foot_ObjectMeta_def
        abs_ObjectMeta_def)
  show "deep_copy valid_ListMeta abs_ListMeta foot_ListMeta (ListMeta_DeepCopyInto ref_copiers)"
    by (rule deep_copy_struct[OF deep_copy_opt[OF deep_copy_clone],
          where get = ml_RemainingItemCount and put = "\<lambda>x m. m\<lparr>ml_RemainingItemCount := x\<rparr>"
            and view = "\<lambda>m v. \<lparr>lm_ResourceVersion = ml_ResourceVersion m, lm_Continue = ml_Continue m,
              lm_RemainingItemCount = v\<rparr>"])
      (simp_all add: ref_copiers_def ref_copy_ListMeta_def valid_ListMeta_def foot_ListMeta_def abs_ListMeta_def)
  show "deep_copy valid_TimeoutFields abs_TimeoutFields foot_TimeoutFields (TimeoutFields_DeepCopyInto ref_copiers)"
    by (rule deep_copy_struct[OF deep_copy_pair[OF deep_copy_opt[OF deep_copy_clone] deep_copy_pair[OF
            deep_copy_opt[OF deep_copy_clone] deep_copy_opt[OF deep_copy_clone]]],
          where get = "\<lambda>t. (mt_Pipeline t, mt_Tasks t, mt_Finally t)"
            and put = "\<lambda>x t. t\<lparr>mt_Pipeline := fst x, mt_Tasks := fst (snd x), mt_Finally := snd (snd x)\<rparr>"
            and view = "\<lambda>t v. \<lparr>tf_Pipeline = fst v, tf_Tasks = fst (snd v), tf_Finally = snd (snd v)\<rparr>"])
      (simp_all add: ref_copiers_def ref_copy_TimeoutFields_def copy_pair_def valid_TimeoutFields_def
        foot_TimeoutFields_def abs_TimeoutFields_def)
  show "deep_copy (\<lambda>_ _. True) (\<lambda>_ c. c) (\<lambda>_ _. {}) (Condition_DeepCopyInto ref_copiers)"
    by (simp add: ref_copiers_def deep_copy_value)
  show "deep_copy (valid_leaf is_TimeCell) (\<lambda>h a. the_time (h ! a)) foot_leaf (Time_DeepCopy ref_copiers)"
    by (simp add: ref_copiers_def deep_copy_clone)
  show "distinct (map fst (MapOrder ref_copiers m))" "fmap_of_list (MapOrder ref_copiers m) = m" for m
    using ref.range_distinct[of m] ref.range_entries[of m] by (simp_all add: ref_copiers_def ref_ext_def)
qed

text \<open>A request in memory: its spec, params, finalizers and conditions in cells of their own.\<close>

definition ref_heap :: "cell list" where
  "ref_heap =
     [RequestCell (mem_zero_InternalRequest\<lparr>
        mi_ObjectMeta := mem_zero_ObjectMeta\<lparr>mo_Name := ''sign'', mo_Namespace := ''dev'', mo_Finalizers := Some 1\<rparr>,
        mi_Spec := mem_zero_InternalRequestSpec\<lparr>ms_Params := Some 2\<rparr>,
        mi_Status := mem_zero_InternalRequestStatus\<lparr>mst_StartTime := Some 3\<rparr>\<rparr>),
      StringsCell [''finalizer''], MapCell (fmupd ''image'' ''quay.io/app'' fmempty), TimeCell 5]"

lemmas mem_zero_defs = mem_zero_InternalRequest_def mem_zero_ObjectMeta_def mem_zero_InternalRequestSpec_def
  mem_zero_InternalRequestStatus_def mem_zero_TimeoutFields_def

lemmas valid_defs = valid_ptr_def valid_InternalRequest_def valid_ObjectMeta_def valid_InternalRequestSpec_def
  valid_InternalRequestStatus_def valid_TimeoutFields_def valid_opt_def valid_leaf_def

lemma ref_heap_valid: "request_pointer ref_heap 0"
  by (simp add: ref_heap_def mem_zero_defs valid_defs)

section \<open>Schemes\<close>

type_synonym ref_scheme = "(GroupVersionId \<times> string) list"

fun ref_builder_run :: "ref_scheme adder list \<Rightarrow> ref_scheme adder" where
  "ref_builder_run [] s = (None, s)"
| "ref_builder_run (f # fs) s = (case ref_builder_run fs s of (None, s') \<Rightarrow> f s' | (Some e, s') \<Rightarrow> (Some e, s'))"

definition ref_schemes :: "(ref_scheme, ref_scheme adder list) scheme_ops" where
  "ref_schemes = \<lparr>NewScheme = [], AddKnownTypes = (\<lambda>gv ts s. map (Pair gv) ts @ s), AddToGroupVersion = (\<lambda>_ s. s),
     Recognizes = (\<lambda>s gv t. (gv, t) \<in> set s), NewBuilder = [], BuilderRegister = (#),
     BuilderAddToScheme = ref_builder_run, clientgo_AddToScheme = Pair None, tekton_AddToScheme = Pair None\<rparr>"

interpretation ref_schemes: scheme_api ref_schemes
  by unfold_locales (auto simp: ref_schemes_def)

section \<open>The platform\<close>

text \<open>A manager is the list of what was done to it; only files with content can be read.\<close>

definition ref_platform :: "(ref_scheme, string, string, string list, string) platform" where
  "ref_platform = \<lparr>GetConfigOrDie = Inr ''local'', NewManager = (\<lambda>_ _. Inr [''new'']),
     ReadFile = (\<lambda>f. if f = [] then Inl (Error ''open : no such file or directory'') else Inr f),
     NewClientConfigFromBytes = Inr, ClientConfig = Inr, NewCluster = (\<lambda>c _. Inr c),
     MgrAdd = (\<lambda>m c. (None, m @ [c])), SetupControllers = (\<lambda>m _ cs. (None, m @ map (\<lambda>_. ''controller'') cs)),
     AddHealthzCheck = (\<lambda>m n. (None, m @ [n])), AddReadyzCheck = (\<lambda>m n. (None, m @ [n])), MgrStart = (\<lambda>_. None)\<rparr>"

section \<open>Metric names\<close>

text \<open>A registry is the list of the names it has; it takes every new one.\<close>

fun ref_register :: "collector list \<Rightarrow> string list \<Rightarrow> unit go \<times> string list" where
  "ref_register [] r = (Ret (), r)"
| "ref_register (c # cs) r =
     (if col_Name c \<in> set r then (Panic ''duplicate metrics collector registration attempted'', r)
      else ref_register cs (col_Name c # r))"

definition ref_metrics :: "string list registry_ops" where
  "ref_metrics = \<lparr>MustRegister = ref_register, Registered = (\<lambda>r n. n \<in> set r)\<rparr>"

interpretation ref_metrics: registry_api ref_metrics
  by unfold_locales (auto simp: ref_metrics_def)

section \<open>Watches\<close>

definition ref_reader :: owner_reader where
  "ref_reader k g an =
     (case fmlookup an ''operator-sdk/primary-resource-type'' of
        None \<Rightarrow> None
      | Some t \<Rightarrow>
          if t \<noteq> ref_owner_type k g then None
          else (case fmlookup an ''operator-sdk/primary-resource'' of
                  None \<Rightarrow> None
                | Some nn \<Rightarrow>
                    Some (takeWhile (\<lambda>c. c \<noteq> CHR ''/'') nn, drop (Suc (length (takeWhile (\<lambda>c. c \<noteq> CHR ''/'') nn))) nn)))"

fun ref_event_objects :: "'o watch_event \<Rightarrow> 'o list" where
  "ref_event_objects (CreateEvent x) = [x]"
| "ref_event_objects (UpdateEvent x y) = [x, y]"
| "ref_event_objects (DeleteEvent x) = [x]"
| "ref_event_objects (GenericEvent x) = [x]"

definition ref_watches :: watch_ops where
  "ref_watches = \<lparr>GenerationChangedPredicate = (\<lambda>_. True), IgnoreAllPredicate = (\<lambda>_. False),
     EnqueueRequestForObject = (\<lambda>e. [request_key (last (ref_event_objects e))]),
     EnqueueRequestForAnnotation = (\<lambda>k g e.
       List.map_filter (\<lambda>x. ref_reader k g (om_Annotations (object_meta x))) (ref_event_objects e))\<rparr>"

lemma ref_group: "takeWhile (\<lambda>c. c \<noteq> CHR ''/'') (APIVersionOf g) = g" if "CHR ''/'' \<notin> set g"
  using that by (auto simp: APIVersionOf_def takeWhile_append takeWhile_eq_all_conv)

lemma ref_split:
  assumes "CHR ''/'' \<notin> set ns"
  shows "takeWhile (\<lambda>c. c \<noteq> CHR ''/'') (ns @ CHR ''/'' # n) = ns"
    "drop (Suc (length (takeWhile (\<lambda>c. c \<noteq> CHR ''/'') (ns @ CHR ''/'' # n)))) (ns @ CHR ''/'' # n) = n"
proof -
  show t: "takeWhile (\<lambda>c. c \<noteq> CHR ''/'') (ns @ CHR ''/'' # n) = ns"
    using assms by (induction ns) auto
  show "drop (Suc (length (takeWhile (\<lambda>c. c \<noteq> CHR ''/'') (ns @ CHR ''/'' # n)))) (ns @ CHR ''/'' # n) = n"
    unfolding t by simp
qed

interpretation ref_watches: watch_api ref_ext ref_watches ref_reader
proof
  show "set (EnqueueRequestForAnnotation ref_watches k g (UpdateEvent obj obj')) =
      set_option (ref_reader k g (om_Annotations (object_meta obj))) \<union>
      set_option (ref_reader k g (om_Annotations (object_meta obj')))" for k g obj obj'
    by (cases "ref_reader k g (om_Annotations (object_meta obj))"; cases "ref_reader k g (om_Annotations (object_meta obj'))")
      (simp_all add: ref_watches_def map_filter_simps insert_commute)
  show "ref_reader k g (om_Annotations (fst (SetOwnerAnnotations ref_ext tm m om))) = Some (om_Namespace m, om_Name m)"
    if "tm_Kind tm = k" "tm_APIVersion tm = APIVersionOf g" "Separator \<notin> set g" "k \<noteq> []" "om_Name m \<noteq> []"
      "Separator \<notin> set (om_Namespace m)" for tm k g m om
    using that ref_group[of g] ref_split[of "om_Namespace m" "om_Name m"]
    by (simp add: ref_ext_def ref_owner_def ref_reader_def Separator_def)
qed (simp_all add: ref_watches_def)

end
