(* ===== verification/System_Witnesses.thy ===== *)
theory System_Witnesses
  imports Witnesses Gauge Platform_Reference
begin

text \<open>
  Concrete instances of the properties of the whole system, of start-up and of the copies in
  memory, on the reference values.
\<close>

section \<open>The system\<close>

definition ref_key :: key where
  "ref_key = (''dev'', ''sign'')"

text \<open>A cluster with a configuration and nothing else, and the same after a request was submitted.\<close>

definition ref_world :: world where
  "ref_world = \<lparr>w_request = None, w_config = Some ref_allowed, w_runs = [], w_used = []\<rparr>"

definition ref_submitted :: world where
  "ref_submitted = ref_world\<lparr>w_request := Some ref_fresh\<rparr>"

lemma ref_initial: "initial ref_key ref_world"
  by (simp add: initial_def ref_world_def mine_def ids_ok_def config_ok_def ref_defs)

lemma ref_not_found: "IsNotFound ref_ext (Error ''NotFound'')"
  by (simp add: ref_ext_def)

lemma ref_submit_event: "env_step ref_ext ref_key ref_world (Some (RemoteRequestEvent (CreateEvent ref_fresh))) ref_submitted"
  unfolding ref_submitted_def
  by (rule env_step.submit) (simp_all add: ref_world_def keyed_def ref_key_def request_type_def ref_defs const_defs)

lemma ref_submit: "sys_step ref_ext ref_handler registered ref_key ref_world ref_submitted"
  by (rule sys_step.others[OF ref_submit_event])

definition ref_reconciled :: world where
  "ref_reconciled = recon ref_ext ref_handler registered (Error ''NotFound'') ref_key ref_submitted"

lemma ref_reaches: "(sys_step ref_ext ref_handler registered ref_key)\<^sup>*\<^sup>* ref_world ref_reconciled"
proof -
  let ?r = "Reconcile ref_ext (steady (Error ''NotFound'') ref_submitted) ref_handler registered (fst ref_key) (snd ref_key) []"
  have "sys_step ref_ext ref_handler registered ref_key ref_submitted ref_reconciled"
    unfolding ref_reconciled_def recon_def
    by (rule sys_step.reconcile[of _ _ "\<lambda>_. None" _ _ _ _ "fst ?r" _ "snd (snd ?r)"])
      (simp_all add: proper_faults_def ref_not_found)
  with ref_submit show ?thesis by (meson rtranclp.rtrancl_into_rtrancl rtranclp.rtrancl_refl)
qed

lemmas ref_apis = ref_loop.reconcile_handler_axioms ref.conditions_api_axioms ref.results_api_axioms
  ref.finalizer_api_axioms ref.tekton_api_axioms ref.owner_api_axioms

lemma ref_servable: "servable ref_ext ref_submitted"
  using ref.parse_size[OF ref_size, of "[''dev'']"] by (simp add: servable_def ref_submitted_def ref_world_def)


theorem finished_run_wakes_owner_witness:
  "\<exists>plr. requestPipelineRun ref_ext ref_allowed ref_fresh = Ret plr \<and>
     set (dispatch ref_ext ref_watches (PipelineRunEvent (UpdateEvent (PipelineRunObject plr)
       (PipelineRunObject (plr\<lparr>plr_Status := plr_Status ref_true_run\<rparr>))))) = {(''dev'', ''sign'')}"
proof -
  obtain plr where r: "requestPipelineRun ref_ext ref_allowed ref_fresh = Ret plr" using ref_built by blast
  then have st: "plr_Status plr = plr_Status zero_PipelineRun" by (rule requestPipelineRun_spec)
  have ns: "CHR ''/'' \<notin> set (ir_Namespace ref_fresh)" "ir_Name ref_fresh \<noteq> []"
    "ir_TypeMeta ref_fresh = \<lparr>tm_Kind = ''InternalRequest'', tm_APIVersion = ''appstudio.redhat.com/v1alpha1''\<rparr>"
    "(ir_Namespace ref_fresh, ir_Name ref_fresh) = (''dev'', ''sign'')"
    by (simp_all add: ref_defs const_defs)
  have d: "\<not> IsDone ref_ext plr" "IsDone ref_ext (plr\<lparr>plr_Status := plr_Status ref_true_run\<rparr>)"
    using st by (simp_all add: ref_ext_def ref_condition_def ref_done_def ref_defs zero_PipelineRun_def)
  from finished_run_wakes_owner[OF ref_watches.watch_api_axioms ref.owner_api_axioms r ns(3,2,1), of plr
      "plr\<lparr>plr_Status := plr_Status ref_true_run\<rparr>"] r d ns(4) show ?thesis by simp
qed


text \<open>A reconcile in which the first call fails is repeated.\<close>

definition ref_outage :: "trace \<Rightarrow> go_error option" where
  "ref_outage h = (if h = [] then Some (Error ''timeout'') else None)"

lemma ref_outage_proper: "proper_faults ref_ext (Error ''NotFound'') ref_outage"
  by (auto simp: proper_faults_def ref_not_found ref_outage_def ref_ext_def)


section \<open>All requests\<close>

interpretation ref_operator: operator_api ref_ext ref_handler ref_watches ref_reader
  by unfold_locales

text \<open>The operator before and after the request is submitted.\<close>

definition ref_fleet :: fleet where
  "ref_fleet = \<lparr>f_requests = (\<lambda>_. None), f_config = Some ref_allowed, f_runs = [], f_used = [], f_queue = {}\<rparr>"

definition ref_fleet_submitted :: fleet where
  "ref_fleet_submitted = ref_fleet\<lparr>f_requests := [ref_key \<mapsto> ref_fresh], f_queue := {ref_key}\<rparr>"

lemma ref_views:
  "view k ref_fleet = ref_world" "view ref_key ref_fleet_submitted = ref_submitted"
  "k \<noteq> ref_key \<Longrightarrow> view k ref_fleet_submitted = ref_world"
  by (simp_all add: view_def ref_fleet_def ref_fleet_submitted_def ref_world_def ref_submitted_def)

lemma ref_fleet_start: "fleet_start ref_fleet"
proof -
  have "initial k ref_world" for k
    using ref_initial by (simp add: initial_def ref_world_def mine_def)
  then show ?thesis by (simp only: fleet_start_def ref_views) (simp add: ref_fleet_def)
qed

lemma ref_fresh_names: "ir_Namespace ref_fresh = ''dev''" "ir_Name ref_fresh = ''sign''"
  by (simp_all add: ref_defs)

lemma ref_fleet_event:
  "\<forall>j. view j ref_fleet_submitted = view j ref_fleet \<or>
    env_step ref_ext j (view j ref_fleet) (Some (RemoteRequestEvent (CreateEvent ref_fresh))) (view j ref_fleet_submitted)"
  "f_queue ref_fleet_submitted = f_queue ref_fleet \<union> (case Some (RemoteRequestEvent (CreateEvent ref_fresh)) of
    None \<Rightarrow> {} | Some e \<Rightarrow> set (dispatch ref_ext ref_watches e))"
proof -
  have "view j ref_fleet_submitted = view j ref_fleet \<or>
    env_step ref_ext j (view j ref_fleet) (Some (RemoteRequestEvent (CreateEvent ref_fresh))) (view j ref_fleet_submitted)" for j
    using ref_submit_event by (cases "j = ref_key") (simp_all add: ref_views)
  then show "\<forall>j. view j ref_fleet_submitted = view j ref_fleet \<or>
    env_step ref_ext j (view j ref_fleet) (Some (RemoteRequestEvent (CreateEvent ref_fresh))) (view j ref_fleet_submitted)"
    by (rule allI)
  have "set (dispatch ref_ext ref_watches (RemoteRequestEvent (CreateEvent ref_fresh))) = {ref_key}"
    by (simp add: ref_watches.object_create request_key_def ref_key_def ref_fresh_names)
  then show "f_queue ref_fleet_submitted = f_queue ref_fleet \<union> (case Some (RemoteRequestEvent (CreateEvent ref_fresh)) of
    None \<Rightarrow> {} | Some e \<Rightarrow> set (dispatch ref_ext ref_watches e))"
    by (simp only: option.case) (simp add: ref_fleet_def ref_fleet_submitted_def)
qed

lemma ref_fleet_submit: "settled_step ref_ext ref_handler registered ref_watches ref_fleet ref_fleet_submitted"
  using fleet_step.others[OF ref_fleet_event] by (simp add: settled_step_def ref_fleet_def ref_fleet_submitted_def)

lemma ref_fleet_reaches:
  "(settled_step ref_ext ref_handler registered ref_watches)\<^sup>*\<^sup>* ref_fleet ref_fleet_submitted"
  "(fleet_step ref_ext ref_handler registered ref_watches)\<^sup>*\<^sup>* ref_fleet ref_fleet_submitted"
  using ref_fleet_submit by (auto simp: settled_step_def)

text \<open>After the reconcile of the submitted request it has at most one run.\<close>

lemma ref_fleet_works:
  "\<exists>c. (fleet_step ref_ext ref_handler registered ref_watches)\<^sup>*\<^sup>* ref_fleet c \<and> view ref_key c = ref_reconciled"
proof -
  let ?r = "Reconcile ref_ext (steady (Error ''NotFound'') (view ref_key ref_fleet_submitted)) ref_handler registered
    (fst ref_key) (snd ref_key) []"
  let ?c = "worked ref_key (world_after (view ref_key ref_fleet_submitted) (fst (snd ?r))) (fst ?r) ref_fleet_submitted"
  have "ref_key \<in> f_queue ref_fleet_submitted" by (simp add: ref_fleet_submitted_def)
  then have "fleet_step ref_ext ref_handler registered ref_watches ref_fleet_submitted ?c"
    by (rule fleet_step.work[of _ _ _ "Error ''NotFound''" "\<lambda>_. None" _ _ _ _ "snd (snd ?r)"])
      (simp_all add: proper_faults_def ref_not_found)
  moreover have "view ref_key ?c = ref_reconciled" by (simp add: ref_views ref_reconciled_def recon_def)
  ultimately show ?thesis using ref_fleet_reaches(2) by (meson rtranclp.rtrancl_into_rtrancl)
qed




text \<open>The queue has one request, so two reconciles empty it.\<close>

lemma ref_drainable: "drainable ref_ext ref_fleet_submitted"
proof -
  have q: "f_queue ref_fleet_submitted = {ref_key}" "f_requests ref_fleet_submitted ref_key = Some ref_fresh"
    by (simp_all add: ref_fleet_submitted_def)
  have "om_DeletionTimestamp (ir_ObjectMeta ref_fresh) = None" by (simp add: ref_defs)
  with q ref_servable show ?thesis by (simp add: drainable_def ref_views)
qed


section \<open>The gauge\<close>

definition ref_no_metrics :: Registry where
  "ref_no_metrics = \<lparr>reg_gauge = 0, reg_counter = (\<lambda>_. 0), reg_observed = (\<lambda>_. {#})\<rparr>"

text \<open>The request is submitted and reconciled; the gauge is the number of requests that run.\<close>

lemma ref_metered:
  "\<exists>c cs. (metered_step ref_ext ref_handler registered ref_watches (Error ''NotFound''))\<^sup>*\<^sup>*
      (ref_fleet, []) (c, cs) \<and> view ref_key c = ref_reconciled"
proof -
  let ?M = "metered_step ref_ext ref_handler registered ref_watches (Error ''NotFound'')"
  let ?r = "Reconcile ref_ext (steady (Error ''NotFound'') (view ref_key ref_fleet_submitted)) ref_handler registered
    (fst ref_key) (snd ref_key) []"
  let ?c = "worked ref_key (world_after (view ref_key ref_fleet_submitted) (fst (snd ?r))) (fst ?r) ref_fleet_submitted"
  have q: "f_queue ref_fleet_submitted = {ref_key}" "f_requests ref_fleet_submitted = [ref_key \<mapsto> ref_fresh]"
    "f_queue ref_fleet = {}"
    by (simp_all add: ref_fleet_submitted_def ref_fleet_def)
  have fresh: "fresh_status ref_ext ref_fresh" by (simp add: fresh_status_def)
  have "\<forall>j ir. f_requests ref_fleet j = None \<and> f_requests ref_fleet_submitted j = Some ir \<longrightarrow> fresh_status ref_ext ir"
    using fresh unfolding q(2) by (metis fun_upd_apply option.inject option.simps(3))
  from metered_step.others[OF ref_fleet_event(1) this ref_fleet_event(2)]
  have "?M (ref_fleet, []) (ref_fleet_submitted, [])" .
  moreover have "?M (ref_fleet_submitted, []) (?c, [] @ snd (snd ?r))"
  proof (rule metered_step.work)
    show "ref_key \<in> f_queue ref_fleet_submitted" by (simp add: q)
    have "\<not> IsRunning ref_ext ref_fresh" using fresh by (simp add: fresh_status_def query_defs)
    then show "\<forall>ir. f_requests ref_fleet_submitted ref_key = Some ir \<and> IsRunning ref_ext ir \<longrightarrow>
        admits (current_config (view ref_key ref_fleet_submitted)) ir"
      by (simp add: q)
  qed simp
  moreover have "view ref_key ?c = ref_reconciled" by (simp add: ref_views ref_reconciled_def recon_def)
  ultimately show ?thesis by (meson rtranclp.rtrancl_into_rtrancl rtranclp.rtrancl_refl)
qed


section \<open>Start-up\<close>

theorem scheme_knows_api_witness:
  "\<exists>s. main_init ref_schemes = Ret s \<and> list_all (Recognizes ref_schemes s GroupVersion) api_kinds"
proof -
  have "clientgo_AddToScheme ref_schemes (NewScheme ref_schemes) = (None, [])" "tekton_AddToScheme ref_schemes [] = (None, [])"
    by (simp_all add: ref_schemes_def)
  with scheme_knows_api[OF ref_schemes.scheme_api_axioms] show ?thesis by blast
qed

definition api_scheme :: ref_scheme where
  "api_scheme = map (Pair GroupVersion) api_kinds"

theorem remote_config_required_witness:
  "fst (main ref_platform api_scheme default_flags) = None"
  using remote_config_required[of ref_platform "Error ''open : no such file or directory''" default_flags api_scheme]
  by (simp add: ref_platform_def)

text \<open>A platform on which everything works starts the complete manager.\<close>

lemma ref_main:
  "main ref_platform api_scheme (default_flags\<lparr>remoteClusterConfigFile := ''kubeconfig''\<rparr>) =
     (Some [''new'', ''kubeconfig'', ''controller'', ''healthz'', ''readyz''], Returned)"
  by (simp add: ref_platform_def setup_defs)

section \<open>Copies\<close>

theorem generated_copies_are_deep_witness:
  "deep_pointer is_RequestCell the_request valid_InternalRequest abs_InternalRequest foot_InternalRequest
     (InternalRequest_DeepCopy ref_copiers)"
  using generated_copies_are_deep[OF ref_copies.copier_api_axioms] by blast

text \<open>Changing the finalizers of the request in place does not reach its copy.\<close>

theorem deep_copy_is_snapshot_witness:
  "\<exists>b h'. run_state (InternalRequest_DeepCopy ref_copiers (Some 0)) ref_heap = (Some b, h') \<and>
     request_at (write_all [(1, StringsCell [])] h') b = request_at ref_heap 0"
proof -
  obtain b h' where r: "run_state (InternalRequest_DeepCopy ref_copiers (Some 0)) ref_heap = (Some b, h')"
    unfolding InternalRequest_DeepCopy_Some by fastforce
  have "fst ` set [(1, StringsCell [])] \<inter> {length ref_heap..<length h'} = {}" by (simp add: ref_heap_def)
  from deep_copy_is_snapshot[OF ref_copies.copier_api_axioms ref_heap_valid r this, of "[]"] r show ?thesis by auto
qed

end
