(* ===== verification/Spec2Isabelle.thy ===== *)
theory Spec2Isabelle
  imports System_Witnesses
begin

text \<open>
  A verification development of the internal-services operator (\<open>src/\<close>, Go).

  \<^bold>\<open>The program.\<close> The operator watches InternalRequests on a remote cluster and runs a Tekton
  PipelineRun for each admitted one on the local cluster. \<open>controllers/internalrequest\<close> holds
  the reconciler: it reads the request, makes an adapter and hands eight operations to the
  handler of operator-toolkit, which runs them in order until one asks to stop, to requeue or
  fails. The operations finalize deleted requests (cancel the run, take the finalizer off), add
  the finalizer, stop on completed requests, load the configuration, admit or reject the
  request, create its run, track the run's outcome in the status, and delete the finished run.
  \<open>api/v1alpha1\<close> has the resources and the transitions of a request, \<open>metrics\<close> the
  Prometheus collectors fed by goroutines from those transitions, \<open>tekton\<close> the construction of
  PipelineRuns and the filter on their events, \<open>loader\<close> the reads from the clusters. \<open>main.go\<close>
  registers the API types, builds the manager and the client of the remote cluster, and
  registers the controller with its watches, whose events decide what is reconciled.

  \<^bold>\<open>Theories and the code they model.\<close>
  \<^item> \<open>Prelude\<close>, \<open>Go_Strings\<close>: panics as values, sequencing, and the string functions of Go's
    library the program uses. \<open>Api_Objects\<close>: the Kubernetes and Tekton types with the fields
    the program touches.
  \<^item> \<open>Externals\<close>: third-party functions are the fields of one record \<open>ext\<close>; what the program
    relies on is a locale per package (\<open>conditions_api\<close>, \<open>finalizer_api\<close>, \<open>results_api\<close>,
    \<open>tekton_api\<close>, \<open>owner_api\<close>, \<open>range_api\<close>; \<open>quantity_api\<close> in \<open>Internal_Services_Config\<close>,
    \<open>prometheus_api\<close> in \<open>Metrics\<close>, \<open>reconcile_handler\<close> in \<open>Reconciler\<close>).
  \<^item> \<open>Tekton_Utils\<close>: \<open>tekton/utils/pipeline.go\<close>. \<open>Metrics\<close>: \<open>metrics/internalrequest.go\<close>, a
    function being the list of collector calls it makes; \<open>Metrics_Registration\<close>: its collectors
    and \<open>init\<close>. \<open>Internal_Services_Config\<close> and
    \<open>Internal_Request\<close>: \<open>api/v1alpha1\<close>; a transition returns the new request and the
    goroutines it started. \<open>Pipeline_Run\<close>: \<open>tekton/pipeline_run.go\<close>, \<open>utils.go\<close>,
    \<open>predicates.go\<close>, \<open>metadata/labels.go\<close>.
  \<^item> \<open>Cluster\<close>: the two API servers, as a record of answer functions over the trace of all
    calls made so far, so that every behaviour of servers, network and other actors is some
    value of the parameter. \<open>Loader\<close>: \<open>loader/loader.go\<close>, with the contract of the interface
    as locale \<open>object_loader\<close>; \<open>Mock_Loader\<close>: \<open>loader_mock.go\<close>, a second implementation.
  \<^item> \<open>Adapter\<close>: \<open>adapter.go\<close>, one definition per method. The state is a record of the two
    clients, the configuration, the request in memory, the loader, the trace and the started
    goroutines. \<open>Reconciler\<close>: \<open>controller.go\<close>, and a Hoare-style rule for the loop. \<open>Watches\<close>:
    the watches \<open>Register\<close> sets up, as a function from events to queue entries.
  \<^item> \<open>Startup\<close>: \<open>main.go\<close> and \<open>controllers/controllers.go\<close>, over a record of what
    controller-runtime offers; an exit of the process is an outcome. \<open>Api_Registration\<close>:
    \<open>groupversion_info.go\<close> and the \<open>init\<close> functions of the API types, in Go's order of
    initialisation.
  \<^item> \<open>Go_Heap\<close>, \<open>Heap_Objects\<close>, \<open>Deep_Copies\<close>: the two \<open>zz_generated.deepcopy.go\<close>. Structs
    are records in cells of a heap, and slices, maps and pointers are addresses, so that sharing
    is visible; one program of the state monad per method. The copies of foreign types are
    parameters.

  \<^bold>\<open>What is proved.\<close>
  \<^item> \<open>Request_Lifecycle\<close>: the life of a request as a state machine; completion is final, and the
    metrics balance over every life. \<open>Metrics\<close>: they do so under every interleaving.
  \<^item> \<open>Adapter_Contract\<close>: locale \<open>operation_contract\<close>, interpreted for the eight operations: each
    only appends its kinds of calls, to the right cluster. \<open>Adapter_Frames\<close>: what each leaves
    alone, and the case analyses of the creating and the tracking operation.
  \<^item> \<open>Admission\<close>: the operation implements the specification \<open>admits\<close>. \<open>Run_Creation\<close>: what a
    reconcile creates is at most one run, and an admitted one. \<open>Run_Shape\<close>: what the run looks
    like, and that lookups and filters recognise it.
  \<^item> \<open>Tracking\<close>: failure messages, the reference to the run, the status patch on each branch.
    \<open>Finalization\<close>: the finalizer goes only after the run is settled; deleted and completed
    requests.
  \<^item> \<open>Reconcile_Safety\<close>: separation of the clusters, absence of panics. \<open>Accounting\<close>: a
    reconcile keeps the books of the metrics, and where it does not. \<open>Scenarios\<close>,
    \<open>Operation_Properties\<close>: whole reconciles with their exact traces, and single operations.
  \<^item> \<open>Cluster_State\<close>, \<open>System_Operations\<close>, \<open>System_Specs\<close>, \<open>System\<close>: a stateful server, and the
    operator with users, administrators and Tekton as one transition system around one request,
    in which any call may fail; an invariant of its reachable states. \<open>Served\<close>, \<open>Settling\<close>: a
    reconcile that reports nothing has brought the request to rest, whichever calls failed.
    \<open>Convergence\<close>: without failures one reconcile reaches a fixed point. \<open>Wakeups\<close>: whatever
    disturbs a fixed point, except the configuration, wakes up the request through the watches.
  \<^item> \<open>Fleet\<close>: the operator with all its requests, the shared list of runs, its work queue and
    restarts. Each request with the shared part is a state of \<open>System\<close>; the labels keep the runs
    of requests apart, so that the invariant holds for all: no run is orphaned, and a reconcile
    touches no other request's run. \<open>Work_Queue\<close>: locale \<open>work_list\<close> of level-triggered control,
    interpreted on the fleet: what is not at rest is in the queue, and the queue drains.
  \<^item> \<open>Smooth_Running\<close>: without failures a reconcile cannot tell the server from the clusters of
    \<open>Accounting\<close> that accept every patch, so its books hold of the stored request. \<open>Gauge\<close>: the
    fleet with the goroutines its reconciles start; the concurrency gauge against the number
    of running requests.
  \<^item> \<open>Copy_Laws\<close>, \<open>Copy_Properties\<close>: every generated copy is deep: equal content, new cells,
    nothing old written. The combinators of \<open>Go_Heap\<close> carry these proofs.
  \<^item> \<open>Api_Registration\<close>, \<open>Metrics_Registration\<close>, \<open>Startup\<close>: which types the scheme knows; the
    collectors can be registered, once; the manager runs only when completely assembled.
  \<^item> \<open>Reference\<close>, \<open>Platform_Reference\<close>: concrete third-party functions, handler, registry,
    clusters, schemes, watches and copies, on which the locales are interpreted. \<open>Witnesses\<close>,
    \<open>System_Witnesses\<close>: each property applied to them.

  \<^bold>\<open>Assumptions.\<close> They are hypotheses of the theorems that need them: the locales above; for the
  absence of panics that servers keep to the schemas (\<open>keeps_pipeline\<close>, \<open>valid_configs\<close>); for the
  accounting that patches of the request are accepted (\<open>accepts_patches\<close>) and that a running
  request stays admitted (\<open>stays_admitted\<close>). Theorems about the trace need none of these. All
  functions are total; there is no fuel, since every loop of the program is over a finite list.
  Instants are integers, durations saturate as in Go, seconds are real numbers where Go has
  floating point.

  In the transition systems reads return what is stored, and one reconcile of a request is not
  interleaved with others' steps or other reconciles; a call that fails has no effect and does
  not report a missing object; names of runs are generated anew and never used twice. The work
  queue is the set of the requests waiting: it merges equal entries, as the real one does, and
  takes a request back after an error, a panic or a request to be repeated. Reaching a fixed point
  needs a pipeline in the request and parseable volume sizes (\<open>servable\<close>); emptying the queue
  needs besides that deleted requests carry no finalizer but the operator's (\<open>drainable\<close>), since
  a deleted request is requeued as long as it exists, and takes at most two reconciles for each
  queued request. Nobody watches the configuration, so that the properties of the queue are about
  runs that leave it alone. The gauge is compared with the running requests in runs without
  failures in which running requests stay admitted; \<open>Accounting\<close> states by how much the books are
  off otherwise.

  \<^bold>\<open>Not modelled.\<close> Logging and contexts; the parsing of command-line text (flags are a record
  with their defaults); \<open>coverage_init.go\<close>, which only imports a package in coverage builds; the
  rate limits of the work queue; stale reads from caches in the transition systems (the theorems
  about traces cover them, since they allow any answer; what a list that misses the run leads to
  is a property of \<open>Scenarios\<close>).

  \<^bold>\<open>Possible extensions.\<close> Stale caches in the transition systems; reconciles of different
  requests that run at the same time, for which the controller would have to be configured.
\<close>

end
